(* ===== verification/Meows_Prelude.thy ===== *)
theory Meows_Prelude
  imports Main "HOL-Library.AList" "HOL-Library.Word" "HOL-Library.Sublist"
begin

section \<open>Prelude: Go values shared by the components\<close>

text \<open>
  The vocabulary of the development: Go maps with their nil value, Go's 32-bit integers, the
  interaction record that threads the outside world through a function, and the generic list
  lemmas the components use. Nothing here models a file of the repository; the theories of the
  components import it and declare their facts into the collections below.

  \<^item> \<open>go_simps\<close>: unfolding equations of the small Go-level operations;
  \<^item> \<open>frame_simps\<close>: what an operation leaves unchanged.
\<close>

named_theorems go_simps "defining equations of the Go-level operations"
named_theorems frame_simps "fields and observations that an operation leaves unchanged"

subsection \<open>Results\<close>

text \<open>A Go function that returns \<open>(T, error)\<close> is a sum: \<open>Inl\<close> is the error.\<close>

definition bind_res :: "'e + 'a \<Rightarrow> ('a \<Rightarrow> 'e + 'b) \<Rightarrow> 'e + 'b" where
  "bind_res r f = (case r of Inl e \<Rightarrow> Inl e | Inr a \<Rightarrow> f a)"

lemma bind_res_simps [simp]:
  "bind_res (Inl e) f = Inl e"
  "bind_res (Inr a) f = f a"
  by (simp_all add: bind_res_def)

lemma bind_res_Inr_iff: "bind_res r f = Inr b \<longleftrightarrow> (\<exists>a. r = Inr a \<and> f a = Inr b)"
  by (cases r) auto

subsection \<open>Go maps from strings to strings\<close>

text \<open>
  A Go map is either nil or a collection of entries. The entries are kept as an association list,
  in the order a \<open>range\<close> loop would visit them; a read of a nil map finds nothing, a write to a
  nil map panics (\<open>None\<close>), \<open>delete\<close> on a nil map does nothing.
\<close>

type_synonym gomap = "(string \<times> string) list option"

definition gm_entries :: "gomap \<Rightarrow> (string \<times> string) list" where
  "gm_entries m = (case m of None \<Rightarrow> [] | Some es \<Rightarrow> es)"

definition gm_get :: "gomap \<Rightarrow> string \<Rightarrow> string option" where
  "gm_get m k = map_of (gm_entries m) k"

text \<open>\<open>m[k]\<close> of a missing key is the zero value, the empty string.\<close>

definition gm_index :: "gomap \<Rightarrow> string \<Rightarrow> string" where
  "gm_index m k = (case gm_get m k of None \<Rightarrow> [] | Some v \<Rightarrow> v)"

definition gm_put :: "gomap \<Rightarrow> string \<Rightarrow> string \<Rightarrow> gomap option" where
  "gm_put m k v = (case m of None \<Rightarrow> None | Some es \<Rightarrow> Some (Some (AList.update k v es)))"

definition gm_delete :: "gomap \<Rightarrow> string \<Rightarrow> gomap" where
  "gm_delete m k = map_option (AList.delete k) m"

definition gm_wf :: "gomap \<Rightarrow> bool" where
  "gm_wf m \<longleftrightarrow> distinct (map fst (gm_entries m))"

lemma gm_entries_simps [simp]: "gm_entries None = []" "gm_entries (Some es) = es"
  by (simp_all add: gm_entries_def)

lemma gm_get_None [simp]: "gm_get None k = None"
  by (simp add: gm_get_def)

lemma gm_get_put: "gm_put m k v = Some m' \<Longrightarrow> gm_get m' = (gm_get m)(k \<mapsto> v)"
  by (auto simp: gm_put_def gm_get_def fun_eq_iff AList.update_conv split: option.splits)

lemma gm_get_delete [simp]: "gm_get (gm_delete m k) = (gm_get m)(k := None)"
  by (cases m) (auto simp: gm_delete_def gm_get_def fun_eq_iff AList.delete_conv)

lemma gm_index_put: "gm_put m k v = Some m' \<Longrightarrow> gm_index m' k = v"
  by (simp add: gm_index_def gm_get_put)

lemma gm_wf_put: "gm_put m k v = Some m' \<Longrightarrow> gm_wf m \<Longrightarrow> gm_wf m'"
  by (auto simp: gm_put_def gm_wf_def AList.distinct_update split: option.splits)

lemma gm_wf_delete: "gm_wf m \<Longrightarrow> gm_wf (gm_delete m k)"
  by (cases m) (auto simp: gm_delete_def gm_wf_def AList.distinct_delete)

text \<open>A \<open>range\<close> loop that puts every entry of one map into another.\<close>

definition put_all :: "(string \<times> string) list \<Rightarrow> (string \<times> string) list \<Rightarrow> (string \<times> string) list" where
  "put_all es m = fold (\<lambda>(k, v). AList.update k v) es m"

lemma map_of_put_all:
  "distinct (map fst es) \<Longrightarrow> map_of (put_all es m) = map_of m ++ map_of es"
proof (induction es arbitrary: m)
  case Nil
  then show ?case by (simp add: put_all_def)
next
  case (Cons e es)
  obtain k v where e: "e = (k, v)" by (cases e)
  have "map_of (put_all (e # es) m) = map_of (AList.update k v m) ++ map_of es"
    using Cons by (simp add: put_all_def e)
  also have "map_of (AList.update k v m) = (map_of m)(k \<mapsto> v)" by (simp add: fun_eq_iff AList.update_conv)
  also have "\<dots> ++ map_of es = map_of m ++ map_of (e # es)"
    using Cons.prems by (simp add: e map_add_upd_left dom_map_of_conv_image_fst)
  finally show ?case .
qed

lemma distinct_put_all: "distinct (map fst m) \<Longrightarrow> distinct (map fst (put_all es m))"
  unfolding put_all_def by (induction es arbitrary: m) (auto simp: AList.distinct_update split: prod.splits)

lemma put_all_snoc: "distinct (map fst (m @ es)) \<Longrightarrow> put_all es m = m @ es"
proof (induction es arbitrary: m)
  case Nil
  then show ?case by (simp add: put_all_def)
next
  case (Cons e es)
  have upd: "AList.update k v xs = xs @ [(k, v)]" if "k \<notin> fst ` set xs" for k and v :: string and xs
    using that by (induction xs) auto
  have "fst e \<notin> fst ` set m" using Cons.prems by auto
  then have "put_all (e # es) m = put_all es (m @ [e])"
    by (simp add: put_all_def case_prod_beta upd)
  with Cons.IH [of "m @ [e]"] Cons.prems show ?case by simp
qed

lemma put_all_Nil: "distinct (map fst es) \<Longrightarrow> put_all es [] = es"
  using put_all_snoc [of "[]" es] by simp

subsection \<open>32-bit integers\<close>

text \<open>Go's \<open>int32\<close> wraps around and is compared as a two's complement number.\<close>

type_synonym int32 = "32 word"

lemma sint_int32_bounds: "- (2 ^ 31) \<le> sint (x :: int32) \<and> sint x < 2 ^ 31"
  using sint_ge [of x] sint_lt [of x] by simp

lemma sint_int32_of_int:
  "- (2 ^ 31) \<le> i \<Longrightarrow> i < 2 ^ 31 \<Longrightarrow> sint (word_of_int i :: int32) = i"
  by (rule signed_take_bit_int_eq_self [THEN trans [OF sint_sbintrunc']]) auto

end
