(* ===== verification/Go_Strings.thy ===== *)
theory Go_Strings
  imports Meows_Prelude
begin

section \<open>The string functions of the Go standard library that the program uses\<close>

text \<open>
  A Go string is a sequence of bytes, a \<open>char list\<close>. Modelled here: \<open>strings.Split\<close> and
  \<open>strings.SplitN\<close> with a one-byte separator (the program uses no other), \<open>strings.Join\<close>,
  \<open>strings.HasPrefix\<close>, \<open>strings.TrimPrefix\<close>, \<open>strings.TrimRight\<close>,
  \<open>strconv.Atoi\<close> on a 64-bit \<open>int\<close> and the decimal printing of \<open>fmt\<close>'s \<open>%d\<close>.
\<close>

subsection \<open>strings\<close>

fun split_go :: "char \<Rightarrow> string \<Rightarrow> string list" where
  "split_go c [] = [[]]"
| "split_go c (x # xs) =
     (if x = c then [] # split_go c xs
      else case split_go c xs of [] \<Rightarrow> [[x]] | y # ys \<Rightarrow> (x # y) # ys)"

text \<open>\<open>strings.SplitN(s, sep, n)\<close> for positive \<open>n\<close>: at most \<open>n\<close> pieces, the last is the rest.\<close>

fun splitN_go :: "nat \<Rightarrow> char \<Rightarrow> string \<Rightarrow> string list" where
  "splitN_go 0 c s = []"
| "splitN_go (Suc 0) c s = [s]"
| "splitN_go (Suc (Suc n)) c s =
     (if c \<in> set s
      then takeWhile (\<lambda>x. x \<noteq> c) s # splitN_go (Suc n) c (tl (dropWhile (\<lambda>x. x \<noteq> c) s))
      else [s])"

fun join_go :: "string \<Rightarrow> string list \<Rightarrow> string" where
  "join_go sep [] = []"
| "join_go sep [s] = s"
| "join_go sep (s # ss) = s @ sep @ join_go sep ss"

definition hasPrefix :: "string \<Rightarrow> string \<Rightarrow> bool" where
  "hasPrefix s p \<longleftrightarrow> take (length p) s = p"

definition trimPrefix :: "string \<Rightarrow> string \<Rightarrow> string" where
  "trimPrefix s p = (if hasPrefix s p then drop (length p) s else s)"

definition trimRight :: "string \<Rightarrow> char \<Rightarrow> string" where
  "trimRight s c = rev (dropWhile (\<lambda>x. x = c) (rev s))"

lemma split_go_nonempty [simp]: "split_go c s \<noteq> []"
  by (cases s) (auto split: list.splits)

lemma join_split_go: "join_go [c] (split_go c s) = s"
proof (induction c s rule: split_go.induct)
  case (1 c)
  then show ?case by simp
next
  case (2 c x xs)
  obtain y ys where y: "split_go c xs = y # ys"
    by (cases "split_go c xs") auto
  then show ?case using 2 by (cases ys) auto
qed

lemma length_split_go: "length (split_go c s) = Suc (count_list s c)"
  by (induction c s rule: split_go.induct) (auto split: list.splits)

lemma split_go_no_sep: "p \<in> set (split_go c s) \<Longrightarrow> c \<notin> set p"
  by (induction c s arbitrary: p rule: split_go.induct) (auto split: list.splits if_splits)

lemma split_go_single: "c \<notin> set s \<Longrightarrow> split_go c s = [s]"
  by (induction s) auto

lemma split_go_append: "c \<notin> set a \<Longrightarrow> split_go c (a @ c # b) = a # split_go c b"
  by (induction a) auto

lemma split_go_pair: "c \<notin> set a \<Longrightarrow> c \<notin> set b \<Longrightarrow> split_go c (a @ c # b) = [a, b]"
  by (simp add: split_go_append split_go_single)

lemma split_go_pairD:
  assumes "split_go c s = [a, b]"
  shows "s = a @ c # b" and "c \<notin> set a" and "c \<notin> set b"
  using join_split_go [of c s] split_go_no_sep [of _ c s] assms by auto

lemma splitN_go_hd:
  "splitN_go (Suc n) c s \<noteq> [] \<and>
   (n \<noteq> 0 \<longrightarrow> hd (splitN_go (Suc n) c s) = takeWhile (\<lambda>x. x \<noteq> c) s)"
  by (cases n) (auto intro!: takeWhile_eq_all_conv [THEN iffD2, symmetric])

lemma hasPrefix_append [simp]: "hasPrefix (p @ s) p"
  by (simp add: hasPrefix_def)

lemma hasPrefix_iff: "hasPrefix s p \<longleftrightarrow> (\<exists>r. s = p @ r)"
  unfolding hasPrefix_def by (metis append_eq_conv_conj)

lemma trimPrefix_append [simp]: "trimPrefix (p @ s) p = s"
  by (simp add: trimPrefix_def)

lemma trimRight_append: "(\<forall>x\<in>set s. x \<noteq> c) \<Longrightarrow> trimRight (s @ replicate n c) c = s"
proof -
  assume a: "\<forall>x\<in>set s. x \<noteq> c"
  have "dropWhile (\<lambda>x. x = c) (replicate n c @ rev s) = rev s"
    using a by (induction n) (auto simp: dropWhile_eq_self_iff hd_rev)
  then show ?thesis by (simp add: trimRight_def)
qed

subsection \<open>strconv.Atoi and decimal printing\<close>

definition is_digit :: "char \<Rightarrow> bool" where
  "is_digit c \<longleftrightarrow> 48 \<le> (of_char c :: nat) \<and> (of_char c :: nat) \<le> 57"

definition digit_val :: "char \<Rightarrow> nat" where
  "digit_val c = of_char c - 48"

definition digit_chr :: "nat \<Rightarrow> char" where
  "digit_chr d = char_of (48 + d)"

fun digits_val :: "nat \<Rightarrow> string \<Rightarrow> nat" where
  "digits_val acc [] = acc"
| "digits_val acc (c # cs) = digits_val (10 * acc + digit_val c) cs"

definition int64_range :: "int \<Rightarrow> bool" where
  "int64_range i \<longleftrightarrow> - (2 ^ 63) \<le> i \<and> i < 2 ^ 63"

text \<open>
  An optional sign, then at least one digit and nothing else; a value outside the 64-bit range is
  an error too. The two error kinds of \<open>strconv\<close> are not distinguished: no caller looks.
\<close>

definition atoi :: "string \<Rightarrow> int option" where
  "atoi s =
     (let (neg, ds) = (case s of [] \<Rightarrow> (False, [])
                        | c # cs \<Rightarrow> if c = CHR ''-'' then (True, cs)
                                    else if c = CHR ''+'' then (False, cs) else (False, s))
      in if ds = [] \<or> \<not> list_all is_digit ds then None
         else let v = int (digits_val 0 ds); i = (if neg then - v else v)
              in if int64_range i then Some i else None)"

fun utoa :: "nat \<Rightarrow> string" where
  "utoa n = (if n < 10 then [digit_chr n] else utoa (n div 10) @ [digit_chr (n mod 10)])"

declare utoa.simps [simp del]

definition itoa :: "int \<Rightarrow> string" where
  "itoa i = (if i < 0 then CHR ''-'' # utoa (nat (- i)) else utoa (nat i))"

lemma digit_chr_props:
  assumes "d < 10"
  shows "is_digit (digit_chr d)" and "digit_val (digit_chr d) = d"
  using assms by (auto simp: is_digit_def digit_val_def digit_chr_def)

lemma digits_val_append: "digits_val a (s @ [c]) = 10 * digits_val a s + digit_val c"
  by (induction s arbitrary: a) auto

lemma utoa_spec: "utoa n \<noteq> [] \<and> list_all is_digit (utoa n) \<and> digits_val 0 (utoa n) = n"
proof (induction n rule: utoa.induct)
  case (1 n)
  show ?case
  proof (cases "n < 10")
    case True
    then show ?thesis by (subst (1 2 3) utoa.simps) (simp add: digit_chr_props)
  next
    case False
    with 1 have "digits_val 0 (utoa (n div 10)) = n div 10" "list_all is_digit (utoa (n div 10))"
      by auto
    with False show ?thesis
      by (simp add: utoa.simps [of n] digits_val_append digit_chr_props)
  qed
qed

lemma sign_not_digit: "\<not> is_digit (CHR ''-'')" "\<not> is_digit (CHR ''+'')" "\<not> is_digit (CHR ''/'')"
  by (simp_all add: is_digit_def)

lemma utoa_no_slash: "CHR ''/'' \<notin> set (utoa n)"
  using utoa_spec [of n] sign_not_digit by (auto simp: list_all_iff)

lemma atoi_digits:
  assumes "ds \<noteq> []" "list_all is_digit ds"
  shows "atoi ds = (if int64_range (int (digits_val 0 ds)) then Some (int (digits_val 0 ds)) else None)"
proof -
  obtain c cs where ds: "ds = c # cs" using assms(1) by (cases ds) auto
  with assms(2) have "c \<noteq> CHR ''-''" "c \<noteq> CHR ''+''" using sign_not_digit by auto
  with assms ds show ?thesis by (simp add: atoi_def)
qed

lemma atoi_utoa: "int n < 2 ^ 63 \<Longrightarrow> atoi (utoa n) = Some (int n)"
  using utoa_spec [of n] by (simp add: atoi_digits int64_range_def)

lemma atoi_range: "atoi s = Some i \<Longrightarrow> int64_range i"
  by (auto simp: atoi_def Let_def split: if_splits prod.splits)

lemma atoi_itoa: "int64_range i \<Longrightarrow> atoi (itoa i) = Some i"
proof (cases "i < 0")
  case True
  assume r: "int64_range i"
  have "utoa (nat (- i)) \<noteq> []" "list_all is_digit (utoa (nat (- i)))"
    "digits_val 0 (utoa (nat (- i))) = nat (- i)"
    using utoa_spec [of "nat (- i)"] by auto
  with True r show ?thesis by (simp add: itoa_def atoi_def)
next
  case False
  assume "int64_range i"
  with False show ?thesis by (simp add: itoa_def atoi_utoa int64_range_def)
qed

end
