(* ===== verification/Go_Time.thy ===== *)
theory Go_Time
  imports Go_Strings
begin

section \<open>Instants, durations and their text forms\<close>

text \<open>
  An instant (\<open>time.Time\<close>) is the number of nanoseconds since Go's zero time,
  0001-01-01T00:00:00Z; a duration (\<open>time.Duration\<close>) is a number of nanoseconds. Both are
  integers; \<open>After\<close> and \<open>Before\<close> are the strict orders. Locations are not modelled: every
  comparison and every sum of the program depends on the instant only, and the text form of an
  instant is the one in UTC.

  Modelled from the standard library: \<open>time.ParseDuration\<close> (with one idealisation: the
  fractional part is scaled exactly, where Go multiplies in \<open>float64\<close>), and the layout
  \<open>time.RFC3339\<close> for \<open>Format\<close> and \<open>Parse\<close> (the strict grammar of RFC 3339; the more
  lenient fallback of \<open>time.Parse\<close>, which also takes one-digit hours, is left out).
\<close>

type_synonym time = int
type_synonym duration = int

definition Nanosecond :: duration where "Nanosecond = 1"
definition Second :: duration where "Second = 10 ^ 9"
definition Minute :: duration where "Minute = 60 * 10 ^ 9"
definition Hour :: duration where "Hour = 3600 * 10 ^ 9"

lemmas duration_defs = Nanosecond_def Second_def Minute_def Hour_def

abbreviation (input) zero_time :: time where "zero_time \<equiv> 0"

definition time_after :: "time \<Rightarrow> time \<Rightarrow> bool" where "time_after t u \<longleftrightarrow> u < t"
definition time_before :: "time \<Rightarrow> time \<Rightarrow> bool" where "time_before t u \<longleftrightarrow> t < u"

lemmas time_order_defs = time_after_def time_before_def

subsection \<open>time.ParseDuration\<close>

definition unitMap :: "string \<Rightarrow> nat option" where
  "unitMap u =
     map_of [(''ns'', 1), (''us'', 10 ^ 3), ([CHR 0xC2, CHR 0xB5, CHR ''s''], 10 ^ 3),
             ([CHR 0xCE, CHR 0xBC, CHR ''s''], 10 ^ 3), (''ms'', 10 ^ 6), (''s'', 10 ^ 9),
             (''m'', 60 * 10 ^ 9), (''h'', 3600 * 10 ^ 9)] u"

text \<open>The value of the leading digits and the rest; an overflow of \<open>1 << 63\<close> is an error.\<close>

definition leadingInt :: "string \<Rightarrow> (nat \<times> string) option" where
  "leadingInt s =
     (let v = digits_val 0 (takeWhile is_digit s)
      in if v > 2 ^ 63 then None else Some (v, dropWhile is_digit s))"

text \<open>Digits after the point: value, scale and rest; digits past an overflow are ignored.\<close>

fun leadingFraction :: "bool \<Rightarrow> nat \<Rightarrow> nat \<Rightarrow> string \<Rightarrow> nat \<times> nat \<times> string" where
  "leadingFraction ovf x scale [] = (x, scale, [])"
| "leadingFraction ovf x scale (c # cs) =
     (if \<not> is_digit c then (x, scale, c # cs)
      else if ovf \<or> x > (2 ^ 63 - 1) div 10 \<or> 10 * x + digit_val c > 2 ^ 63
      then leadingFraction True x scale cs
      else leadingFraction False (10 * x + digit_val c) (10 * scale) cs)"

definition unit_char :: "char \<Rightarrow> bool" where
  "unit_char c \<longleftrightarrow> \<not> (c = CHR ''.'' \<or> is_digit c)"

text \<open>One round of the loop of \<open>ParseDuration\<close>: a number with its unit, in nanoseconds.\<close>

definition parseDuration_item :: "string \<Rightarrow> (nat \<times> string) option" where
  "parseDuration_item s =
     (if s = [] \<or> unit_char (hd s) then None
      else case leadingInt s of None \<Rightarrow> None
      | Some (v, s1) \<Rightarrow>
          let pre = length s1 \<noteq> length s;
              (f, scale, s2, post) =
                (if s1 \<noteq> [] \<and> hd s1 = CHR ''.''
                 then let (f, scale, r) = leadingFraction False 0 1 (tl s1)
                      in (f, scale, r, length r \<noteq> length (tl s1))
                 else (0, 1, s1, False));
              u = takeWhile unit_char s2;
              s3 = dropWhile unit_char s2
          in if \<not> pre \<and> \<not> post then None
             else if u = [] then None
             else case unitMap u of None \<Rightarrow> None
             | Some unit \<Rightarrow>
                 if v > 2 ^ 63 div unit then None
                 else let v' = v * unit + (if f > 0 then f * unit div scale else 0)
                      in if v' > 2 ^ 63 then None else Some (v', s3))"

lemma leadingFraction_length: "leadingFraction ov x sc s = (f, sc', r) \<Longrightarrow> length r \<le> length s"
  by (induction ov x sc s rule: leadingFraction.induct) (auto split: if_splits)

lemma leadingInt_length: "leadingInt s = Some (v, r) \<Longrightarrow> length r \<le> length s"
  by (auto simp: leadingInt_def Let_def length_dropWhile_le split: if_splits)

lemma dropWhile_shorter: "takeWhile P s \<noteq> [] \<Longrightarrow> length (dropWhile P s) < length s"
  by (cases s) (auto simp: length_dropWhile_le le_imp_less_Suc split: if_splits)

lemma parseDuration_item_length:
  assumes "parseDuration_item s = Some (v, r)"
  shows "length r < length s"
proof -
  from assms obtain v1 s1 where li: "leadingInt s = Some (v1, s1)"
    by (auto simp: parseDuration_item_def split: if_splits option.splits)
  define rest where "rest = (if s1 \<noteq> [] \<and> hd s1 = CHR ''.''
    then snd (snd (leadingFraction False 0 1 (tl s1))) else s1)"
  have "length rest \<le> length s1"
  proof (cases "s1 \<noteq> [] \<and> hd s1 = CHR ''.''")
    case True
    obtain f sc r' where f: "leadingFraction False 0 1 (tl s1) = (f, sc, r')"
      by (metis prod_cases3)
    with leadingFraction_length [OF f] True show ?thesis by (simp add: rest_def)
  qed (auto simp: rest_def)
  moreover from assms li have "takeWhile unit_char rest \<noteq> [] \<and> r = dropWhile unit_char rest"
    by (auto simp: parseDuration_item_def rest_def Let_def split: if_splits option.splits prod.splits)
  ultimately show ?thesis
    using dropWhile_shorter [of unit_char rest] leadingInt_length [OF li] by simp
qed

function parseDuration_loop :: "nat \<Rightarrow> string \<Rightarrow> nat option" where
  "parseDuration_loop d s =
     (if s = [] then Some d
      else case parseDuration_item s of None \<Rightarrow> None
      | Some (v, r) \<Rightarrow>
          let d' = (d + v) mod 2 ^ 64 in if d' > 2 ^ 63 then None else parseDuration_loop d' r)"
  by pat_completeness auto
termination
  by (relation "measure (\<lambda>(d, s). length s)") (auto dest: parseDuration_item_length)

declare parseDuration_loop.simps [simp del]

definition parseDuration :: "string \<Rightarrow> duration option" where
  "parseDuration s0 =
     (let (neg, s) = (case s0 of [] \<Rightarrow> (False, [])
                       | c # cs \<Rightarrow> if c = CHR ''-'' then (True, cs)
                                   else if c = CHR ''+'' then (False, cs) else (False, s0))
      in if s = ''0'' then Some 0
         else if s = [] then None
         else case parseDuration_loop 0 s of None \<Rightarrow> None
         | Some d \<Rightarrow> if neg then Some (- int d)
                     else if d > 2 ^ 63 - 1 then None else Some (int d))"

text \<open>The value of \<open>d, _ := time.ParseDuration(s)\<close>, where the error is dropped: 0 on an error.\<close>

definition parseDuration_or_zero :: "string \<Rightarrow> duration" where
  "parseDuration_or_zero s = (case parseDuration s of None \<Rightarrow> 0 | Some d \<Rightarrow> d)"

lemma parseDuration_loop_bound:
  "parseDuration_loop d s = Some r \<Longrightarrow> d \<le> 2 ^ 63 \<Longrightarrow> r \<le> 2 ^ 63"
proof (induction d s rule: parseDuration_loop.induct)
  case (1 d s)
  show ?case
  proof (cases "s = []")
    case True
    with 1 show ?thesis by (simp add: parseDuration_loop.simps [of d "[]"])
  next
    case False
    with "1.prems" obtain v r' where item: "parseDuration_item s = Some (v, r')"
      and le: "\<not> (d + v) mod 2 ^ 64 > 2 ^ 63"
      and rec: "parseDuration_loop ((d + v) mod 2 ^ 64) r' = Some r"
      by (auto simp: parseDuration_loop.simps [of d s] Let_def split: option.splits if_splits)
    show ?thesis using "1.IH" [OF False item refl refl le rec] le by simp
  qed
qed

lemma parseDuration_int64: "parseDuration s = Some d \<Longrightarrow> int64_range d"
proof -
  assume a: "parseDuration s = Some d"
  have "\<And>r t. parseDuration_loop 0 t = Some r \<Longrightarrow> r \<le> 2 ^ 63"
    by (rule parseDuration_loop_bound) auto
  with a show ?thesis
    by (fastforce simp: parseDuration_def int64_range_def Let_def
        split: if_splits option.splits prod.splits list.splits)
qed

subsection \<open>The calendar\<close>

text \<open>
  Days are counted from 0001-01-01 (day 0). \<open>year_of_day\<close> peels off cycles of 400, 100, 4 and 1
  years, as \<open>time.Time.abs\<close> does; \<open>days_before_year\<close> is the number of days before a year.
\<close>

definition is_leap :: "nat \<Rightarrow> bool" where
  "is_leap y \<longleftrightarrow> y mod 4 = 0 \<and> (y mod 100 \<noteq> 0 \<or> y mod 400 = 0)"

definition days_before_year :: "nat \<Rightarrow> nat" where
  "days_before_year y = (let p = y - 1 in 365 * p + p div 4 + p div 400 - p div 100)"

definition year_of_day :: "nat \<Rightarrow> nat \<times> nat" where
  "year_of_day n =
     (let a = n div 146097; n1 = n mod 146097;
          b = min 3 (n1 div 36524); n2 = n1 - b * 36524;
          c = n2 div 1461; n3 = n2 mod 1461;
          e = min 3 (n3 div 365)
      in (400 * a + 100 * b + 4 * c + e + 1, n3 - e * 365))"

definition month_lengths :: "nat \<Rightarrow> nat list" where
  "month_lengths y = [31, if is_leap y then 29 else 28, 31, 30, 31, 30, 31, 31, 30, 31, 30, 31]"

text \<open>The month (from 1) and the day (from 1) of a day of the year.\<close>

fun month_of_yday :: "nat \<Rightarrow> nat list \<Rightarrow> nat \<Rightarrow> nat \<times> nat" where
  "month_of_yday m [] d = (m, d + 1)"
| "month_of_yday m (l # ls) d = (if d < l then (m, d + 1) else month_of_yday (m + 1) ls (d - l))"

definition date_of_day :: "nat \<Rightarrow> nat \<times> nat \<times> nat" where
  "date_of_day n = (let (y, yd) = year_of_day n; (m, d) = month_of_yday 1 (month_lengths y) yd
                    in (y, m, d))"

definition day_of_date :: "nat \<Rightarrow> nat \<Rightarrow> nat \<Rightarrow> nat" where
  "day_of_date y m d = days_before_year y + sum_list (take (m - 1) (month_lengths y)) + (d - 1)"

lemma days_before_year_cycles:
  assumes "b \<le> 3" "c \<le> 24" "e \<le> 3"
  shows "days_before_year (400 * a + 100 * b + 4 * c + e + 1) = 146097 * a + 36524 * b + 1461 * c + 365 * e"
proof -
  have "(400 * a + 100 * b + 4 * c + e) div 4 = 100 * a + 25 * b + c"
    by (rule div_nat_eqI) (use assms in auto)
  moreover have "(400 * a + 100 * b + 4 * c + e) div 100 = 4 * a + b"
    by (rule div_nat_eqI) (use assms in auto)
  moreover have "(400 * a + 100 * b + 4 * c + e) div 400 = a"
    by (rule div_nat_eqI) (use assms in auto)
  ultimately show ?thesis by (simp add: days_before_year_def)
qed

lemma is_leap_cycles:
  assumes "b \<le> 3" "c \<le> 24" "e \<le> 3"
  shows "is_leap (400 * a + 100 * b + 4 * c + e + 1) \<longleftrightarrow> e = 3 \<and> (c \<noteq> 24 \<or> b = 3)"
proof -
  let ?y = "400 * a + 100 * b + 4 * c + e + 1"
  have "?y = (e + 1) + 4 * (100 * a + 25 * b + c)" by simp
  then have "?y mod 4 = (e + 1) mod 4" by (metis mod_mult_self2)
  moreover have "?y = (4 * c + e + 1) + 100 * (4 * a + b)" by simp
  then have "?y mod 100 = (4 * c + e + 1) mod 100" by (metis mod_mult_self2)
  moreover have "?y = (100 * b + 4 * c + e + 1) + 400 * a" by simp
  then have "?y mod 400 = (100 * b + 4 * c + e + 1) mod 400" by (metis mod_mult_self2)
  moreover have "(e + 1) mod 4 = 0 \<longleftrightarrow> e = 3"
    using assms(3) by (cases "e = 3") auto
  moreover have "(4 * c + 4) mod 100 = 0 \<longleftrightarrow> c = 24"
    using assms(2) by (cases "c = 24") auto
  moreover have "(100 * b + 100) mod 400 = 0 \<longleftrightarrow> b = 3"
    using assms(1) by (cases "b = 3") auto
  ultimately show ?thesis
    unfolding is_leap_def by (cases "e = 3"; cases "c = 24") (simp_all add: add.commute)
qed

text \<open>A capped quotient leaves a remainder below the divisor, plus what the cap cut off.\<close>

lemma capped_div:
  fixes m q :: nat
  assumes "m < 4 * q + k" "0 < q"
  shows "m = min 3 (m div q) * q + (m - min 3 (m div q) * q)"
    and "m - min 3 (m div q) * q < q + (if min 3 (m div q) = 3 then k else 0)"
proof -
  have le: "min 3 (m div q) * q \<le> m"
    by (rule le_trans [OF mult_le_mono1 [of _ "m div q"]]) auto
  then show "m = min 3 (m div q) * q + (m - min 3 (m div q) * q)" by simp
  show "m - min 3 (m div q) * q < q + (if min 3 (m div q) = 3 then k else 0)"
  proof (cases "m div q \<le> 2")
    case True
    then have "m - min 3 (m div q) * q = m mod q" by (simp add: minus_div_mult_eq_mod)
    with assms(2) True show ?thesis by simp
  next
    case False
    then have "min 3 (m div q) = 3" by simp
    with assms(1) le show ?thesis by simp
  qed
qed

text \<open>The cycle counters of \<open>year_of_day\<close> and what they leave.\<close>

lemma year_of_day_cycles:
  obtains a b c e yd where "b \<le> 3" "c \<le> 24" "e \<le> 3"
    "year_of_day n = (400 * a + 100 * b + 4 * c + e + 1, yd)"
    "n = 146097 * a + 36524 * b + 1461 * c + 365 * e + yd"
    "yd < 365 + (if e = 3 \<and> (c \<noteq> 24 \<or> b = 3) then 1 else 0)"
proof -
  define a where "a = n div 146097"
  define n1 where "n1 = n mod 146097"
  define b where "b = min 3 (n1 div 36524)"
  define n2 where "n2 = n1 - b * 36524"
  define c where "c = n2 div 1461"
  define n3 where "n3 = n2 mod 1461"
  define e where "e = min 3 (n3 div 365)"
  have n: "n = 146097 * a + n1" "n1 < 146097" by (simp_all add: a_def n1_def)
  have b: "b \<le> 3" "n1 = b * 36524 + n2" "n2 < 36524 + (if b = 3 then 1 else 0)"
    using capped_div [of n1 36524 1] n(2) unfolding b_def n2_def by auto
  have c: "n2 = c * 1461 + n3" "n3 < 1461" by (simp_all add: c_def n3_def)
  have c24: "c \<le> 24" using b(3) c by (auto split: if_splits)
  have e: "e \<le> 3" "n3 = e * 365 + (n3 - e * 365)" "n3 - e * 365 < 365 + (if e = 3 then 1 else 0)"
    using capped_div [of n3 365 1] c(2) unfolding e_def by auto
  show ?thesis
  proof (rule that [of b c e a "n3 - e * 365"])
    show "year_of_day n = (400 * a + 100 * b + 4 * c + e + 1, n3 - e * 365)"
      by (simp add: year_of_day_def Let_def a_def n1_def b_def n2_def c_def n3_def e_def)
    show "n = 146097 * a + 36524 * b + 1461 * c + 365 * e + (n3 - e * 365)"
      using n b c e by simp
    show "n3 - e * 365 < 365 + (if e = 3 \<and> (c \<noteq> 24 \<or> b = 3) then 1 else 0)"
      using b(3) c c24 e by (auto split: if_splits)
  qed (use b c24 e in auto)
qed

lemma sum_month_lengths: "sum_list (month_lengths y) = 365 + (if is_leap y then 1 else 0)"
  by (simp add: month_lengths_def)

lemma month_of_yday_spec:
  assumes "month_of_yday m ls d = (m', d')" "d < sum_list ls"
  shows "m \<le> m' \<and> m' < m + length ls \<and> 1 \<le> d' \<and> d' \<le> ls ! (m' - m)
    \<and> sum_list (take (m' - m) ls) + (d' - 1) = d"
  using assms
proof (induction m ls d rule: month_of_yday.induct)
  case (1 m d)
  then show ?case by simp
next
  case (2 m l ls d)
  show ?case
  proof (cases "d < l")
    case True
    with "2.prems" show ?thesis by auto
  next
    case False
    with "2.prems" have "month_of_yday (m + 1) ls (d - l) = (m', d')" "d - l < sum_list ls"
      by auto
    then have IH: "m + 1 \<le> m' \<and> m' < m + 1 + length ls \<and> 1 \<le> d' \<and> d' \<le> ls ! (m' - (m + 1))
        \<and> sum_list (take (m' - (m + 1)) ls) + (d' - 1) = d - l"
      by (rule "2.IH" [OF False])
    then obtain k where k: "m' = Suc (m + k)" by (auto dest: le_Suc_ex)
    with IH False show ?thesis by auto
  qed
qed

lemma date_of_day_spec:
  assumes "date_of_day n = (y, m, d)"
  shows "day_of_date y m d = n" and "1 \<le> m" and "m \<le> 12" and "1 \<le> d"
    and "d \<le> month_lengths y ! (m - 1)" and "1 \<le> y" and "days_before_year y \<le> n"
proof -
  obtain a b c e yd where c: "b \<le> 3" "c \<le> 24" "e \<le> 3"
    and yr: "year_of_day n = (400 * a + 100 * b + 4 * c + e + 1, yd)"
    and n: "n = 146097 * a + 36524 * b + 1461 * c + 365 * e + yd"
    and yd: "yd < 365 + (if e = 3 \<and> (c \<noteq> 24 \<or> b = 3) then 1 else 0)"
    by (rule year_of_day_cycles)
  let ?y = "400 * a + 100 * b + 4 * c + e + 1"
  from assms yr have y: "y = ?y" and md: "month_of_yday 1 (month_lengths y) yd = (m, d)"
    by (auto simp: date_of_day_def split: prod.splits)
  have "yd < sum_list (month_lengths y)"
    using yd unfolding y sum_month_lengths is_leap_cycles [OF c] .
  note sp = month_of_yday_spec [OF md this]
  have dby: "days_before_year y = 146097 * a + 36524 * b + 1461 * c + 365 * e"
    unfolding y by (rule days_before_year_cycles [OF c])
  from sp dby n show "day_of_date y m d = n" unfolding day_of_date_def by linarith
  from sp show "1 \<le> m" "m \<le> 12" "1 \<le> d" "d \<le> month_lengths y ! (m - 1)"
    by (auto simp: month_lengths_def)
  from y show "1 \<le> y" by simp
  from dby n show "days_before_year y \<le> n" by simp
qed

lemma month_length_le: "1 \<le> m \<Longrightarrow> m \<le> 12 \<Longrightarrow> month_lengths y ! (m - 1) \<le> 31"
proof -
  assume "1 \<le> m" "m \<le> 12"
  then have "month_lengths y ! (m - 1) \<in> set (month_lengths y)"
    by (intro nth_mem) (auto simp: month_lengths_def)
  then show ?thesis by (auto simp: month_lengths_def)
qed

subsection \<open>RFC 3339\<close>

definition pad2 :: "nat \<Rightarrow> string" where
  "pad2 n = [digit_chr (n div 10), digit_chr (n mod 10)]"

definition pad4 :: "nat \<Rightarrow> string" where
  "pad4 n = (if n < 10000
     then [digit_chr (n div 1000), digit_chr (n div 100 mod 10), digit_chr (n div 10 mod 10),
           digit_chr (n mod 10)]
     else utoa n)"

text \<open>Date and time of day, in whole seconds.\<close>

definition rfc3339_seconds :: "time \<Rightarrow> string" where
  "rfc3339_seconds t =
     (let s = nat (t div Second); sod = s mod 86400; (y, m, d) = date_of_day (s div 86400)
      in pad4 y @ ''-'' @ pad2 m @ ''-'' @ pad2 d @ ''T'' @ pad2 (sod div 3600) @ '':'' @
         pad2 (sod div 60 mod 60) @ '':'' @ pad2 (sod mod 60))"

text \<open>\<open>t.Format(time.RFC3339)\<close>: the fraction of the second is cut off.\<close>

definition formatRFC3339 :: "time \<Rightarrow> string" where
  "formatRFC3339 t = rfc3339_seconds t @ ''Z''"

text \<open>
  \<open>time.RFC3339Nano\<close>, the layout of \<open>Time.MarshalJSON\<close>: the nanoseconds without trailing
  zeros, and nothing at all for a whole second.
\<close>

fun padn :: "nat \<Rightarrow> nat \<Rightarrow> string" where
  "padn 0 n = []"
| "padn (Suc k) n = padn k (n div 10) @ [digit_chr (n mod 10)]"

definition nano_suffix :: "nat \<Rightarrow> string" where
  "nano_suffix ns = (if ns = 0 then [] else CHR ''.'' # trimRight (padn 9 ns) (CHR ''0''))"

definition formatRFC3339Nano :: "time \<Rightarrow> string" where
  "formatRFC3339Nano t = rfc3339_seconds t @ nano_suffix (nat (t mod Second)) @ ''Z''"

text \<open>The number in the given positions, if they are digits and the number is in range.\<close>

definition parseUint_at :: "string \<Rightarrow> nat \<Rightarrow> nat \<Rightarrow> nat \<Rightarrow> nat \<Rightarrow> nat option" where
  "parseUint_at s i l lo hi =
     (let ds = take l (drop i s); v = digits_val 0 ds
      in if list_all is_digit ds \<and> length ds = l \<and> lo \<le> v \<and> v \<le> hi then Some v else None)"

text \<open>The fraction of a second in nanoseconds (nine digits count) and the rest of the text.\<close>

definition parse_fraction :: "string \<Rightarrow> nat \<times> string" where
  "parse_fraction s =
     (if length s \<ge> 2 \<and> s ! 0 = CHR ''.'' \<and> is_digit (s ! 1)
      then let ds = take 9 (takeWhile is_digit (tl s))
           in (digits_val 0 ds * 10 ^ (9 - length ds), dropWhile is_digit (tl s))
      else (0, s))"

text \<open>The offset of the zone in seconds.\<close>

definition parse_zone :: "string \<Rightarrow> int option" where
  "parse_zone s =
     (if s = ''Z'' then Some 0
      else if length s = 6 \<and> (s ! 0 = CHR ''-'' \<or> s ! 0 = CHR ''+'') \<and> s ! 3 = CHR '':''
      then case (parseUint_at s 1 2 0 23, parseUint_at s 4 2 0 59) of
             (Some h, Some m) \<Rightarrow>
               let off = int ((h * 60 + m) * 60) in Some (if s ! 0 = CHR ''-'' then - off else off)
           | _ \<Rightarrow> None
      else None)"

definition parseRFC3339 :: "string \<Rightarrow> time option" where
  "parseRFC3339 s =
     (if length s < 20 \<or> s ! 4 \<noteq> CHR ''-'' \<or> s ! 7 \<noteq> CHR ''-'' \<or> s ! 10 \<noteq> CHR ''T''
         \<or> s ! 13 \<noteq> CHR '':'' \<or> s ! 16 \<noteq> CHR '':'' then None
      else case (parseUint_at s 0 4 0 9999, parseUint_at s 5 2 1 12) of
        (Some y, Some m) \<Rightarrow>
          (case (parseUint_at s 8 2 1 (month_lengths y ! (m - 1)), parseUint_at s 11 2 0 23,
                 parseUint_at s 14 2 0 59, parseUint_at s 17 2 0 59) of
             (Some d, Some hh, Some mm, Some ss) \<Rightarrow>
               (let (ns, z) = parse_fraction (drop 19 s);
                    days = int (day_of_date y m d) - (if y = 0 then 366 else 0)
                in case parse_zone z of None \<Rightarrow> None
                   | Some off \<Rightarrow>
                       Some ((days * 86400 + int (hh * 3600 + mm * 60 + ss) - off) * Second + int ns))
           | _ \<Rightarrow> None)
      | _ \<Rightarrow> None)"

text \<open>Times the layout can print with four digits of the year: years 1 to 9999.\<close>

definition rfc3339_range :: "time \<Rightarrow> bool" where
  "rfc3339_range t \<longleftrightarrow> 0 \<le> t \<and> t < int (days_before_year 10000) * 86400 * Second"

lemma rfc3339_rangeI: "0 \<le> t \<Longrightarrow> t < 315537811200 * Second \<Longrightarrow> rfc3339_range t"
  by (simp add: rfc3339_range_def days_before_year_def)

lemma pad2_val: "n < 100 \<Longrightarrow> list_all is_digit (pad2 n) \<and> digits_val 0 (pad2 n) = n \<and> length (pad2 n) = 2"
  by (simp add: pad2_def digit_chr_props)

lemma pad4_val:
  "n < 10000 \<Longrightarrow> list_all is_digit (pad4 n) \<and> digits_val 0 (pad4 n) = n \<and> length (pad4 n) = 4"
proof -
  assume n: "n < 10000"
  have "n div 1000 < 10" using n by simp
  moreover have "10 * (10 * (10 * (n div 1000) + n div 100 mod 10) + n div 10 mod 10) + n mod 10 = n"
  proof -
    have "10 * (n div 1000) + n div 100 mod 10 = n div 100"
      using div_mult2_eq [of n 100 10] by simp
    moreover have "10 * (n div 100) + n div 10 mod 10 = n div 10"
      using div_mult2_eq [of n 10 10] by simp
    ultimately show ?thesis by simp
  qed
  ultimately show ?thesis using n by (simp add: pad4_def digit_chr_props)
qed

lemma parseUint_at_pad2:
  "take 2 (drop i s) = pad2 n \<Longrightarrow> n < 100 \<Longrightarrow> lo \<le> n \<Longrightarrow> n \<le> hi \<Longrightarrow> parseUint_at s i 2 lo hi = Some n"
  using pad2_val [of n] by (simp add: parseUint_at_def)

lemma days_before_year_mono: "x \<le> y \<Longrightarrow> days_before_year x \<le> days_before_year y"
proof (induction y rule: dec_induct)
  case (step n)
  have "Suc q div 100 \<le> Suc (q div 100)" "q div 4 \<le> Suc q div 4" "q div 400 \<le> Suc q div 400"
    "q div 100 \<le> q" for q :: nat
    using div_le_mono [of q "Suc q"] by (auto simp: div_Suc)
  then have "days_before_year n \<le> days_before_year (Suc n)"
    unfolding days_before_year_def Let_def by (cases n) (force simp: le_diff_conv)+
  with step show ?case by linarith
qed simp

lemma year_below:
  assumes r: "rfc3339_range t" and dt: "date_of_day (nat (t div Second) div 86400) = (y, m, d)"
  shows "y < 10000"
proof (rule ccontr)
  assume "\<not> y < 10000"
  then have "days_before_year 10000 \<le> nat (t div Second) div 86400"
    using days_before_year_mono [of 10000 y] date_of_day_spec(7) [OF dt] by linarith
  then have "days_before_year 10000 * 86400 \<le> nat (t div Second)"
    by (simp add: less_eq_div_iff_mult_less_eq)
  moreover from r have "0 \<le> t div Second"
    by (simp add: rfc3339_range_def Second_def pos_imp_zdiv_nonneg_iff)
  ultimately have "int (days_before_year 10000) * 86400 \<le> t div Second" by linarith
  then have "int (days_before_year 10000) * 86400 * Second \<le> t"
    by (simp add: Second_def less_eq_div_iff_mult_less_eq)
  with r show False by (simp add: rfc3339_range_def)
qed

text \<open>The date and the time of day are read back, whatever fraction and zone follow.\<close>

lemma parse_rfc3339_seconds:
  assumes "rfc3339_range t" "z \<noteq> []"
  shows "parseRFC3339 (rfc3339_seconds t @ z) =
    (let (ns, zone) = parse_fraction z
     in map_option (\<lambda>off. (t div Second - off) * Second + int ns) (parse_zone zone))"
proof -
  define s where "s = nat (t div Second)"
  obtain y m d where dt: "date_of_day (s div 86400) = (y, m, d)" by (metis prod_cases3)
  define hh where "hh = s mod 86400 div 3600"
  define mm where "mm = s mod 86400 div 60 mod 60"
  define ss where "ss = s mod 86400 mod 60"
  note sp = date_of_day_spec [OF dt]
  have y: "y < 10000" using year_below [OF assms(1)] dt by (simp add: s_def)
  have dle: "d \<le> 31" using sp(5) month_length_le [OF sp(2,3), of y] by simp
  have lt: "hh < 24" "mm < 60" "ss < 60"
    by (simp_all add: hh_def mm_def ss_def div_less_iff_less_mult)
  define out where "out = rfc3339_seconds t @ z"
  have out: "out = pad4 y @ ''-'' @ pad2 m @ ''-'' @ pad2 d @ ''T'' @ pad2 hh @ '':'' @ pad2 mm @ '':'' @
      pad2 ss @ z"
    by (simp add: out_def rfc3339_seconds_def Let_def dt hh_def mm_def ss_def flip: s_def)
  have py: "parseUint_at out 0 4 0 9999 = Some y"
    using pad4_val [OF y] y by (simp add: parseUint_at_def out)
  have len4: "length (pad4 y) = 4" using pad4_val [OF y] by simp
  have fields: "parseUint_at out 5 2 1 12 = Some m"
    "parseUint_at out 8 2 1 (month_lengths y ! (m - 1)) = Some d"
    "parseUint_at out 11 2 0 23 = Some hh" "parseUint_at out 14 2 0 59 = Some mm"
    "parseUint_at out 17 2 0 59 = Some ss"
    using len4 sp dle lt by (auto intro!: parseUint_at_pad2 simp: out pad2_def)
  have marks: "\<not> length out < 20" "out ! 4 = CHR ''-''" "out ! 7 = CHR ''-''" "out ! 10 = CHR ''T''"
    "out ! 13 = CHR '':''" "out ! 16 = CHR '':''" "drop 19 out = z"
    using len4 assms(2) by (auto simp: out pad2_def nth_append less_Suc_eq_le Suc_le_eq)
  have "hh * 60 + mm = s mod 86400 div 60"
    using div_mult_mod_eq [of "s mod 86400 div 60" 60]
    by (simp add: hh_def mm_def flip: div_mult2_eq)
  then have "hh * 3600 + mm * 60 + ss = s mod 86400"
    unfolding ss_def using div_mult_mod_eq [of "s mod 86400" 60] by linarith
  then have "int (s div 86400 * 86400 + (hh * 3600 + mm * 60 + ss)) = int s" by simp
  moreover have "int s = t div Second"
    using assms by (simp add: s_def rfc3339_range_def Second_def pos_imp_zdiv_nonneg_iff)
  ultimately have sum: "int (s div 86400) * 86400 + int (hh * 3600 + mm * 60 + ss) = t div Second"
    by simp
  show ?thesis
    using sp(6) marks sum unfolding out_def [symmetric]
    by (auto simp: parseRFC3339_def py fields sp(1) Let_def simp del: One_nat_def of_nat_add
        split: prod.splits option.splits)
qed

text \<open>What is printed is read back, up to the fraction of a second that printing cuts off.\<close>

lemma parse_formatRFC3339:
  "rfc3339_range t \<Longrightarrow> parseRFC3339 (formatRFC3339 t) = Some (t - t mod Second)"
  by (simp add: formatRFC3339_def parse_rfc3339_seconds parse_fraction_def parse_zone_def
      minus_mod_eq_div_mult)

lemma padn_spec: "n < 10 ^ k \<Longrightarrow> list_all is_digit (padn k n) \<and> digits_val 0 (padn k n) = n \<and> length (padn k n) = k"
proof (induction k arbitrary: n)
  case (Suc k)
  then have "n div 10 < 10 ^ k" by (simp add: div_less_iff_less_mult mult.commute)
  with Suc.IH [of "n div 10"] show ?case by (simp add: digits_val_append digit_chr_props)
qed simp

lemma digits_val_zeros: "digits_val a (s @ replicate k (CHR ''0'')) = digits_val a s * 10 ^ k"
proof (induction k)
  case (Suc k)
  have "digits_val a (s @ replicate (Suc k) (CHR ''0'')) = 10 * digits_val a (s @ replicate k (CHR ''0''))"
    using digits_val_append [of a "s @ replicate k (CHR ''0'')" "CHR ''0''"]
    by (simp add: digit_val_def replicate_append_same)
  with Suc show ?case by simp
qed simp

lemma trimRight_replicate: "\<exists>k. s = trimRight s c @ replicate k c"
proof -
  have "rev s = takeWhile (\<lambda>x. x = c) (rev s) @ dropWhile (\<lambda>x. x = c) (rev s)" by simp
  moreover have "takeWhile (\<lambda>x. x = c) (rev s) = replicate (length (takeWhile (\<lambda>x. x = c) (rev s))) c"
    by (metis (full_types) replicate_length_same set_takeWhileD)
  ultimately have "s = trimRight s c @ rev (replicate (length (takeWhile (\<lambda>x. x = c) (rev s))) c)"
    unfolding trimRight_def by (metis rev_append rev_rev_ident)
  then show ?thesis by auto
qed

lemma parse_nano_suffix:
  assumes "ns < 10 ^ 9"
  shows "parse_fraction (nano_suffix ns @ ''Z'') = (ns, ''Z'')"
proof (cases "ns = 0")
  case True
  then show ?thesis by (simp add: nano_suffix_def parse_fraction_def)
next
  case False
  define ds where "ds = trimRight (padn 9 ns) (CHR ''0'')"
  obtain k where k: "padn 9 ns = ds @ replicate k (CHR ''0'')"
    using trimRight_replicate ds_def by metis
  note pd = padn_spec [OF assms]
  from pd k have all: "list_all is_digit ds" and len: "length ds + k = 9"
    and val: "digits_val 0 ds * 10 ^ k = ns"
    by (auto simp flip: digits_val_zeros)
  have "ds \<noteq> []" using val False by auto
  then obtain c cs where ds: "ds = c # cs" by (cases ds) auto
  have tw: "takeWhile is_digit (ds @ ''Z'') = ds" "dropWhile is_digit (ds @ ''Z'') = ''Z''"
    using all by (auto simp: list_all_iff is_digit_def takeWhile_append2 dropWhile_append2)
  have "9 - length ds = k" "length ds \<le> 9" using len by auto
  with False all tw val show ?thesis
    by (simp add: nano_suffix_def parse_fraction_def Let_def flip: ds_def) (simp add: ds)
qed

lemma parse_formatRFC3339Nano: "rfc3339_range t \<Longrightarrow> parseRFC3339 (formatRFC3339Nano t) = Some t"
proof -
  assume r: "rfc3339_range t"
  have m: "0 \<le> t mod Second" "t mod Second < 10 ^ 9" by (simp_all add: Second_def)
  then have "nat (t mod Second) < 10 ^ 9" by (simp add: nat_less_iff)
  from parse_nano_suffix [OF this] m r show ?thesis
    by (simp add: formatRFC3339Nano_def parse_rfc3339_seconds parse_zone_def)
qed

end
