(* ===== verification/Go_Json.thy ===== *)
theory Go_Json
  imports Go_Time
begin

section \<open>encoding/json\<close>

text \<open>
  JSON documents as trees, their compact text form as \<open>json.Marshal\<close> writes it, and the reader of
  \<open>json.Unmarshal\<close>. A number keeps its literal, as Go's decoder does until it meets the type of
  the field. Strings are bytes; the writer escapes the double quote, the backslash, control characters and the
  characters that HTML treats specially, the reader takes every escape of the grammar. Strings are taken to
  be valid UTF-8 (Go's writer replaces invalid bytes).
\<close>

datatype json =
    JNull
  | JBool bool
  | JNum string
  | JStr string
  | JArr "json list"
  | JObj "(string \<times> json) list"

subsection \<open>The writer\<close>

definition hex_chr :: "nat \<Rightarrow> char" where
  "hex_chr d = (if d < 10 then char_of (48 + d) else char_of (87 + d))"

definition escape_chr :: "char \<Rightarrow> string" where
  "escape_chr c =
     (let n = (of_char c :: nat)
      in if n = 34 then [CHR 92, CHR 34]
         else if n = 92 then [CHR 92, CHR 92]
         else if n = 8 then [CHR 92, CHR ''b'']
         else if n = 12 then [CHR 92, CHR ''f'']
         else if n = 10 then [CHR 92, CHR ''n'']
         else if n = 13 then [CHR 92, CHR ''r'']
         else if n = 9 then [CHR 92, CHR ''t'']
         else if n < 32 \<or> n = 60 \<or> n = 62 \<or> n = 38
         then [CHR 92, CHR ''u'', CHR ''0'', CHR ''0'', hex_chr (n div 16), hex_chr (n mod 16)]
         else [c])"

definition print_str :: "string \<Rightarrow> string" where
  "print_str s = CHR 34 # concat (map escape_chr s) @ [CHR 34]"

fun print_json :: "json \<Rightarrow> string"
  and print_elems :: "json list \<Rightarrow> string"
  and print_fields :: "(string \<times> json) list \<Rightarrow> string"
  and print_field :: "string \<times> json \<Rightarrow> string" where
  "print_json JNull = ''null''"
| "print_json (JBool b) = (if b then ''true'' else ''false'')"
| "print_json (JNum l) = l"
| "print_json (JStr s) = print_str s"
| "print_json (JArr js) = ''['' @ print_elems js @ '']''"
| "print_json (JObj fs) = ''{'' @ print_fields fs @ ''}''"
| "print_elems [] = []"
| "print_elems [j] = print_json j"
| "print_elems (j # js) = print_json j @ '','' @ print_elems js"
| "print_fields [] = []"
| "print_fields [f] = print_field f"
| "print_fields (f # fs) = print_field f @ '','' @ print_fields fs"
| "print_field (k, v) = print_str k @ '':'' @ print_json v"

subsection \<open>The reader\<close>

definition is_ws :: "char \<Rightarrow> bool" where
  "is_ws c \<longleftrightarrow> (of_char c :: nat) \<in> {9, 10, 13, 32}"

definition skip_ws :: "string \<Rightarrow> string" where
  "skip_ws s = dropWhile is_ws s"

definition hex_val :: "char \<Rightarrow> nat option" where
  "hex_val c =
     (let n = (of_char c :: nat)
      in if 48 \<le> n \<and> n \<le> 57 then Some (n - 48)
         else if 97 \<le> n \<and> n \<le> 102 then Some (n - 87)
         else if 65 \<le> n \<and> n \<le> 70 then Some (n - 55) else None)"

definition hex4 :: "char \<Rightarrow> char \<Rightarrow> char \<Rightarrow> char \<Rightarrow> nat option" where
  "hex4 a b c d =
     (case (hex_val a, hex_val b, hex_val c, hex_val d) of
        (Some w, Some x, Some y, Some z) \<Rightarrow> Some (((w * 16 + x) * 16 + y) * 16 + z)
      | _ \<Rightarrow> None)"

text \<open>The UTF-8 bytes of a code point; a surrogate half becomes U+FFFD.\<close>

definition utf8_encode :: "nat \<Rightarrow> string" where
  "utf8_encode n =
     (if n < 128 then [char_of n]
      else if n < 2048 then [char_of (192 + n div 64), char_of (128 + n mod 64)]
      else if 55296 \<le> n \<and> n < 57344 then [CHR 0xEF, CHR 0xBF, CHR 0xBD]
      else if n < 65536
      then [char_of (224 + n div 4096), char_of (128 + n div 64 mod 64), char_of (128 + n mod 64)]
      else [char_of (240 + n div 262144), char_of (128 + n div 4096 mod 64),
            char_of (128 + n div 64 mod 64), char_of (128 + n mod 64)])"

definition simple_escape :: "char \<Rightarrow> char option" where
  "simple_escape c =
     map_of [(CHR 34, CHR 34), (CHR 92, CHR 92), (CHR ''/'', CHR ''/''), (CHR ''b'', CHR 8),
             (CHR ''f'', CHR 12), (CHR ''n'', CHR 10), (CHR ''r'', CHR 13), (CHR ''t'', CHR 9)] c"

text \<open>
  What follows \<open>\u\<close>: four hexadecimal digits, and for a high surrogate the low one that may
  follow it. The result is the decoded bytes and the rest.
\<close>

definition parse_u16 :: "string \<Rightarrow> (nat \<times> string) option" where
  "parse_u16 s =
     (case s of
        h1 # h2 # h3 # h4 # rest \<Rightarrow> map_option (\<lambda>n. (n, rest)) (hex4 h1 h2 h3 h4)
      | _ \<Rightarrow> None)"

definition low_surrogate :: "string \<Rightarrow> (nat \<times> string) option" where
  "low_surrogate s =
     (case s of
        b # v # rest \<Rightarrow>
          if b = CHR 92 \<and> v = CHR ''u''
          then (case parse_u16 rest of
                  Some (m, r) \<Rightarrow> if 56320 \<le> m \<and> m < 57344 then Some (m, r) else None
                | None \<Rightarrow> None)
          else None
      | _ \<Rightarrow> None)"

definition parse_escape :: "string \<Rightarrow> (string \<times> string) option" where
  "parse_escape s =
     (case s of
        [] \<Rightarrow> None
      | e # cs \<Rightarrow>
          if e = CHR ''u'' then
            (case parse_u16 cs of
               None \<Rightarrow> None
             | Some (n, r) \<Rightarrow>
                 (case (if 55296 \<le> n \<and> n < 56320 then low_surrogate r else None) of
                    Some (m, r') \<Rightarrow> Some (utf8_encode (65536 + (n - 55296) * 1024 + (m - 56320)), r')
                  | None \<Rightarrow> Some (utf8_encode n, r)))
          else map_option (\<lambda>x. ([x], cs)) (simple_escape e))"

lemma parse_u16_length: "parse_u16 s = Some (n, r) \<Longrightarrow> length r < length s"
  by (auto simp: parse_u16_def split: list.splits)

lemma parse_escape_length: "parse_escape s = Some (x, r) \<Longrightarrow> length r < length s"
  by (fastforce simp: parse_escape_def low_surrogate_def dest!: parse_u16_length
      split: list.splits if_splits option.splits)

text \<open>The body of a string literal after its opening quote: the contents and what follows.\<close>

function parse_str_body :: "string \<Rightarrow> (string \<times> string) option" where
  "parse_str_body [] = None"
| "parse_str_body (c # cs) =
     (if c = CHR 34 then Some ([], cs)
      else if c = CHR 92 then
        (case parse_escape cs of
           None \<Rightarrow> None
         | Some (x, rest) \<Rightarrow> map_option (\<lambda>(s, r). (x @ s, r)) (parse_str_body rest))
      else if (of_char c :: nat) < 32 then None
      else map_option (\<lambda>(s, r). (c # s, r)) (parse_str_body cs))"
  by pat_completeness auto
termination
  by (relation "measure length") (auto dest: parse_escape_length)

text \<open>The JSON number grammar: the literal and what follows.\<close>

definition parse_digits :: "string \<Rightarrow> (string \<times> string) option" where
  "parse_digits s =
     (let ds = takeWhile is_digit s in if ds = [] then None else Some (ds, dropWhile is_digit s))"

definition parse_int_part :: "string \<Rightarrow> (string \<times> string) option" where
  "parse_int_part s =
     (case s of [] \<Rightarrow> None
      | c # cs \<Rightarrow> if c = CHR ''0'' then Some ([c], cs) else parse_digits s)"

definition parse_frac_part :: "string \<Rightarrow> (string \<times> string) option" where
  "parse_frac_part s =
     (case s of [] \<Rightarrow> Some ([], [])
      | c # cs \<Rightarrow> if c = CHR ''.'' then map_option (\<lambda>(d, r). (c # d, r)) (parse_digits cs)
                  else Some ([], s))"

definition parse_exp_part :: "string \<Rightarrow> (string \<times> string) option" where
  "parse_exp_part s =
     (case s of [] \<Rightarrow> Some ([], [])
      | c # cs \<Rightarrow>
          if c = CHR ''e'' \<or> c = CHR ''E'' then
            (case cs of [] \<Rightarrow> None
             | g # gs \<Rightarrow> if g = CHR ''+'' \<or> g = CHR ''-''
                         then map_option (\<lambda>(d, r). (c # g # d, r)) (parse_digits gs)
                         else map_option (\<lambda>(d, r). (c # d, r)) (parse_digits cs))
          else Some ([], s))"

definition parse_num :: "string \<Rightarrow> (string \<times> string) option" where
  "parse_num s =
     (let (sg, s0) = (case s of c # cs \<Rightarrow> if c = CHR ''-'' then ([c], cs) else ([], s) | [] \<Rightarrow> ([], []))
      in case parse_int_part s0 of None \<Rightarrow> None
         | Some (i, s1) \<Rightarrow>
             (case parse_frac_part s1 of None \<Rightarrow> None
              | Some (f, s2) \<Rightarrow>
                  (case parse_exp_part s2 of None \<Rightarrow> None
                   | Some (e, s3) \<Rightarrow> Some (sg @ i @ f @ e, s3))))"

definition strip_lit :: "string \<Rightarrow> string \<Rightarrow> string option" where
  "strip_lit l s = (if hasPrefix s l then Some (drop (length l) s) else None)"

text \<open>
  The reader spends one unit of fuel per nested call; \<open>unmarshal\<close> gives it twice the length of the text,
  which is enough for every document (\<open>parse_print_json\<close> below).
\<close>

fun parse_json :: "nat \<Rightarrow> string \<Rightarrow> (json \<times> string) option"
  and parse_elems :: "nat \<Rightarrow> string \<Rightarrow> (json list \<times> string) option"
  and parse_fields :: "nat \<Rightarrow> string \<Rightarrow> ((string \<times> json) list \<times> string) option" where
  "parse_json 0 s0 = None"
| "parse_json (Suc n) s0 =
     (let s = skip_ws s0 in
      case s of
        [] \<Rightarrow> None
      | c # cs \<Rightarrow>
          if c = CHR 34 then map_option (\<lambda>(t, r). (JStr t, r)) (parse_str_body cs)
          else if c = CHR ''['' then
            (case skip_ws cs of
               [] \<Rightarrow> None
             | d # ds \<Rightarrow> if d = CHR '']'' then Some (JArr [], ds)
                         else map_option (\<lambda>(js, r). (JArr js, r)) (parse_elems n cs))
          else if c = CHR ''{'' then
            (case skip_ws cs of
               [] \<Rightarrow> None
             | d # ds \<Rightarrow> if d = CHR ''}'' then Some (JObj [], ds)
                         else map_option (\<lambda>(fs, r). (JObj fs, r)) (parse_fields n cs))
          else if c = CHR ''n'' then map_option (\<lambda>r. (JNull, r)) (strip_lit ''null'' s)
          else if c = CHR ''t'' then map_option (\<lambda>r. (JBool True, r)) (strip_lit ''true'' s)
          else if c = CHR ''f'' then map_option (\<lambda>r. (JBool False, r)) (strip_lit ''false'' s)
          else map_option (\<lambda>(l, r). (JNum l, r)) (parse_num s))"
| "parse_elems 0 s = None"
| "parse_elems (Suc n) s =
     (case parse_json n s of
        None \<Rightarrow> None
      | Some (j, r) \<Rightarrow>
          (case skip_ws r of
             [] \<Rightarrow> None
           | c # cs \<Rightarrow> if c = CHR '']'' then Some ([j], cs)
                       else if c = CHR '','' then map_option (\<lambda>(js, r'). (j # js, r')) (parse_elems n cs)
                       else None))"
| "parse_fields 0 s = None"
| "parse_fields (Suc n) s0 =
     (case skip_ws s0 of
        [] \<Rightarrow> None
      | q # s1 \<Rightarrow>
          if q \<noteq> CHR 34 then None
          else (case parse_str_body s1 of
                  None \<Rightarrow> None
                | Some (k, s2) \<Rightarrow>
                    (case skip_ws s2 of
                       [] \<Rightarrow> None
                     | co # s3 \<Rightarrow>
                         if co \<noteq> CHR '':'' then None
                         else (case parse_json n s3 of
                                 None \<Rightarrow> None
                               | Some (v, r) \<Rightarrow>
                                   (case skip_ws r of
                                      [] \<Rightarrow> None
                                    | c # cs \<Rightarrow>
                                        if c = CHR ''}'' then Some ([(k, v)], cs)
                                        else if c = CHR '',''
                                        then map_option (\<lambda>(fs, r'). ((k, v) # fs, r')) (parse_fields n cs)
                                        else None)))))"

text \<open>\<open>json.Unmarshal\<close> wants one document and nothing but white space after it.\<close>

definition unmarshal :: "string \<Rightarrow> json option" where
  "unmarshal s =
     (case parse_json (2 * length s + 1) s of
        Some (j, r) \<Rightarrow> if skip_ws r = [] then Some j else None
      | None \<Rightarrow> None)"

text \<open>\<open>json.Decoder.Decode\<close> reads the first document and leaves the rest in the stream.\<close>

definition decode_stream :: "string \<Rightarrow> json option" where
  "decode_stream s = map_option fst (parse_json (2 * length s + 1) s)"

subsection \<open>The reader reads what the writer wrote\<close>

lemma hex_val_chr: "d < 16 \<Longrightarrow> hex_val (hex_chr d) = Some d"
  by (auto simp: hex_val_def hex_chr_def Let_def)

lemma hex4_byte:
  assumes "n < 256"
  shows "hex4 (CHR ''0'') (CHR ''0'') (hex_chr (n div 16)) (hex_chr (n mod 16)) = Some n"
proof -
  have "hex_val (CHR ''0'') = Some 0" by (simp add: hex_val_def)
  moreover have "n div 16 < 16" "n mod 16 < 16" using assms by auto
  ultimately show ?thesis by (simp add: hex4_def hex_val_chr)
qed

lemma parse_str_body_escape:
  "parse_str_body (escape_chr c @ r) = map_option (\<lambda>(s, r). (c # s, r)) (parse_str_body r)"
proof -
  define n where "n = (of_char c :: nat)"
  have c: "c = char_of n" and n: "n < 256" by (simp_all add: n_def)
  consider (named) "n \<in> {34, 92, 8, 12, 10, 13, 9}"
    | (coded) "n \<notin> {34, 92, 8, 12, 10, 13, 9}" "n < 32 \<or> n = 60 \<or> n = 62 \<or> n = 38"
    | (plain) "n \<notin> {34, 92, 8, 12, 10, 13, 9}" "\<not> n < 32" "n \<noteq> 60" "n \<noteq> 62" "n \<noteq> 38"
    by blast
  then show ?thesis
  proof cases
    case named
    have codes: "char_of (34 :: nat) = CHR 34" "char_of (92 :: nat) = CHR 92" "char_of (8 :: nat) = CHR 8"
      "char_of (12 :: nat) = CHR 12" "char_of (10 :: nat) = CHR 10" "char_of (13 :: nat) = CHR 13"
      "char_of (9 :: nat) = CHR 9"
      by code_simp+
    from named have "c \<in> {CHR 34, CHR 92, CHR 8, CHR 12, CHR 10, CHR 13, CHR 9}"
      unfolding c using codes by force
    then show ?thesis
      by (elim insertE emptyE) (simp_all add: escape_chr_def parse_escape_def simple_escape_def)
  next
    case coded
    then have esc: "escape_chr c =
        [CHR 92, CHR ''u'', CHR ''0'', CHR ''0'', hex_chr (n div 16), hex_chr (n mod 16)]"
      by (auto simp: escape_chr_def Let_def simp flip: n_def)
    have "utf8_encode n = [c]" using coded n by (auto simp: utf8_encode_def c)
    moreover have "\<not> 55296 \<le> n" using n by simp
    ultimately show ?thesis
      by (simp add: esc parse_escape_def parse_u16_def hex4_byte [OF n])
  next
    case plain
    then have "escape_chr c = [c]" by (auto simp: escape_chr_def Let_def simp flip: n_def)
    moreover have "c \<noteq> CHR 34" "c \<noteq> CHR 92" using plain by (auto simp: n_def)
    ultimately show ?thesis using plain by (simp flip: n_def)
  qed
qed

lemma parse_print_str: "parse_str_body (concat (map escape_chr s) @ CHR 34 # r) = Some (s, r)"
  by (induction s) (simp_all add: parse_str_body_escape)

text \<open>Literals that \<open>json.Marshal\<close> writes for a Go \<open>int\<close>.\<close>

definition int_lit :: "string \<Rightarrow> bool" where
  "int_lit l \<longleftrightarrow> (case atoi l of None \<Rightarrow> False | Some i \<Rightarrow> l = itoa i)"

fun wf_json :: "json \<Rightarrow> bool" where
  "wf_json (JNum l) \<longleftrightarrow> int_lit l"
| "wf_json (JArr js) \<longleftrightarrow> list_all wf_json js"
| "wf_json (JObj fs) \<longleftrightarrow> list_all (\<lambda>(k, v). wf_json v) fs"
| "wf_json _ \<longleftrightarrow> True"

text \<open>What may follow a number without becoming part of it.\<close>

definition stops :: "string \<Rightarrow> bool" where
  "stops r \<longleftrightarrow> (case r of [] \<Rightarrow> True | c # _ \<Rightarrow> c \<in> {CHR 10, CHR '','', CHR '']'', CHR ''}''})"

lemma int_lit_itoa: "int64_range i \<Longrightarrow> int_lit (itoa i)"
  by (simp add: int_lit_def atoi_itoa)

lemma utoa_hd:
  "utoa n = (if n = 0 then ''0'' else hd (utoa n) # tl (utoa n)) \<and> (n \<noteq> 0 \<longrightarrow> hd (utoa n) \<noteq> CHR ''0'')"
proof (induction n rule: utoa.induct)
  case (1 n)
  show ?case
  proof (cases "n < 10")
    case True
    then have "utoa n = [digit_chr n]" by (simp add: utoa.simps)
    moreover have "n \<noteq> 0 \<longrightarrow> digit_chr n \<noteq> CHR ''0''"
      using digit_chr_props(2) [OF True] by (auto simp: digit_val_def)
    moreover have "digit_chr 0 = CHR ''0''" by code_simp
    ultimately show ?thesis by (cases "n = 0") simp_all
  next
    case False
    then have eq: "utoa n = utoa (n div 10) @ [digit_chr (n mod 10)]" and z: "n div 10 \<noteq> 0"
      by (simp_all add: utoa.simps [of n] div_eq_0_iff)
    obtain c cs where c: "utoa (n div 10) = c # cs" using utoa_spec by (cases "utoa (n div 10)") auto
    with "1.IH" [OF False] z have "c \<noteq> CHR ''0''" by auto
    with False eq c show ?thesis by simp
  qed
qed

lemma takeWhile_digits:
  assumes "list_all is_digit ds" "stops r"
  shows "takeWhile is_digit (ds @ r) = ds" and "dropWhile is_digit (ds @ r) = r"
proof -
  have "r = [] \<or> \<not> is_digit (hd r)"
    using assms(2) by (auto simp: stops_def is_digit_def split: list.splits)
  then have "takeWhile is_digit r = []" "dropWhile is_digit r = r" by (cases r; simp)+
  with assms(1) show "takeWhile is_digit (ds @ r) = ds" "dropWhile is_digit (ds @ r) = r"
    by (auto simp: list_all_iff takeWhile_append2 dropWhile_append2)
qed

lemma parse_int_part_utoa: "stops r \<Longrightarrow> parse_int_part (utoa n @ r) = Some (utoa n, r)"
proof (cases "n = 0")
  case True
  then show ?thesis using utoa_hd [of 0] by (simp add: parse_int_part_def)
next
  case False
  assume r: "stops r"
  have sp: "utoa n \<noteq> []" "list_all is_digit (utoa n)" using utoa_spec by auto
  then obtain c cs where c: "utoa n = c # cs" by (cases "utoa n") auto
  with utoa_hd [of n] False have "c \<noteq> CHR ''0''" by auto
  with c have "parse_int_part (utoa n @ r) = parse_digits (utoa n @ r)"
    by (simp add: parse_int_part_def)
  with takeWhile_digits [OF sp(2) r] sp(1) show ?thesis by (simp add: parse_digits_def)
qed

lemma parse_frac_exp_stops: "stops r \<Longrightarrow> parse_frac_part r = Some ([], r) \<and> parse_exp_part r = Some ([], r)"
  by (auto simp: stops_def parse_frac_part_def parse_exp_part_def split: list.splits)

lemma parse_num_itoa: "stops r \<Longrightarrow> parse_num (itoa i @ r) = Some (itoa i, r)"
proof (cases "i < 0")
  case True
  assume "stops r"
  with True show ?thesis
    by (simp add: itoa_def parse_num_def parse_int_part_utoa parse_frac_exp_stops)
next
  case False
  assume r: "stops r"
  obtain c cs where c: "utoa (nat i) = c # cs" using utoa_spec by (cases "utoa (nat i)") auto
  have "c \<noteq> CHR ''-''" using utoa_spec [of "nat i"] sign_not_digit(1) by (auto simp: c)
  with False r show ?thesis using parse_int_part_utoa [OF r, of "nat i"]
    by (simp add: itoa_def parse_num_def parse_frac_exp_stops c)
qed

text \<open>The first character of a printed value tells what it is, and is never white space.\<close>

lemma itoa_first: "\<exists>c cs. itoa i = c # cs \<and> (is_digit c \<or> c = CHR ''-'')"
  using utoa_spec [of "nat i"] by (cases "utoa (nat i)") (auto simp: itoa_def)

lemma parse_json_int: "stops r \<Longrightarrow> parse_json (Suc n) (itoa i @ r) = Some (JNum (itoa i), r)"
proof -
  assume r: "stops r"
  obtain c cs where c: "itoa i = c # cs" "is_digit c \<or> c = CHR ''-''" using itoa_first by blast
  then have "\<not> is_ws c" "c \<noteq> CHR 34" "c \<noteq> CHR ''[''" "c \<noteq> CHR ''{''" "c \<noteq> CHR ''n''"
    "c \<noteq> CHR ''t''" "c \<noteq> CHR ''f''"
    by (auto simp: is_digit_def is_ws_def)
  with c(1) parse_num_itoa [OF r, of i] show ?thesis by (simp add: skip_ws_def)
qed

lemma print_json_first:
  "wf_json j \<Longrightarrow> \<exists>c cs. print_json j = c # cs \<and> \<not> is_ws c \<and> c \<noteq> CHR '']'' \<and> c \<noteq> CHR ''}''"
proof (cases j)
  case (JNum l)
  assume "wf_json j"
  then obtain i where "l = itoa i" by (auto simp: JNum int_lit_def split: option.splits)
  with itoa_first [of i] JNum show ?thesis by (auto simp: is_digit_def is_ws_def)
qed (auto simp: print_str_def is_ws_def)

lemma print_elems_Cons: "js \<noteq> [] \<Longrightarrow> print_elems (j # js) = print_json j @ '','' @ print_elems js"
  by (cases js) auto

lemma print_fields_Cons:
  "fs \<noteq> [] \<Longrightarrow> print_fields (f # fs) = print_field f @ '','' @ print_fields fs"
  by (cases fs) auto

lemma stops_simps [simp]: "stops []" "stops (CHR '','' # r)" "stops (CHR '']'' # r)" "stops (CHR ''}'' # r)"
  by (simp_all add: stops_def)

lemma skip_ws_simps [simp]:
  "skip_ws [] = []" "skip_ws (CHR '','' # r) = CHR '','' # r" "skip_ws (CHR '']'' # r) = CHR '']'' # r"
  "skip_ws (CHR ''}'' # r) = CHR ''}'' # r" "skip_ws (CHR '':'' # r) = CHR '':'' # r"
  "skip_ws (CHR ''['' # r) = CHR ''['' # r" "skip_ws (CHR ''{'' # r) = CHR ''{'' # r"
  "skip_ws (CHR 34 # r) = CHR 34 # r" "skip_ws (CHR ''n'' # r) = CHR ''n'' # r"
  "skip_ws (CHR ''t'' # r) = CHR ''t'' # r" "skip_ws (CHR ''f'' # r) = CHR ''f'' # r"
  by (simp_all add: skip_ws_def is_ws_def)

lemma print_elems_first:
  assumes "js \<noteq> []" "list_all wf_json js"
  shows "\<exists>c cs. print_elems js = c # cs \<and> \<not> is_ws c \<and> c \<noteq> CHR '']''"
proof -
  obtain j js' where js: "js = j # js'" using assms(1) by (cases js) auto
  with assms(2) print_json_first [of j] show ?thesis
    by (cases js') (auto simp: print_elems_Cons)
qed

lemma print_fields_first:
  "fs \<noteq> [] \<Longrightarrow> \<exists>cs. print_fields fs = CHR 34 # cs"
  by (cases "fs" rule: print_fields.cases) (auto simp: print_str_def)

lemma parse_print:
  "wf_json j \<Longrightarrow> 2 * length (print_json j) \<le> n \<Longrightarrow> stops r \<Longrightarrow>
     parse_json n (print_json j @ r) = Some (j, r)"
  "list_all wf_json js \<Longrightarrow> js \<noteq> [] \<Longrightarrow> 2 * length (print_elems js) + 1 \<le> n \<Longrightarrow>
     parse_elems n (print_elems js @ CHR '']'' # r) = Some (js, r)"
  "list_all (\<lambda>(k, v). wf_json v) fs \<Longrightarrow> fs \<noteq> [] \<Longrightarrow> 2 * length (print_fields fs) + 1 \<le> n \<Longrightarrow>
     parse_fields n (print_fields fs @ CHR ''}'' # r) = Some (fs, r)"
  "wf_json (snd (f :: string \<times> json)) \<Longrightarrow> 2 * length (print_json (snd f)) \<le> n \<Longrightarrow> stops r \<Longrightarrow>
     parse_json n (print_json (snd f) @ r) = Some (snd f, r)"
proof (induction j and js and fs and f arbitrary: n r and n r and n r and n r
    rule: print_json_print_elems_print_fields_print_field.induct)
  case 1
  then show ?case by (cases n) (auto simp: strip_lit_def hasPrefix_def Let_def)
next
  case (2 b)
  then show ?case by (cases n; cases b) (auto simp: strip_lit_def hasPrefix_def Let_def)
next
  case (3 l)
  then obtain i where i: "l = itoa i" by (auto simp: int_lit_def split: option.splits)
  obtain n' where "n = Suc n'" using "3.prems"(2) itoa_first [of i] i by (cases n) auto
  with parse_json_int [OF "3.prems"(3)] i show ?case by simp
next
  case (4 s)
  then show ?case by (cases n) (auto simp: print_str_def parse_print_str)
next
  case (5 js)
  then obtain n' where n: "n = Suc n'" by (cases n) auto
  show ?case
  proof (cases "js = []")
    case False
    obtain c cs where c: "print_elems js = c # cs" "\<not> is_ws c" "c \<noteq> CHR '']''"
      using print_elems_first [OF False] "5.prems"(1) by auto
    have "parse_elems n' (print_elems js @ CHR '']'' # r) = Some (js, r)"
      by (rule "5.IH") (use "5.prems" False n in auto)
    with c n show ?thesis by (simp add: skip_ws_def [of "c # _"])
  qed (simp add: n)
next
  case (6 fs)
  then obtain n' where n: "n = Suc n'" by (cases n) auto
  show ?case
  proof (cases "fs = []")
    case False
    obtain cs where c: "print_fields fs = CHR 34 # cs" using print_fields_first [OF False] by auto
    have "parse_fields n' (print_fields fs @ CHR ''}'' # r) = Some (fs, r)"
      by (rule "6.IH") (use "6.prems" False n in auto)
    with c n show ?thesis by simp
  qed (simp add: n)
next
  case 7
  then show ?case by simp
next
  case (8 j)
  then obtain n' where n: "n = Suc n'" by (cases n) auto
  with "8.IH" [of n' "CHR '']'' # r"] "8.prems" show ?case by simp
next
  case (9 j j2 js)
  then obtain n' where n: "n = Suc n'" by (cases n) auto
  with "9.IH"(1) [of n' "CHR '','' # print_elems (j2 # js) @ CHR '']'' # r"]
    "9.IH"(2) [of n' r] "9.prems"
  show ?case by simp
next
  case 10
  then show ?case by simp
next
  case (11 f)
  obtain k v where f: "f = (k, v)" by (cases f)
  from 11 obtain n' where n: "n = Suc n'" by (cases n) auto
  with "11.IH" [of n' "CHR ''}'' # r"] "11.prems" f show ?case
    by (simp add: print_str_def parse_print_str)
next
  case (12 f f2 fs)
  obtain k v where f: "f = (k, v)" by (cases f)
  from 12 obtain n' where n: "n = Suc n'" by (cases n) auto
  with "12.IH"(1) [of n' "CHR '','' # print_fields (f2 # fs) @ CHR ''}'' # r"]
    "12.IH"(2) [of n' r] "12.prems" f
  show ?case by (simp add: print_str_def parse_print_str)
next
  case (13 k v)
  then show ?case by simp
qed

lemma unmarshal_print: "wf_json j \<Longrightarrow> unmarshal (print_json j) = Some j"
  using parse_print(1) [of j "2 * length (print_json j) + 1" "[]"] by (simp add: unmarshal_def)

lemma decode_stream_print: "wf_json j \<Longrightarrow> decode_stream (print_json j) = Some j"
  using parse_print(1) [of j "2 * length (print_json j) + 1" "[]"] by (simp add: decode_stream_def)

subsection \<open>Structs\<close>

text \<open>
  Writing a struct with \<open>omitempty\<close>: an empty string, a zero, a nil pointer and an empty slice are
  left out. Reading one: a key matches the name of a field up to the case of its letters, keys of
  no field are skipped, null leaves a field alone and makes a pointer nil, of several entries for
  a field the last one stands, and a value of the wrong type is an error.
\<close>

definition omit_str :: "string \<Rightarrow> string \<Rightarrow> (string \<times> json) list" where
  "omit_str k v = (if v = [] then [] else [(k, JStr v)])"

definition omit_int :: "string \<Rightarrow> int \<Rightarrow> (string \<times> json) list" where
  "omit_int k i = (if i = 0 then [] else [(k, JNum (itoa i))])"

definition omit_ptr :: "string \<Rightarrow> json option \<Rightarrow> (string \<times> json) list" where
  "omit_ptr k v = (case v of None \<Rightarrow> [] | Some j \<Rightarrow> [(k, j)])"

definition json_time :: "time \<Rightarrow> json" where
  "json_time t = JStr (formatRFC3339Nano t)"

definition to_lower :: "char \<Rightarrow> char" where
  "to_lower c = (let n = (of_char c :: nat) in if 65 \<le> n \<and> n \<le> 90 then char_of (n + 32) else c)"

definition values_of :: "string \<Rightarrow> (string \<times> json) list \<Rightarrow> json list" where
  "values_of k fs = map snd (filter (\<lambda>(k', v). map to_lower k' = map to_lower k) fs)"

fun dec_str :: "string \<Rightarrow> json list \<Rightarrow> string option" where
  "dec_str a [] = Some a"
| "dec_str a (JNull # vs) = dec_str a vs"
| "dec_str a (JStr v # vs) = dec_str v vs"
| "dec_str a (_ # vs) = None"

fun dec_int :: "int \<Rightarrow> json list \<Rightarrow> int option" where
  "dec_int a [] = Some a"
| "dec_int a (JNull # vs) = dec_int a vs"
| "dec_int a (JNum l # vs) = (case atoi l of None \<Rightarrow> None | Some i \<Rightarrow> dec_int i vs)"
| "dec_int a (_ # vs) = None"

fun dec_bool :: "bool \<Rightarrow> json list \<Rightarrow> bool option" where
  "dec_bool a [] = Some a"
| "dec_bool a (JNull # vs) = dec_bool a vs"
| "dec_bool a (JBool b # vs) = dec_bool b vs"
| "dec_bool a (_ # vs) = None"

fun dec_bool_ptr :: "bool option \<Rightarrow> json list \<Rightarrow> bool option option" where
  "dec_bool_ptr a [] = Some a"
| "dec_bool_ptr a (JNull # vs) = dec_bool_ptr None vs"
| "dec_bool_ptr a (JBool b # vs) = dec_bool_ptr (Some b) vs"
| "dec_bool_ptr a (_ # vs) = None"

fun dec_time :: "time \<Rightarrow> json list \<Rightarrow> time option" where
  "dec_time a [] = Some a"
| "dec_time a (JNull # vs) = dec_time a vs"
| "dec_time a (JStr v # vs) = (case parseRFC3339 v of None \<Rightarrow> None | Some t \<Rightarrow> dec_time t vs)"
| "dec_time a (_ # vs) = None"

fun dec_time_ptr :: "time option \<Rightarrow> json list \<Rightarrow> time option option" where
  "dec_time_ptr a [] = Some a"
| "dec_time_ptr a (JNull # vs) = dec_time_ptr None vs"
| "dec_time_ptr a (JStr v # vs) =
     (case parseRFC3339 v of None \<Rightarrow> None | Some t \<Rightarrow> dec_time_ptr (Some t) vs)"
| "dec_time_ptr a (_ # vs) = None"

text \<open>The elements of a \<open>[]string\<close>: null is the empty string, another type an error.\<close>

fun dec_str_elems :: "json list \<Rightarrow> string list option" where
  "dec_str_elems [] = Some []"
| "dec_str_elems (j # js) =
     (case (dec_str [] [j], dec_str_elems js) of (Some x, Some xs) \<Rightarrow> Some (x # xs) | _ \<Rightarrow> None)"

fun dec_str_slice :: "string list \<Rightarrow> json list \<Rightarrow> string list option" where
  "dec_str_slice a [] = Some a"
| "dec_str_slice a (JNull # vs) = dec_str_slice [] vs"
| "dec_str_slice a (JArr js # vs) =
     (case dec_str_elems js of None \<Rightarrow> None | Some xs \<Rightarrow> dec_str_slice xs vs)"
| "dec_str_slice a (_ # vs) = None"

lemma values_of_simps [simp]:
  "values_of k [] = []"
  "values_of k (omit_str k' v @ fs) =
     (if v \<noteq> [] \<and> map to_lower k' = map to_lower k then JStr v # values_of k fs else values_of k fs)"
  "values_of k (omit_int k' i @ fs) =
     (if i \<noteq> 0 \<and> map to_lower k' = map to_lower k then JNum (itoa i) # values_of k fs
      else values_of k fs)"
  "values_of k (omit_ptr k' p @ fs) =
     (case p of None \<Rightarrow> values_of k fs
      | Some j \<Rightarrow> if map to_lower k' = map to_lower k then j # values_of k fs else values_of k fs)"
  "values_of k ((k', j) # fs) =
     (if map to_lower k' = map to_lower k then j # values_of k fs else values_of k fs)"
  by (auto simp: values_of_def omit_str_def omit_int_def omit_ptr_def split: option.splits)

text \<open>One optional field read back from its own entry.\<close>

lemma dec_omitted:
  "dec_str [] (if s \<noteq> [] then [JStr s] else []) = Some s"
  "int64_range i \<Longrightarrow> dec_int 0 (if i \<noteq> 0 then [JNum (itoa i)] else []) = Some i"
  by (auto simp: atoi_itoa)

lemma dec_str_elems_map: "dec_str_elems (map JStr xs) = Some xs"
  by (induction xs) auto

lemma wf_json_fields:
  "list_all (\<lambda>(k, v). wf_json v) (omit_str k s)"
  "int64_range i \<Longrightarrow> list_all (\<lambda>(k, v). wf_json v) (omit_int k i)"
  "(\<And>j. p = Some j \<Longrightarrow> wf_json j) \<Longrightarrow> list_all (\<lambda>(k, v). wf_json v) (omit_ptr k p)"
  "wf_json (json_time t)"
  by (auto simp: omit_str_def omit_int_def omit_ptr_def int_lit_itoa json_time_def split: option.splits)

end
