(* ===== verification/Constants.thy ===== *)
theory Constants
  imports Meows_Prelude
begin

section \<open>constants.go\<close>

text \<open>The names, paths and states shared by the controller, the runner pod and the Slack agent.\<close>

definition Version :: string where "Version = ''0.24.0''"

definition RunnerContainerName :: string where "RunnerContainerName = ''runner''"

definition RunnerSecretExpiresAtAnnotationKey :: string where
  "RunnerSecretExpiresAtAnnotationKey = ''meows.cybozu.com/expires-at''"

definition RunnerPoolFinalizer :: string where "RunnerPoolFinalizer = ''meows.cybozu.com/runnerpool''"

definition AppNameLabelKey :: string where "AppNameLabelKey = ''app.kubernetes.io/name''"

definition AppComponentLabelKey :: string where
  "AppComponentLabelKey = ''app.kubernetes.io/component''"

definition AppInstanceLabelKey :: string where "AppInstanceLabelKey = ''app.kubernetes.io/instance''"

definition RunnerPodName :: string where "RunnerPodName = ''meows.cybozu.com/runner-pod-name''"

definition AppName :: string where "AppName = ''meows''"

definition AppComponentRunner :: string where "AppComponentRunner = ''runner''"

definition RunnerListenPort :: int where "RunnerListenPort = 8080"

definition RunnerMetricsPortName :: string where "RunnerMetricsPortName = ''metrics''"

definition DeletionTimeEndpoint :: string where "DeletionTimeEndpoint = ''deletion_time''"

definition StatusEndPoint :: string where "StatusEndPoint = ''status''"

definition RunnerPodStateInitializing :: string where
  "RunnerPodStateInitializing = ''initializing''"

definition RunnerPodStateRunning :: string where "RunnerPodStateRunning = ''running''"

definition RunnerPodStateDebugging :: string where "RunnerPodStateDebugging = ''debugging''"

definition RunnerPodStateStale :: string where "RunnerPodStateStale = ''stale''"

definition ListenerExitStateRetryableError :: string where
  "ListenerExitStateRetryableError = ''retryable_error''"

definition ListenerExitStateUpdating :: string where "ListenerExitStateUpdating = ''updating''"

definition ListenerExitStateUndefined :: string where "ListenerExitStateUndefined = ''undefined''"

definition DefaultCredentialSecretName :: string where
  "DefaultCredentialSecretName = ''meows-github-cred''"

definition CredentialSecretDataAppID :: string where "CredentialSecretDataAppID = ''app-id''"

definition CredentialSecretDataAppInstallationID :: string where
  "CredentialSecretDataAppInstallationID = ''app-installation-id''"

definition CredentialSecretDataAppPrivateKey :: string where
  "CredentialSecretDataAppPrivateKey = ''app-private-key''"

definition CredentialSecretDataPATToken :: string where "CredentialSecretDataPATToken = ''token''"

definition DefaultSlackAgentServiceName :: string where
  "DefaultSlackAgentServiceName = ''slack-agent.meows.svc''"

definition RunnerRootDirPath :: string where "RunnerRootDirPath = ''/runner''"

definition RunnerWorkDirPath :: string where "RunnerWorkDirPath = ''/runner/_work''"

definition RunnerVarDirPath :: string where "RunnerVarDirPath = ''/var/meows''"

definition SlackChannelFilePath :: string where
  "SlackChannelFilePath = RunnerVarDirPath @ ''/slack_channel''"

definition SecretsDirName :: string where "SecretsDirName = ''secrets''"

definition RunnerTokenFileName :: string where "RunnerTokenFileName = ''runnertoken''"

definition PodNameEnvName :: string where "PodNameEnvName = ''POD_NAME''"

definition PodNamespaceEnvName :: string where "PodNamespaceEnvName = ''POD_NAMESPACE''"

definition RunnerOrgEnvName :: string where "RunnerOrgEnvName = ''RUNNER_ORG''"

definition RunnerRepoEnvName :: string where "RunnerRepoEnvName = ''RUNNER_REPO''"

definition RunnerPoolNameEnvName :: string where "RunnerPoolNameEnvName = ''RUNNER_POOL_NAME''"

definition RunnerOptionEnvName :: string where "RunnerOptionEnvName = ''RUNNER_OPTION''"

definition SlackChannelEnvName :: string where "SlackChannelEnvName = ''MEOWS_SLACK_CHANNEL''"

lemmas pod_state_defs =
  RunnerPodStateInitializing_def RunnerPodStateRunning_def RunnerPodStateDebugging_def
  RunnerPodStateStale_def

lemmas label_key_defs =
  AppNameLabelKey_def AppComponentLabelKey_def AppInstanceLabelKey_def RunnerPodName_def

lemmas env_name_defs =
  PodNameEnvName_def PodNamespaceEnvName_def RunnerOrgEnvName_def RunnerRepoEnvName_def
  RunnerPoolNameEnvName_def RunnerOptionEnvName_def

lemma pod_states_distinct [simp]:
  "RunnerPodStateInitializing \<noteq> RunnerPodStateRunning"
  "RunnerPodStateInitializing \<noteq> RunnerPodStateDebugging"
  "RunnerPodStateInitializing \<noteq> RunnerPodStateStale"
  "RunnerPodStateRunning \<noteq> RunnerPodStateInitializing"
  "RunnerPodStateRunning \<noteq> RunnerPodStateDebugging"
  "RunnerPodStateRunning \<noteq> RunnerPodStateStale"
  "RunnerPodStateDebugging \<noteq> RunnerPodStateInitializing"
  "RunnerPodStateDebugging \<noteq> RunnerPodStateRunning"
  "RunnerPodStateDebugging \<noteq> RunnerPodStateStale"
  "RunnerPodStateStale \<noteq> RunnerPodStateInitializing"
  "RunnerPodStateStale \<noteq> RunnerPodStateRunning"
  "RunnerPodStateStale \<noteq> RunnerPodStateDebugging"
  by (simp_all add: pod_state_defs)

end
