(* ===== verification/Job_Info.thy ===== *)
theory Job_Info
  imports Go_Json Constants
begin

section \<open>runner/jobinfo.go: what a CI job is, and how the runner pod learns it\<close>

text \<open>
  The \<open>job-started\<close> command builds a \<open>JobInfo\<close> from the variables GitHub sets in a job and writes
  it to a file as JSON; the runner pod reads the file back when the job has finished. Modelled:
  the process environment (\<open>os.Getenv\<close> on the list that \<open>os.Environ\<close> returns), the reading of a
  file, \<open>readEnv\<close>, \<open>envToJobInfo\<close>, \<open>GetJobInfo\<close>, \<open>GetJobInfoFromFile\<close> and the URLs of a job.
\<close>

subsection \<open>The process environment and files\<close>

text \<open>The environment is the list of \<open>KEY=value\<close> strings; the first entry of a key counts.\<close>

type_synonym environ = "string list"

definition env_key :: "string \<Rightarrow> string" where
  "env_key e = takeWhile (\<lambda>c. c \<noteq> CHR ''='') e"

definition getenv :: "environ \<Rightarrow> string \<Rightarrow> string" where
  "getenv env k =
     (case find (\<lambda>e. CHR ''='' \<in> set e \<and> env_key e = k) env of
        None \<Rightarrow> []
      | Some e \<Rightarrow> tl (dropWhile (\<lambda>c. c \<noteq> CHR ''='') e))"

text \<open>
  The outcome of opening and reading a file; \<open>os.Stat\<close> succeeds on a file that is there, readable or
  not.
\<close>

datatype file_read = NotExist | ReadError string | Contents string

type_synonym filesystem = "string \<Rightarrow> file_read"

definition isFileExists :: "filesystem \<Rightarrow> string \<Rightarrow> bool" where
  "isFileExists fs f \<longleftrightarrow> fs f \<noteq> NotExist"

subsection \<open>JobInfo\<close>

record job_info =
  Actor :: string
  GitRef :: string
  JobID :: string
  PullRequestNum :: int
  Repository :: string
  RunID :: int
  RunNumber :: int
  WorkflowName :: string

definition empty_job_info :: job_info where
  "empty_job_info = \<lparr>Actor = [], GitRef = [], JobID = [], PullRequestNum = 0, Repository = [],
     RunID = 0, RunNumber = 0, WorkflowName = []\<rparr>"

text \<open>The struct tags: every field with \<open>omitempty\<close>, in this order.\<close>

definition job_info_fields :: "job_info \<Rightarrow> (string \<times> json) list" where
  "job_info_fields j =
     omit_str ''actor'' (Actor j) @ omit_str ''git_ref'' (GitRef j) @ omit_str ''job_id'' (JobID j) @
     omit_int ''pull_request_number'' (PullRequestNum j) @ omit_str ''repository'' (Repository j) @
     omit_int ''run_id'' (RunID j) @ omit_int ''run_number'' (RunNumber j) @
     omit_str ''workflow_name'' (WorkflowName j) @ []"

definition job_info_json :: "job_info \<Rightarrow> json" where
  "job_info_json j = JObj (job_info_fields j)"

definition dec_job_info :: "job_info \<Rightarrow> (string \<times> json) list \<Rightarrow> job_info option" where
  "dec_job_info a fs =
     (case (dec_str (Actor a) (values_of ''actor'' fs), dec_str (GitRef a) (values_of ''git_ref'' fs),
            dec_str (JobID a) (values_of ''job_id'' fs),
            dec_int (PullRequestNum a) (values_of ''pull_request_number'' fs),
            dec_str (Repository a) (values_of ''repository'' fs), dec_int (RunID a) (values_of ''run_id'' fs),
            dec_int (RunNumber a) (values_of ''run_number'' fs),
            dec_str (WorkflowName a) (values_of ''workflow_name'' fs)) of
        (Some ac, Some gr, Some ji, Some pr, Some re, Some ri, Some rn, Some wn) \<Rightarrow>
          Some \<lparr>Actor = ac, GitRef = gr, JobID = ji, PullRequestNum = pr, Repository = re, RunID = ri,
                RunNumber = rn, WorkflowName = wn\<rparr>
      | _ \<Rightarrow> None)"

definition unmarshal_job_info :: "string \<Rightarrow> job_info option" where
  "unmarshal_job_info s =
     (case unmarshal s of
        Some (JObj fs) \<Rightarrow> dec_job_info empty_job_info fs
      | Some JNull \<Rightarrow> Some empty_job_info
      | _ \<Rightarrow> None)"

datatype job_error =
    PullRequestParse string
  | UnknownRef string
  | InvalidRunID string
  | InvalidRunNumber string
  | IndexPanic
  | FileError string
  | JsonError

definition GetJobInfoFromFile :: "filesystem \<Rightarrow> string \<Rightarrow> job_error + job_info option" where
  "GetJobInfoFromFile fs file =
     (case fs file of
        ReadError e \<Rightarrow> Inl (FileError e)
      | NotExist \<Rightarrow> Inr None
      | Contents data \<Rightarrow>
          if data = [] then Inr None
          else (case unmarshal_job_info data of
                  None \<Rightarrow> Inl JsonError
                | Some j \<Rightarrow> Inr (Some j)))"

definition RepositoryURL :: "job_info \<Rightarrow> string" where
  "RepositoryURL j = ''https://github.com/'' @ Repository j"

definition WorkflowURL :: "job_info \<Rightarrow> string" where
  "WorkflowURL j = ''https://github.com/'' @ Repository j @ ''/actions/runs/'' @ itoa (RunID j)"

definition BranchTagURL :: "job_info \<Rightarrow> string" where
  "BranchTagURL j = ''https://github.com/'' @ Repository j @ ''/tree/'' @ GitRef j"

definition PullRequestURL :: "job_info \<Rightarrow> string" where
  "PullRequestURL j =
     (if PullRequestNum j = 0 then []
      else ''https://github.com/'' @ Repository j @ ''/pull/'' @ itoa (PullRequestNum j))"

record input_env =
  GITHUB_ACTOR :: string
  GITHUB_HEAD_REF :: string
  GITHUB_JOB :: string
  GITHUB_REF :: string
  GITHUB_REPOSITORY :: string
  GITHUB_RUN_ID :: string
  GITHUB_RUN_NUMBER :: string
  GITHUB_WORKFLOW :: string

definition readEnv :: "environ \<Rightarrow> input_env" where
  "readEnv env =
     \<lparr>GITHUB_ACTOR = getenv env ''GITHUB_ACTOR'', GITHUB_HEAD_REF = getenv env ''GITHUB_HEAD_REF'',
      GITHUB_JOB = getenv env ''GITHUB_JOB'', GITHUB_REF = getenv env ''GITHUB_REF'',
      GITHUB_REPOSITORY = getenv env ''GITHUB_REPOSITORY'',
      GITHUB_RUN_ID = getenv env ''GITHUB_RUN_ID'',
      GITHUB_RUN_NUMBER = getenv env ''GITHUB_RUN_NUMBER'',
      GITHUB_WORKFLOW = getenv env ''GITHUB_WORKFLOW''\<rparr>"

text \<open>The git ref and the pull request number, by the form of \<open>GITHUB_REF\<close>.\<close>

definition ref_of_env :: "input_env \<Rightarrow> job_error + string \<times> int" where
  "ref_of_env e =
     (if hasPrefix (GITHUB_REF e) ''refs/heads/'' then Inr (trimPrefix (GITHUB_REF e) ''refs/heads/'', 0)
      else if hasPrefix (GITHUB_REF e) ''refs/tags/'' then Inr (trimPrefix (GITHUB_REF e) ''refs/tags/'', 0)
      else if hasPrefix (GITHUB_REF e) ''refs/pull/'' then
        (case splitN_go 4 (CHR ''/'') (GITHUB_REF e) of
           _ # _ # num # _ \<Rightarrow>
             (case atoi num of
                None \<Rightarrow> Inl (PullRequestParse (GITHUB_REF e))
              | Some n \<Rightarrow> Inr (GITHUB_HEAD_REF e, n))
         | _ \<Rightarrow> Inl IndexPanic)
      else Inl (UnknownRef (GITHUB_REF e)))"

definition envToJobInfo :: "input_env \<Rightarrow> job_error + job_info" where
  "envToJobInfo e =
     (case ref_of_env e of
        Inl err \<Rightarrow> Inl err
      | Inr (gitRef, pr) \<Rightarrow>
          (case atoi (GITHUB_RUN_ID e) of
             None \<Rightarrow> Inl (InvalidRunID (GITHUB_RUN_ID e))
           | Some runID \<Rightarrow>
               (case atoi (GITHUB_RUN_NUMBER e) of
                  None \<Rightarrow> Inl (InvalidRunNumber (GITHUB_RUN_NUMBER e))
                | Some runNumber \<Rightarrow>
                    Inr \<lparr>Actor = GITHUB_ACTOR e, GitRef = gitRef, JobID = GITHUB_JOB e,
                         PullRequestNum = pr, Repository = GITHUB_REPOSITORY e, RunID = runID,
                         RunNumber = runNumber, WorkflowName = GITHUB_WORKFLOW e\<rparr>)))"

definition GetJobInfo :: "environ \<Rightarrow> job_error + job_info" where
  "GetJobInfo env = envToJobInfo (readEnv env)"

subsection \<open>Properties\<close>

definition job_info_in_range :: "job_info \<Rightarrow> bool" where
  "job_info_in_range j \<longleftrightarrow>
     int64_range (PullRequestNum j) \<and> int64_range (RunID j) \<and> int64_range (RunNumber j)"

lemma wf_job_info_json: "job_info_in_range j \<Longrightarrow> wf_json (job_info_json j)"
  by (simp add: job_info_json_def job_info_fields_def job_info_in_range_def wf_json_fields)

lemma job_info_values:
  "values_of ''actor'' (job_info_fields j) = (if Actor j \<noteq> [] then [JStr (Actor j)] else [])"
  "values_of ''git_ref'' (job_info_fields j) = (if GitRef j \<noteq> [] then [JStr (GitRef j)] else [])"
  "values_of ''job_id'' (job_info_fields j) = (if JobID j \<noteq> [] then [JStr (JobID j)] else [])"
  "values_of ''pull_request_number'' (job_info_fields j) =
     (if PullRequestNum j \<noteq> 0 then [JNum (itoa (PullRequestNum j))] else [])"
  "values_of ''repository'' (job_info_fields j) =
     (if Repository j \<noteq> [] then [JStr (Repository j)] else [])"
  "values_of ''run_id'' (job_info_fields j) = (if RunID j \<noteq> 0 then [JNum (itoa (RunID j))] else [])"
  "values_of ''run_number'' (job_info_fields j) =
     (if RunNumber j \<noteq> 0 then [JNum (itoa (RunNumber j))] else [])"
  "values_of ''workflow_name'' (job_info_fields j) =
     (if WorkflowName j \<noteq> [] then [JStr (WorkflowName j)] else [])"
proof -
  have lower: "map to_lower ''actor'' = ''actor''" "map to_lower ''git_ref'' = ''git_ref''"
    "map to_lower ''job_id'' = ''job_id''"
    "map to_lower ''pull_request_number'' = ''pull_request_number''"
    "map to_lower ''repository'' = ''repository''" "map to_lower ''run_id'' = ''run_id''"
    "map to_lower ''run_number'' = ''run_number''" "map to_lower ''workflow_name'' = ''workflow_name''"
    by code_simp+
  show "values_of ''actor'' (job_info_fields j) = (if Actor j \<noteq> [] then [JStr (Actor j)] else [])"
    "values_of ''git_ref'' (job_info_fields j) = (if GitRef j \<noteq> [] then [JStr (GitRef j)] else [])"
    "values_of ''job_id'' (job_info_fields j) = (if JobID j \<noteq> [] then [JStr (JobID j)] else [])"
    "values_of ''pull_request_number'' (job_info_fields j) =
       (if PullRequestNum j \<noteq> 0 then [JNum (itoa (PullRequestNum j))] else [])"
    "values_of ''repository'' (job_info_fields j) =
       (if Repository j \<noteq> [] then [JStr (Repository j)] else [])"
    "values_of ''run_id'' (job_info_fields j) = (if RunID j \<noteq> 0 then [JNum (itoa (RunID j))] else [])"
    "values_of ''run_number'' (job_info_fields j) =
       (if RunNumber j \<noteq> 0 then [JNum (itoa (RunNumber j))] else [])"
    "values_of ''workflow_name'' (job_info_fields j) =
       (if WorkflowName j \<noteq> [] then [JStr (WorkflowName j)] else [])"
    unfolding job_info_fields_def values_of_simps lower by simp_all
qed

lemma dec_job_info_fields:
  "job_info_in_range j \<Longrightarrow> dec_job_info empty_job_info (job_info_fields j) = Some j"
  by (simp add: dec_job_info_def job_info_values dec_omitted job_info_in_range_def empty_job_info_def
      del: if_split)

lemma unmarshal_job_info_print:
  "job_info_in_range j \<Longrightarrow> unmarshal_job_info (print_json (job_info_json j)) = Some j"
  using unmarshal_print [OF wf_job_info_json]
  by (simp add: unmarshal_job_info_def dec_job_info_fields) (simp add: job_info_json_def dec_job_info_fields)

lemma splitN4_pull:
  assumes "hasPrefix r ''refs/pull/''"
  shows "\<exists>num rest. splitN_go 4 (CHR ''/'') r = ''refs'' # ''pull'' # num # rest \<and>
    num = takeWhile (\<lambda>c. c \<noteq> CHR ''/'') (drop 10 r)"
proof -
  obtain x where r: "r = ''refs/pull/'' @ x" using assms by (auto simp: hasPrefix_iff)
  show ?thesis unfolding r
    by (auto simp: numeral_eq_Suc intro!: takeWhile_eq_all_conv [THEN iffD2, symmetric])
qed

lemma ref_of_env_no_panic: "ref_of_env e \<noteq> Inl IndexPanic"
  using splitN4_pull [of "GITHUB_REF e"]
  by (auto simp: ref_of_env_def split: option.splits)

lemma envToJobInfo_no_panic: "envToJobInfo e \<noteq> Inl IndexPanic"
  using ref_of_env_no_panic [of e]
  by (auto simp: envToJobInfo_def split: sum.splits option.splits)

lemma ref_of_env_range: "ref_of_env e = Inr (g, n) \<Longrightarrow> int64_range n"
  by (auto simp: ref_of_env_def atoi_range int64_range_def [of 0]
      split: if_splits list.splits option.splits)

lemma envToJobInfo_in_range: "envToJobInfo e = Inr j \<Longrightarrow> job_info_in_range j"
  by (auto simp: envToJobInfo_def job_info_in_range_def atoi_range ref_of_env_range
      split: sum.splits option.splits)

lemma dec_int_range: "dec_int a vs = Some i \<Longrightarrow> int64_range a \<Longrightarrow> int64_range i"
  by (induction a vs rule: dec_int.induct) (auto simp: atoi_range split: option.splits)

lemma dec_job_info_range:
  "dec_job_info a fs = Some j \<Longrightarrow> job_info_in_range a \<Longrightarrow> job_info_in_range j"
  by (auto simp: dec_job_info_def job_info_in_range_def dec_int_range split: option.splits)

lemma empty_job_info_in_range: "job_info_in_range empty_job_info"
  by (simp add: job_info_in_range_def empty_job_info_def int64_range_def)

lemma unmarshal_job_info_range: "unmarshal_job_info s = Some j \<Longrightarrow> job_info_in_range j"
  by (auto simp: unmarshal_job_info_def empty_job_info_in_range
      intro: dec_job_info_range split: option.splits json.splits)

lemma GetJobInfoFromFile_range:
  "GetJobInfoFromFile fs f = Inr (Some j) \<Longrightarrow> job_info_in_range j"
  by (auto simp: GetJobInfoFromFile_def unmarshal_job_info_range
      split: file_read.splits if_splits option.splits)

end
