(* ===== verification/Metrics.thy ===== *)
theory Metrics
  imports Constants
begin

section \<open>metrics/controller.go and metrics/runner.go\<close>

text \<open>
  The Prometheus vectors of the controller and of the runner pod. A vector is the partial map from
  its label values to the value of the exported series: \<open>WithLabelValues(l).Set(x)\<close> stores, and
  \<open>DeleteLabelValues(l)\<close> removes. The package-level variables of the controller's metrics are the
  record \<open>controller_metrics\<close>; \<open>runnerLabelSet\<close> is the package's own book of which runners of a
  pool have a series. The invariant \<open>metrics_wf\<close> ties that book to the exported series; every operation
  keeps it.
\<close>

subsection \<open>Controller metrics\<close>

record controller_metrics =
  RunnerPoolSecretRetryCount :: "string \<rightharpoonup> nat"
  runnerPoolReplicas :: "string \<rightharpoonup> int"
  runnerOnlineVec :: "string \<times> string \<rightharpoonup> int"
  runnerBusyVec :: "string \<times> string \<rightharpoonup> int"
  runnerLabelSet :: "string \<rightharpoonup> string set"

definition InitControllerMetrics :: controller_metrics where
  "InitControllerMetrics =
     \<lparr>RunnerPoolSecretRetryCount = Map.empty, runnerPoolReplicas = Map.empty,
      runnerOnlineVec = Map.empty, runnerBusyVec = Map.empty, runnerLabelSet = Map.empty\<rparr>"

definition UpdateRunnerPoolMetrics :: "string \<Rightarrow> int \<Rightarrow> controller_metrics \<Rightarrow> controller_metrics" where
  "UpdateRunnerPoolMetrics runnerpool replicas m =
     m\<lparr>runnerPoolReplicas := (runnerPoolReplicas m)(runnerpool \<mapsto> replicas)\<rparr>"

definition DeleteRunnerPoolMetrics :: "string \<Rightarrow> controller_metrics \<Rightarrow> controller_metrics" where
  "DeleteRunnerPoolMetrics runnerpool m =
     m\<lparr>runnerPoolReplicas := (runnerPoolReplicas m)(runnerpool := None)\<rparr>"

definition UpdateRunnerMetrics ::
    "string \<Rightarrow> string \<Rightarrow> bool \<Rightarrow> bool \<Rightarrow> controller_metrics \<Rightarrow> controller_metrics" where
  "UpdateRunnerMetrics runnerpool runner online busy m =
     (let set0 = (case runnerLabelSet m runnerpool of None \<Rightarrow> {} | Some s \<Rightarrow> s)
      in m\<lparr>runnerLabelSet := (runnerLabelSet m)(runnerpool \<mapsto> insert runner set0),
           runnerOnlineVec := (runnerOnlineVec m)((runnerpool, runner) \<mapsto> (if online then 1 else 0)),
           runnerBusyVec := (runnerBusyVec m)((runnerpool, runner) \<mapsto> (if busy then 1 else 0))\<rparr>)"

text \<open>The loop body of \<open>DeleteRunnerMetrics\<close>: the two series and the entry of the label set.\<close>

definition delete_runner_series ::
    "string \<Rightarrow> string \<Rightarrow> controller_metrics \<times> string set \<Rightarrow> controller_metrics \<times> string set" where
  "delete_runner_series runnerpool r = (\<lambda>(m, labelSet).
     (m\<lparr>runnerOnlineVec := (runnerOnlineVec m)((runnerpool, r) := None),
        runnerBusyVec := (runnerBusyVec m)((runnerpool, r) := None)\<rparr>,
      labelSet - {r}))"

definition DeleteRunnerMetrics :: "string \<Rightarrow> string list \<Rightarrow> controller_metrics \<Rightarrow> controller_metrics" where
  "DeleteRunnerMetrics runnerpool runners m =
     (case runnerLabelSet m runnerpool of
        None \<Rightarrow> m
      | Some labelSet0 \<Rightarrow>
          let (m', labelSet) = fold (delete_runner_series runnerpool) runners (m, labelSet0)
          in m'\<lparr>runnerLabelSet :=
                  (runnerLabelSet m')(runnerpool := (if labelSet = {} then None else Some labelSet))\<rparr>)"

definition DeleteAllRunnerMetrics :: "string \<Rightarrow> controller_metrics \<Rightarrow> controller_metrics" where
  "DeleteAllRunnerMetrics runnerpool m =
     (case runnerLabelSet m runnerpool of
        None \<Rightarrow> m
      | Some labelSet \<Rightarrow>
          m\<lparr>runnerOnlineVec := (\<lambda>(p, r). if p = runnerpool \<and> r \<in> labelSet then None else runnerOnlineVec m (p, r)),
            runnerBusyVec := (\<lambda>(p, r). if p = runnerpool \<and> r \<in> labelSet then None else runnerBusyVec m (p, r)),
            runnerLabelSet := (runnerLabelSet m)(runnerpool := None)\<rparr>)"

definition IncSecretRetryCount :: "string \<Rightarrow> controller_metrics \<Rightarrow> controller_metrics" where
  "IncSecretRetryCount runnerpool m =
     m\<lparr>RunnerPoolSecretRetryCount := (RunnerPoolSecretRetryCount m)(runnerpool \<mapsto>
        (case RunnerPoolSecretRetryCount m runnerpool of None \<Rightarrow> 1 | Some n \<Rightarrow> Suc n))\<rparr>"

definition DeleteSecretRetryCount :: "string \<Rightarrow> controller_metrics \<Rightarrow> controller_metrics" where
  "DeleteSecretRetryCount runnerpool m =
     m\<lparr>RunnerPoolSecretRetryCount := (RunnerPoolSecretRetryCount m)(runnerpool := None)\<rparr>"

text \<open>The runners of a pool that the book of labels knows.\<close>

definition labelled :: "controller_metrics \<Rightarrow> string \<Rightarrow> string set" where
  "labelled m p = (case runnerLabelSet m p of None \<Rightarrow> {} | Some s \<Rightarrow> s)"

text \<open>
  What is exported about the runners of a pool: those with an online series and those with a busy series; and
  everything that is exported about a pool, with the values.
\<close>

definition exported :: "controller_metrics \<Rightarrow> string \<Rightarrow> string set \<times> string set" where
  "exported m p = ({r. runnerOnlineVec m (p, r) \<noteq> None}, {r. runnerBusyVec m (p, r) \<noteq> None})"

definition pool_series ::
    "controller_metrics \<Rightarrow> string \<Rightarrow> (string \<rightharpoonup> int) \<times> (string \<rightharpoonup> int) \<times> int option \<times> nat option" where
  "pool_series m p =
     (\<lambda>r. runnerOnlineVec m (p, r), \<lambda>r. runnerBusyVec m (p, r), runnerPoolReplicas m p, RunnerPoolSecretRetryCount m p)"

definition no_series :: "(string \<rightharpoonup> int) \<times> (string \<rightharpoonup> int) \<times> int option \<times> nat option" where
  "no_series = (Map.empty, Map.empty, None, None)"

definition metrics_wf :: "controller_metrics \<Rightarrow> bool" where
  "metrics_wf m \<longleftrightarrow>
     (\<forall>p r. (runnerOnlineVec m (p, r) = None \<longleftrightarrow> r \<notin> labelled m p) \<and>
            (runnerBusyVec m (p, r) = None \<longleftrightarrow> r \<notin> labelled m p)) \<and>
     (\<forall>p. runnerLabelSet m p \<noteq> Some {})"

lemma metrics_wf_init: "metrics_wf InitControllerMetrics"
  by (simp add: metrics_wf_def InitControllerMetrics_def labelled_def)

lemma exported_labelled: "metrics_wf m \<Longrightarrow> exported m p = (labelled m p, labelled m p)"
  by (auto simp: metrics_wf_def exported_def)

lemma no_series_iff:
  "pool_series m p = no_series \<longleftrightarrow>
     exported m p = ({}, {}) \<and> runnerPoolReplicas m p = None \<and> RunnerPoolSecretRetryCount m p = None"
  by (auto simp: pool_series_def no_series_def exported_def fun_eq_iff)

lemma metrics_wf_UpdateRunnerPoolMetrics [simp]: "metrics_wf (UpdateRunnerPoolMetrics p n m) = metrics_wf m"
  by (simp add: metrics_wf_def UpdateRunnerPoolMetrics_def labelled_def)

lemma metrics_wf_DeleteRunnerPoolMetrics [simp]: "metrics_wf (DeleteRunnerPoolMetrics p m) = metrics_wf m"
  by (simp add: metrics_wf_def DeleteRunnerPoolMetrics_def labelled_def)

lemma metrics_wf_IncSecretRetryCount [simp]: "metrics_wf (IncSecretRetryCount p m) = metrics_wf m"
  by (simp add: metrics_wf_def IncSecretRetryCount_def labelled_def)

lemma metrics_wf_DeleteSecretRetryCount [simp]: "metrics_wf (DeleteSecretRetryCount p m) = metrics_wf m"
  by (simp add: metrics_wf_def DeleteSecretRetryCount_def labelled_def)

lemma labelled_frame [frame_simps]:
  "labelled (UpdateRunnerPoolMetrics p n m) = labelled m"
  "labelled (DeleteRunnerPoolMetrics p m) = labelled m"
  "labelled (IncSecretRetryCount p m) = labelled m"
  "labelled (DeleteSecretRetryCount p m) = labelled m"
  by (simp_all add: fun_eq_iff labelled_def UpdateRunnerPoolMetrics_def DeleteRunnerPoolMetrics_def
      IncSecretRetryCount_def DeleteSecretRetryCount_def)

lemma labelled_UpdateRunnerMetrics:
  "labelled (UpdateRunnerMetrics p r on bu m) = (labelled m)(p := insert r (labelled m p))"
  by (auto simp: fun_eq_iff labelled_def UpdateRunnerMetrics_def Let_def split: option.splits)

lemma metrics_wf_UpdateRunnerMetrics: "metrics_wf m \<Longrightarrow> metrics_wf (UpdateRunnerMetrics p r on bu m)"
  unfolding metrics_wf_def labelled_UpdateRunnerMetrics
  by (auto simp: UpdateRunnerMetrics_def Let_def split: option.splits)

lemma fold_delete_runner_series:
  "fold (delete_runner_series p) rs (m, s) =
     (m\<lparr>runnerOnlineVec := (\<lambda>(q, r). if q = p \<and> r \<in> set rs then None else runnerOnlineVec m (q, r)),
        runnerBusyVec := (\<lambda>(q, r). if q = p \<and> r \<in> set rs then None else runnerBusyVec m (q, r))\<rparr>,
      s - set rs)"
proof (induction rs arbitrary: m s)
  case Nil
  show ?case by (simp add: case_prod_eta)
next
  case (Cons a rs)
  have step: "delete_runner_series p a (m, s) =
      (m\<lparr>runnerOnlineVec := (runnerOnlineVec m)((p, a) := None),
         runnerBusyVec := (runnerBusyVec m)((p, a) := None)\<rparr>, s - {a})"
    by (simp add: delete_runner_series_def)
  show ?case
    by (auto simp: step Cons fun_eq_iff intro!: arg_cong2 [where f = "\<lambda>x y. m\<lparr>runnerOnlineVec := x, runnerBusyVec := y\<rparr>"])
qed

lemma DeleteRunnerMetrics_eq:
  "DeleteRunnerMetrics p rs m =
     (case runnerLabelSet m p of
        None \<Rightarrow> m
      | Some s \<Rightarrow>
          m\<lparr>runnerOnlineVec := (\<lambda>(q, r). if q = p \<and> r \<in> set rs then None else runnerOnlineVec m (q, r)),
            runnerBusyVec := (\<lambda>(q, r). if q = p \<and> r \<in> set rs then None else runnerBusyVec m (q, r)),
            runnerLabelSet := (runnerLabelSet m)(p := (if s \<subseteq> set rs then None else Some (s - set rs)))\<rparr>)"
  by (auto simp: DeleteRunnerMetrics_def fold_delete_runner_series split: option.splits)

lemma labelled_DeleteRunnerMetrics:
  "labelled (DeleteRunnerMetrics p rs m) = (labelled m)(p := labelled m p - set rs)"
  by (auto simp: fun_eq_iff labelled_def DeleteRunnerMetrics_eq split: option.splits)

lemma metrics_wf_DeleteRunnerMetrics: "metrics_wf m \<Longrightarrow> metrics_wf (DeleteRunnerMetrics p rs m)"
  unfolding metrics_wf_def labelled_DeleteRunnerMetrics
  by (auto simp: DeleteRunnerMetrics_eq labelled_def split: option.splits)

lemma labelled_DeleteAllRunnerMetrics:
  "labelled (DeleteAllRunnerMetrics p m) = (labelled m)(p := {})"
  by (auto simp: fun_eq_iff labelled_def DeleteAllRunnerMetrics_def split: option.splits)

lemma metrics_wf_DeleteAllRunnerMetrics: "metrics_wf m \<Longrightarrow> metrics_wf (DeleteAllRunnerMetrics p m)"
  unfolding metrics_wf_def labelled_DeleteAllRunnerMetrics
  by (cases "runnerLabelSet m p") (auto simp: DeleteAllRunnerMetrics_def labelled_def)

text \<open>An operation on one pool leaves what is exported about the other pools alone.\<close>

lemma pool_series_frame:
  assumes "q \<noteq> p"
  shows "pool_series (UpdateRunnerPoolMetrics p n m) q = pool_series m q"
    "pool_series (DeleteRunnerPoolMetrics p m) q = pool_series m q"
    "pool_series (UpdateRunnerMetrics p r on bu m) q = pool_series m q"
    "pool_series (DeleteRunnerMetrics p rs m) q = pool_series m q"
    "pool_series (DeleteAllRunnerMetrics p m) q = pool_series m q"
    "pool_series (IncSecretRetryCount p m) q = pool_series m q"
    "pool_series (DeleteSecretRetryCount p m) q = pool_series m q"
  using assms
  by (simp_all add: pool_series_def UpdateRunnerPoolMetrics_def DeleteRunnerPoolMetrics_def UpdateRunnerMetrics_def
      DeleteRunnerMetrics_eq DeleteAllRunnerMetrics_def IncSecretRetryCount_def DeleteSecretRetryCount_def Let_def
      split: option.splits)

lemmas metrics_wf_ops =
  metrics_wf_UpdateRunnerMetrics metrics_wf_DeleteRunnerMetrics metrics_wf_DeleteAllRunnerMetrics

subsection \<open>Runner pod metrics\<close>

record pod_metrics =
  podStateVec :: "string \<rightharpoonup> int"
  listenerExitStateCountVec :: "string \<rightharpoonup> nat"

definition allRunnerPodState :: "string list" where
  "allRunnerPodState =
     [RunnerPodStateInitializing, RunnerPodStateRunning, RunnerPodStateDebugging, RunnerPodStateStale]"

definition InitRunnerPodMetrics :: pod_metrics where
  "InitRunnerPodMetrics = \<lparr>podStateVec = Map.empty, listenerExitStateCountVec = Map.empty\<rparr>"

definition UpdateRunnerPodState :: "string \<Rightarrow> pod_metrics \<Rightarrow> pod_metrics" where
  "UpdateRunnerPodState curState m =
     fold (\<lambda>state m. m\<lparr>podStateVec := (podStateVec m)(state \<mapsto> (if state = curState then 1 else 0))\<rparr>)
       allRunnerPodState m"

definition IncrementListenerExitState :: "string \<Rightarrow> pod_metrics \<Rightarrow> pod_metrics" where
  "IncrementListenerExitState state m =
     m\<lparr>listenerExitStateCountVec := (listenerExitStateCountVec m)(state \<mapsto>
        (case listenerExitStateCountVec m state of None \<Rightarrow> 1 | Some n \<Rightarrow> Suc n))\<rparr>"

text \<open>The count of an exit state, 0 where no series exists yet.\<close>

definition exit_count :: "pod_metrics \<Rightarrow> string \<Rightarrow> nat" where
  "exit_count m state = (case listenerExitStateCountVec m state of None \<Rightarrow> 0 | Some n \<Rightarrow> n)"

text \<open>The states whose series shows 1.\<close>

definition shown_states :: "pod_metrics \<Rightarrow> string set" where
  "shown_states m = {s. podStateVec m s = Some 1}"

lemma podStateVec_Update:
  "podStateVec (UpdateRunnerPodState cur m) s =
     (if s \<in> set allRunnerPodState then Some (if s = cur then 1 else 0) else podStateVec m s)"
  by (auto simp: UpdateRunnerPodState_def allRunnerPodState_def)

lemma exit_count_Update [frame_simps]: "exit_count (UpdateRunnerPodState cur m) = exit_count m"
  by (simp add: fun_eq_iff exit_count_def UpdateRunnerPodState_def allRunnerPodState_def)

lemma podStateVec_Increment [frame_simps]: "podStateVec (IncrementListenerExitState s m) = podStateVec m"
  by (simp add: IncrementListenerExitState_def)

lemma exit_count_Increment:
  "exit_count (IncrementListenerExitState s m) = (exit_count m)(s := Suc (exit_count m s))"
  by (auto simp: fun_eq_iff exit_count_def IncrementListenerExitState_def split: option.splits)

end
