(* ===== verification/Runner_Listener.thy ===== *)
theory Runner_Listener
  imports Job_Info Metrics
begin

section \<open>runner/enviroments.go, runner/helper.go and runner/listener.go\<close>

text \<open>
  How the runner process reads its configuration from the environment, how it starts commands, and
  the loop that keeps \<open>Runner.Listener\<close> running. Starting a process is a parameter (\<open>os_run\<close>), as is
  sleeping; both act on the state of the outside world \<open>'w\<close>.
\<close>

subsection \<open>environments\<close>

record environments =
  podName :: string
  podNamespace :: string
  runnerOrg :: string
  runnerRepo :: string
  runnerPoolName :: string
  setupCommand :: "string list"

datatype env_error = MustBeSet string | EitherMustBeSet string string | OptionUnmarshal string

definition validateRequiredEnvs :: "environments \<Rightarrow> env_error option" where
  "validateRequiredEnvs e =
     (if podName e = [] then Some (MustBeSet PodNameEnvName)
      else if podNamespace e = [] then Some (MustBeSet PodNamespaceEnvName)
      else if runnerPoolName e = [] then Some (MustBeSet RunnerPoolNameEnvName)
      else if (runnerOrg e = [] \<and> runnerRepo e = []) \<or> (runnerOrg e \<noteq> [] \<and> runnerRepo e \<noteq> [])
      then Some (EitherMustBeSet RunnerOrgEnvName RunnerRepoEnvName)
      else None)"

text \<open>The JSON form of \<open>Option\<close>, whose only field is the setup command.\<close>

definition option_json :: "string list \<Rightarrow> json" where
  "option_json cmd = JObj (if cmd = [] then [] else [(''setup_command'', JArr (map JStr cmd))])"

definition unmarshal_option :: "string \<Rightarrow> string list option" where
  "unmarshal_option s =
     (case unmarshal s of
        Some (JObj fs) \<Rightarrow> dec_str_slice [] (values_of ''setup_command'' fs)
      | Some JNull \<Rightarrow> Some []
      | _ \<Rightarrow> None)"

definition newRunnerEnvs :: "environ \<Rightarrow> env_error + environments" where
  "newRunnerEnvs env =
     (let envs = \<lparr>podName = getenv env PodNameEnvName, podNamespace = getenv env PodNamespaceEnvName,
                  runnerOrg = getenv env RunnerOrgEnvName, runnerRepo = getenv env RunnerRepoEnvName,
                  runnerPoolName = getenv env RunnerPoolNameEnvName, setupCommand = []\<rparr>
      in case validateRequiredEnvs envs of
           Some err \<Rightarrow> Inl err
         | None \<Rightarrow>
             (case unmarshal_option (getenv env RunnerOptionEnvName) of
                None \<Rightarrow> Inl (OptionUnmarshal RunnerOptionEnvName)
              | Some cmd \<Rightarrow> Inr (envs\<lparr>setupCommand := cmd\<rparr>)))"

lemma unmarshal_option_json: "unmarshal_option (print_json (option_json cmd)) = Some cmd"
proof -
  have "wf_json (option_json cmd)" by (auto simp: option_json_def list_all_iff)
  then have "unmarshal (print_json (option_json cmd)) = Some (option_json cmd)"
    by (rule unmarshal_print)
  then show ?thesis by (simp add: unmarshal_option_def option_json_def dec_str_elems_map)
qed

subsection \<open>helper: commands without the runner's own variables\<close>

definition rmList :: "string list" where
  "rmList = [PodNameEnvName, PodNamespaceEnvName, RunnerOrgEnvName, RunnerRepoEnvName,
             RunnerPoolNameEnvName, RunnerOptionEnvName]"

definition removedEnv :: "environ \<Rightarrow> environ" where
  "removedEnv env = filter (\<lambda>target. hd (splitN_go 2 (CHR ''='') target) \<notin> set rmList) env"

lemma splitN2_hd: "hd (splitN_go 2 (CHR ''='') e) = env_key e"
  using splitN_go_hd [of 1 "CHR ''=''" e] by (simp add: env_key_def numeral_2_eq_2)

lemma removedEnv_eq: "removedEnv env = filter (\<lambda>e. env_key e \<notin> set rmList) env"
  by (simp add: removedEnv_def splitN2_hd)

text \<open>The error of \<open>exec.Cmd.Run\<close>: the command ran and failed, or it could not run at all.\<close>

datatype run_error = ExitError string | NotRun string

record 'w os =
  os_run :: "string \<Rightarrow> string \<Rightarrow> string list \<Rightarrow> environ \<Rightarrow> 'w \<Rightarrow> (int \<times> run_error option) \<times> 'w"
  os_sleep :: "duration \<Rightarrow> 'w \<Rightarrow> 'w"
  os_environ :: environ

definition runCommand ::
    "'w os \<Rightarrow> string \<Rightarrow> string \<Rightarrow> string list \<Rightarrow> 'w \<Rightarrow> (int \<times> run_error option) \<times> 'w" where
  "runCommand os workDir commandStr args w =
     os_run os workDir commandStr args (removedEnv (os_environ os)) w"

subsection \<open>listenerImpl\<close>

text \<open>\<open>filepath.Join\<close> of clean, non-empty elements.\<close>

definition filepath_join :: "string list \<Rightarrow> string" where
  "filepath_join es = join_go ''/'' es"

record listener_impl =
  li_runnerDir :: string
  configCommand :: string
  listenerCommand :: string

definition NewListener :: "string \<Rightarrow> listener_impl" where
  "NewListener runnerDir =
     \<lparr>li_runnerDir = runnerDir, configCommand = filepath_join [runnerDir, ''config.sh''],
      listenerCommand = filepath_join [runnerDir, ''bin'', ''Runner.Listener'']\<rparr>"

definition configure ::
    "'w os \<Rightarrow> listener_impl \<Rightarrow> string list \<Rightarrow> 'w \<Rightarrow> run_error option \<times> 'w" where
  "configure os l configArgs w =
     (let ((code, err), w') = runCommand os (li_runnerDir l) (configCommand l) configArgs w in (err, w'))"

datatype listen_error = ListenerTerminated string | ListenerRunError run_error

definition launch :: "'w os \<Rightarrow> listener_impl \<Rightarrow> 'w \<Rightarrow> (int \<times> run_error option) \<times> 'w" where
  "launch os l w =
     runCommand os (li_runnerDir l) (listenerCommand l) [''run'', ''--startuptype'', ''service''] w"

text \<open>
  What one exit of \<open>Runner.Listener\<close> means: the loop returns (with an error or nil), or the exit is
  counted under a state and the listener is launched again.
\<close>

datatype exit_action = Return "listen_error option" | Relaunch string

definition exit_action_of :: "int \<times> run_error option \<Rightarrow> exit_action" where
  "exit_action_of r =
     (case snd r of
        None \<Rightarrow> Return None
      | Some (NotRun e) \<Rightarrow> Return (Some (ListenerRunError (NotRun e)))
      | Some (ExitError e) \<Rightarrow>
          if fst r = 0 then Return None
          else if fst r = 1 then Return (Some (ListenerTerminated e))
          else if fst r = 2 then Relaunch ListenerExitStateRetryableError
          else if fst r = 3 \<or> fst r = 4 then Relaunch ListenerExitStateUpdating
          else Relaunch ListenerExitStateUndefined)"

text \<open>The loop may run forever, so a call that does not return is \<open>None\<close>.\<close>

partial_function (option) listen ::
    "'w os \<Rightarrow> listener_impl \<Rightarrow> 'w \<times> pod_metrics \<Rightarrow> (listen_error option \<times> 'w \<times> pod_metrics) option" where
  "listen os l s =
     (let (r, w') = launch os l (fst s)
      in case exit_action_of r of
           Return e \<Rightarrow> Some (e, w', snd s)
         | Relaunch st \<Rightarrow>
             listen os l (os_sleep os (10 * Second) w', IncrementListenerExitState st (snd s)))"

text \<open>The world after \<open>n\<close> launches that were each followed by the pause, and the result of the next.\<close>

fun after_launches :: "'w os \<Rightarrow> listener_impl \<Rightarrow> nat \<Rightarrow> 'w \<Rightarrow> 'w" where
  "after_launches os l 0 w = w"
| "after_launches os l (Suc n) w = after_launches os l n (os_sleep os (10 * Second) (snd (launch os l w)))"

definition nth_exit :: "'w os \<Rightarrow> listener_impl \<Rightarrow> nat \<Rightarrow> 'w \<Rightarrow> exit_action" where
  "nth_exit os l n w = exit_action_of (fst (launch os l (after_launches os l n w)))"

lemma nth_exit_Suc:
  "nth_exit os l (Suc n) w = nth_exit os l n (os_sleep os (10 * Second) (snd (launch os l w)))"
  by (simp add: nth_exit_def)

lemma listen_unfold_Return:
  "exit_action_of (fst (launch os l w)) = Return e \<Longrightarrow>
     listen os l (w, m) = Some (e, snd (launch os l w), m)"
  by (subst listen.simps) (simp add: Let_def case_prod_beta)

lemma listen_unfold_Relaunch:
  "exit_action_of (fst (launch os l w)) = Relaunch st \<Longrightarrow>
     listen os l (w, m) =
       listen os l (os_sleep os (10 * Second) (snd (launch os l w)), IncrementListenerExitState st m)"
  by (subst listen.simps) (simp add: Let_def case_prod_beta)

text \<open>The states under which the first \<open>n\<close> exits were counted.\<close>

definition relaunch_states :: "'w os \<Rightarrow> listener_impl \<Rightarrow> nat \<Rightarrow> 'w \<Rightarrow> string list" where
  "relaunch_states os l n w =
     map (\<lambda>i. case nth_exit os l i w of Relaunch st \<Rightarrow> st | Return e \<Rightarrow> []) [0..<n]"

lemma relaunch_states_Suc:
  "nth_exit os l 0 w = Relaunch st \<Longrightarrow>
     relaunch_states os l (Suc n) w =
       st # relaunch_states os l n (os_sleep os (10 * Second) (snd (launch os l w)))"
  by (simp add: relaunch_states_def upt_rec [of 0] nth_exit_Suc map_Suc_upt [symmetric]
      del: upt_Suc map_Suc_upt)

lemma listen_returns:
  assumes "\<And>i. i < n \<Longrightarrow> \<exists>st. nth_exit os l i w = Relaunch st"
    and "nth_exit os l n w = Return e"
  shows "listen os l (w, m) =
    Some (e, snd (launch os l (after_launches os l n w)),
          fold IncrementListenerExitState (relaunch_states os l n w) m)"
  using assms
proof (induction n arbitrary: w m)
  case 0
  then show ?case by (simp add: listen_unfold_Return nth_exit_def relaunch_states_def)
next
  case (Suc n)
  from Suc.prems(1) [of 0] obtain st where st: "nth_exit os l 0 w = Relaunch st" by auto
  let ?w = "os_sleep os (10 * Second) (snd (launch os l w))"
  have "listen os l (?w, IncrementListenerExitState st m) =
      Some (e, snd (launch os l (after_launches os l n ?w)),
            fold IncrementListenerExitState (relaunch_states os l n ?w) (IncrementListenerExitState st m))"
    by (rule Suc.IH) (use Suc.prems in \<open>auto simp flip: nth_exit_Suc\<close>)
  with st show ?case
    by (simp add: listen_unfold_Relaunch relaunch_states_Suc nth_exit_def)
qed

lemma exit_count_fold:
  "exit_count (fold IncrementListenerExitState sts m) s = exit_count m s + count_list sts s"
  by (induction sts arbitrary: m) (auto simp: exit_count_Increment)

end
