(* ===== verification/Go_Http.thy ===== *)
theory Go_Http
  imports Go_Json
begin

section \<open>net/http: requests, responses and the network\<close>

text \<open>
  What the program uses of \<open>net/http\<close>. A client names a URL; a server sees the path of it. The
  network between the two is a parameter of every client: a function from the request and the state
  of the world to a transport error or a response, and the new state of the world.
\<close>

record http_request =
  req_method :: string
  req_url :: string
  req_content_type :: string
  req_body :: string

record http_response =
  res_code :: int
  res_content_type :: string
  res_body :: string

type_synonym 'w network = "http_request \<Rightarrow> 'w \<Rightarrow> (string + http_response) \<times> 'w"

definition MethodGet :: string where "MethodGet = ''GET''"
definition MethodPut :: string where "MethodPut = ''PUT''"
definition MethodPost :: string where "MethodPost = ''POST''"

definition StatusOK :: int where "StatusOK = 200"
definition StatusCreated :: int where "StatusCreated = 201"
definition StatusNoContent :: int where "StatusNoContent = 204"
definition StatusBadRequest :: int where "StatusBadRequest = 400"
definition StatusNotFound :: int where "StatusNotFound = 404"
definition StatusMethodNotAllowed :: int where "StatusMethodNotAllowed = 405"
definition StatusUnsupportedMediaType :: int where "StatusUnsupportedMediaType = 415"
definition StatusInternalServerError :: int where "StatusInternalServerError = 500"

lemmas status_code_defs =
  StatusOK_def StatusCreated_def StatusNoContent_def StatusBadRequest_def StatusNotFound_def
  StatusMethodNotAllowed_def StatusUnsupportedMediaType_def StatusInternalServerError_def

lemmas http_method_defs = MethodGet_def MethodPut_def MethodPost_def

definition appjson :: string where "appjson = ''application/json''"

text \<open>A response with a status code and a body only.\<close>

definition plain_response :: "int \<Rightarrow> string \<Rightarrow> http_response" where
  "plain_response code body = \<lparr>res_code = code, res_content_type = [], res_body = body\<rparr>"

text \<open>
  The parts of a URL \<open>http://host:port/path\<close> that a server looks at: the host without the port, and
  the path with its leading slash.
\<close>

definition url_host :: "string \<Rightarrow> string" where
  "url_host u = takeWhile (\<lambda>c. c \<noteq> CHR '':'') (takeWhile (\<lambda>c. c \<noteq> CHR ''/'') (trimPrefix u ''http://''))"

definition url_path :: "string \<Rightarrow> string" where
  "url_path u = dropWhile (\<lambda>c. c \<noteq> CHR ''/'') (trimPrefix u ''http://'')"

text \<open>An address that can stand as a host in a URL: no separator of the URL syntax inside.\<close>

definition plain_host :: "string \<Rightarrow> bool" where
  "plain_host h \<longleftrightarrow> CHR '':'' \<notin> set h \<and> CHR ''/'' \<notin> set h"

lemma trimPrefix_http: "trimPrefix (''http://'' @ s) ''http://'' = s"
  by (rule trimPrefix_append)

lemma url_parts:
  assumes "plain_host h" "CHR ''/'' \<notin> set port"
  shows "url_host (''http://'' @ h @ '':'' @ port @ ''/'' @ p) = h"
    and "url_path (''http://'' @ h @ '':'' @ port @ ''/'' @ p) = ''/'' @ p"
proof -
  let ?hp = "h @ '':'' @ port"
  have hp: "\<And>x. x \<in> set ?hp \<Longrightarrow> x \<noteq> CHR ''/''"
    using assms by (auto simp: plain_host_def)
  have eq: "h @ '':'' @ port @ ''/'' @ p = ?hp @ ''/'' @ p" by simp
  have tw: "takeWhile (\<lambda>c. c \<noteq> CHR ''/'') (?hp @ ''/'' @ p) = ?hp"
    by (subst takeWhile_append2) (use hp in auto)
  have dw: "dropWhile (\<lambda>c. c \<noteq> CHR ''/'') (?hp @ ''/'' @ p) = ''/'' @ p"
    by (subst dropWhile_append2) (use hp in auto)
  have h: "takeWhile (\<lambda>c. c \<noteq> CHR '':'') ?hp = h"
    by (subst takeWhile_append2) (use assms in \<open>auto simp: plain_host_def\<close>)
  show "url_host (''http://'' @ h @ '':'' @ port @ ''/'' @ p) = h"
    unfolding url_host_def trimPrefix_http eq tw h ..
  show "url_path (''http://'' @ h @ '':'' @ port @ ''/'' @ p) = ''/'' @ p"
    unfolding url_path_def trimPrefix_http eq dw ..
qed

end
