(* ===== verification/Runner_Pod.thy ===== *)
theory Runner_Pod
  imports Runner_Listener Go_Http
begin

section \<open>runner/runner.go: the process inside a runner pod\<close>

text \<open>
  The entrypoint of a runner pod: one goroutine drives the GitHub Actions runner through its life
  (\<open>runListener\<close>), and an HTTP server answers \<open>GET /status\<close> and \<open>PUT /deletion_time\<close> at any moment.
  Both touch the status fields under one mutex. The goroutine is a machine with a program counter:
  \<open>listener_step\<close> is the code from one point to the next, and between any two things that a request could
  tell apart there is such a point, so also between the update of the metric of the state and the change of
  the state itself; \<open>pod_step\<close> interleaves it with HTTP requests and with changes of the outside world
  (the job writes its flag files). The reachable states satisfy \<open>pod_inv\<close>.
\<close>

subsection \<open>Data\<close>

definition JobResultSuccess :: string where "JobResultSuccess = ''success''"
definition JobResultFailure :: string where "JobResultFailure = ''failure''"
definition JobResultCancelled :: string where "JobResultCancelled = ''cancelled''"
definition JobResultUnknown :: string where "JobResultUnknown = ''unknown''"

lemmas job_result_defs =
  JobResultSuccess_def JobResultFailure_def JobResultCancelled_def JobResultUnknown_def

record runner =
  envs :: environments
  listenAddr :: string
  state :: string
  result :: string
  finishedAt :: "time option"
  deletionTime :: "time option"
  extend_flag :: "bool option"
  jobInfo :: "job_info option"
  slackChannel :: string
  runnerDir :: string
  workDir :: string
  tokenPath :: string
  jobInfoFile :: string
  slackChannelFile :: string
  startedFlagFile :: string
  extendFlagFile :: string
  failureFlagFile :: string
  cancelledFlagFile :: string
  successFlagFile :: string

record status =
  State :: string
  Result :: string
  FinishedAt :: "time option"
  DeletionTime :: "time option"
  Extend :: "bool option"
  JobInfo :: "job_info option"
  SlackChannel :: string

definition NewRunner ::
    "environ \<Rightarrow> string \<Rightarrow> string \<Rightarrow> string \<Rightarrow> string \<Rightarrow> env_error + runner" where
  "NewRunner env addr rdir wdir varDir =
     (case newRunnerEnvs env of
        Inl err \<Rightarrow> Inl err
      | Inr es \<Rightarrow>
          Inr \<lparr>envs = es, listenAddr = addr, state = [], result = [], finishedAt = None,
               deletionTime = None, extend_flag = None, jobInfo = None, slackChannel = [],
               runnerDir = rdir, workDir = wdir,
               tokenPath = filepath_join [varDir, SecretsDirName, RunnerTokenFileName],
               jobInfoFile = filepath_join [varDir, ''github.env''],
               slackChannelFile = filepath_join [varDir, ''slack_channel''],
               startedFlagFile = filepath_join [varDir, ''started''],
               extendFlagFile = filepath_join [varDir, ''extend''],
               failureFlagFile = filepath_join [varDir, ''failure''],
               cancelledFlagFile = filepath_join [varDir, ''cancelled''],
               successFlagFile = filepath_join [varDir, ''success'']\<rparr>)"

subsection \<open>Status and its JSON form\<close>

definition runner_status :: "runner \<Rightarrow> status" where
  "runner_status r =
     \<lparr>State = state r, Result = result r, FinishedAt = finishedAt r, DeletionTime = deletionTime r,
      Extend = extend_flag r, JobInfo = jobInfo r, SlackChannel = slackChannel r\<rparr>"

definition status_fields :: "status \<Rightarrow> (string \<times> json) list" where
  "status_fields st =
     omit_str ''state'' (State st) @ omit_str ''result'' (Result st) @
     omit_ptr ''finished_at'' (map_option json_time (FinishedAt st)) @
     omit_ptr ''deletion_time'' (map_option json_time (DeletionTime st)) @
     omit_ptr ''extend'' (map_option JBool (Extend st)) @
     omit_ptr ''job_info'' (map_option job_info_json (JobInfo st)) @
     omit_str ''slack_channel'' (SlackChannel st) @ []"

text \<open>\<open>json.Marshal(st)\<close> fails on a time whose year has no four digits.\<close>

definition time_ptr_ok :: "time option \<Rightarrow> bool" where
  "time_ptr_ok t \<longleftrightarrow> (case t of None \<Rightarrow> True | Some x \<Rightarrow> rfc3339_range x)"

definition marshal_status :: "status \<Rightarrow> string option" where
  "marshal_status st =
     (if time_ptr_ok (FinishedAt st) \<and> time_ptr_ok (DeletionTime st)
      then Some (print_json (JObj (status_fields st))) else None)"

definition empty_status :: status where
  "empty_status = \<lparr>State = [], Result = [], FinishedAt = None, DeletionTime = None, Extend = None,
     JobInfo = None, SlackChannel = []\<rparr>"

fun dec_job_info_ptr :: "job_info option \<Rightarrow> json list \<Rightarrow> job_info option option" where
  "dec_job_info_ptr a [] = Some a"
| "dec_job_info_ptr a (JNull # vs) = dec_job_info_ptr None vs"
| "dec_job_info_ptr a (JObj fs # vs) =
     (case dec_job_info (case a of None \<Rightarrow> empty_job_info | Some j \<Rightarrow> j) fs of
        None \<Rightarrow> None
      | Some j \<Rightarrow> dec_job_info_ptr (Some j) vs)"
| "dec_job_info_ptr a (_ # vs) = None"

definition unmarshal_status :: "string \<Rightarrow> status option" where
  "unmarshal_status s =
     (case unmarshal s of
        Some (JObj fs) \<Rightarrow>
          (case (dec_str [] (values_of ''state'' fs), dec_str [] (values_of ''result'' fs),
                 dec_time_ptr None (values_of ''finished_at'' fs),
                 dec_time_ptr None (values_of ''deletion_time'' fs),
                 dec_bool_ptr None (values_of ''extend'' fs),
                 dec_job_info_ptr None (values_of ''job_info'' fs),
                 dec_str [] (values_of ''slack_channel'' fs)) of
             (Some st, Some re, Some fi, Some de, Some ex, Some ji, Some sc) \<Rightarrow>
               Some \<lparr>State = st, Result = re, FinishedAt = fi, DeletionTime = de, Extend = ex,
                     JobInfo = ji, SlackChannel = sc\<rparr>
           | _ \<Rightarrow> None)
      | Some JNull \<Rightarrow> Some empty_status
      | _ \<Rightarrow> None)"

definition deletion_time_json :: "time \<Rightarrow> json" where
  "deletion_time_json t = JObj [(''deletion_time'', json_time t)]"

text \<open>Decoding a \<open>DeletionTimePayload\<close> from a request body: a missing field is the zero time.\<close>

definition decode_deletion_time :: "string \<Rightarrow> time option" where
  "decode_deletion_time body =
     (case decode_stream body of
        Some (JObj fs) \<Rightarrow> dec_time zero_time (values_of ''deletion_time'' fs)
      | Some JNull \<Rightarrow> Some zero_time
      | _ \<Rightarrow> None)"

subsection \<open>HTTP handlers\<close>

definition deletionTimeHandler :: "http_request \<Rightarrow> runner \<Rightarrow> http_response \<times> runner" where
  "deletionTimeHandler req r =
     (if req_method req \<noteq> MethodPut then (plain_response StatusMethodNotAllowed [], r)
      else if req_content_type req \<noteq> appjson then (plain_response StatusUnsupportedMediaType [], r)
      else case decode_deletion_time (req_body req) of
             None \<Rightarrow> (plain_response StatusBadRequest ''invalid body'', r)
           | Some t \<Rightarrow> (plain_response StatusNoContent [], r\<lparr>deletionTime := Some t\<rparr>))"

definition statusHandler :: "http_request \<Rightarrow> runner \<Rightarrow> http_response" where
  "statusHandler req r =
     (if req_method req \<noteq> MethodGet then plain_response StatusMethodNotAllowed []
      else case marshal_status (runner_status r) of
             None \<Rightarrow> plain_response StatusInternalServerError ''Failed to marshal status''
           | Some b \<Rightarrow> \<lparr>res_code = StatusOK, res_content_type = appjson, res_body = b\<rparr>)"

text \<open>The routes of \<open>Run\<close>; the metrics page is not modelled further.\<close>

definition runner_mux :: "http_request \<Rightarrow> runner \<Rightarrow> http_response \<times> runner" where
  "runner_mux req r =
     (let p = url_path (req_url req)
      in if p = ''/'' @ DeletionTimeEndpoint then deletionTimeHandler req r
         else if p = ''/'' @ StatusEndPoint then (statusHandler req r, r)
         else if p = ''/metrics'' then (plain_response StatusOK [], r)
         else (plain_response StatusNotFound [], r))"

subsection \<open>The goroutine runListener\<close>

text \<open>What the goroutine needs of the operating system beside commands: files and the clock.\<close>

record 'w pod_os = "'w os" +
  pos_files :: "'w \<Rightarrow> filesystem"
  pos_create :: "string \<Rightarrow> 'w \<Rightarrow> string option \<times> 'w"
  pos_now :: "'w \<Rightarrow> time"

datatype run_failure =
    CreateError string
  | SetupError run_error
  | TokenError string
  | ConfigureError run_error
  | ListenError listen_error

text \<open>
  Where the goroutine is. At \<open>L_stale\<close>, \<open>L_initialize\<close>, \<open>L_run\<close> and \<open>L_debug\<close> the metric shows the new state
  already and the state is to be set; at \<open>L_finished\<close> the listener has returned; \<open>L_wait\<close> blocks on \<open>ctx.Done()\<close>.
\<close>

datatype lpc =
    L_start
  | L_stale
  | L_initialize
  | L_setup
  | L_token
  | L_configure "string list"
  | L_run
  | L_listen
  | L_finished
  | L_debug
  | L_wait
  | L_failed run_failure

record 'w pod =
  rn :: runner
  pm :: pod_metrics
  pc :: lpc
  wd :: 'w

definition updateState :: "string \<Rightarrow> runner \<Rightarrow> runner" where
  "updateState s r = r\<lparr>state := s\<rparr>"

definition readSlackChannel :: "filesystem \<Rightarrow> runner \<Rightarrow> string + string" where
  "readSlackChannel fs r =
     (case fs (slackChannelFile r) of
        NotExist \<Rightarrow> Inl ''not exist''
      | ReadError e \<Rightarrow> Inl e
      | Contents s \<Rightarrow> Inr (trimRight s (CHR 10)))"

definition job_result :: "filesystem \<Rightarrow> runner \<Rightarrow> string" where
  "job_result fs r =
     (if isFileExists fs (failureFlagFile r) then JobResultFailure
      else if isFileExists fs (cancelledFlagFile r) then JobResultCancelled
      else if isFileExists fs (successFlagFile r) then JobResultSuccess
      else JobResultUnknown)"

definition updateToDebuggingState :: "filesystem \<Rightarrow> time \<Rightarrow> runner \<Rightarrow> runner" where
  "updateToDebuggingState fs now r =
     r\<lparr>state := RunnerPodStateDebugging, result := job_result fs r, finishedAt := Some now,
       extend_flag := Some (isFileExists fs (extendFlagFile r)),
       jobInfo := (case GetJobInfoFromFile fs (jobInfoFile r) of Inl e \<Rightarrow> None | Inr j \<Rightarrow> j),
       slackChannel := (case readSlackChannel fs r of Inl e \<Rightarrow> [] | Inr c \<Rightarrow> c)\<rparr>"

definition config_url :: "environments \<Rightarrow> string" where
  "config_url es = ''https://github.com/'' @ (if runnerOrg es \<noteq> [] then runnerOrg es else runnerRepo es)"

definition config_args :: "runner \<Rightarrow> string \<Rightarrow> string list" where
  "config_args r token =
     [''--unattended'', ''--replace'', ''--name'', podName (envs r),
      ''--labels'', podNamespace (envs r) @ ''/'' @ runnerPoolName (envs r),
      ''--url'', config_url (envs r), ''--token'', token, ''--work'', workDir r,
      ''--ephemeral'', ''--disableupdate'']"

fun listener_step :: "'w pod_os \<Rightarrow> listener_impl \<Rightarrow> 'w pod \<Rightarrow> 'w pod" where
  "listener_step os l p =
     (let r = rn p; w = wd p in
      case pc p of
        L_start \<Rightarrow>
          if isFileExists (pos_files os w) (startedFlagFile r)
          then p\<lparr>pm := UpdateRunnerPodState RunnerPodStateStale (pm p), pc := L_stale\<rparr>
          else (case pos_create os (startedFlagFile r) w of
                  (Some e, w') \<Rightarrow> p\<lparr>wd := w', pc := L_failed (CreateError e)\<rparr>
                | (None, w') \<Rightarrow>
                    p\<lparr>wd := w', pm := UpdateRunnerPodState RunnerPodStateInitializing (pm p), pc := L_initialize\<rparr>)
      | L_stale \<Rightarrow> p\<lparr>rn := updateState RunnerPodStateStale r, pc := L_wait\<rparr>
      | L_initialize \<Rightarrow> p\<lparr>rn := updateState RunnerPodStateInitializing r, pc := L_setup\<rparr>
      | L_setup \<Rightarrow>
          (case setupCommand (envs r) of
             [] \<Rightarrow> p\<lparr>pc := L_token\<rparr>
           | c # args \<Rightarrow>
               (case runCommand (os.truncate os) (runnerDir r) c args w of
                  ((code, Some e), w') \<Rightarrow> p\<lparr>wd := w', pc := L_failed (SetupError e)\<rparr>
                | ((code, None), w') \<Rightarrow> p\<lparr>wd := w', pc := L_token\<rparr>))
      | L_token \<Rightarrow>
          (case pos_files os w (tokenPath r) of
             Contents b \<Rightarrow> p\<lparr>pc := L_configure (config_args r b)\<rparr>
           | NotExist \<Rightarrow> p\<lparr>pc := L_failed (TokenError (tokenPath r))\<rparr>
           | ReadError e \<Rightarrow> p\<lparr>pc := L_failed (TokenError (tokenPath r))\<rparr>)
      | L_configure args \<Rightarrow>
          (case configure (os.truncate os) l args w of
             (Some e, w') \<Rightarrow> p\<lparr>wd := w', pc := L_failed (ConfigureError e)\<rparr>
           | (None, w') \<Rightarrow>
               p\<lparr>wd := w', pm := UpdateRunnerPodState RunnerPodStateRunning (pm p), pc := L_run\<rparr>)
      | L_run \<Rightarrow> p\<lparr>rn := updateState RunnerPodStateRunning r, pc := L_listen\<rparr>
      | L_listen \<Rightarrow>
          (case listen (os.truncate os) l (w, pm p) of
             None \<Rightarrow> p
           | Some (Some e, w', m') \<Rightarrow> p\<lparr>wd := w', pm := m', pc := L_failed (ListenError e)\<rparr>
           | Some (None, w', m') \<Rightarrow> p\<lparr>wd := w', pm := m', pc := L_finished\<rparr>)
      | L_finished \<Rightarrow> p\<lparr>pm := UpdateRunnerPodState RunnerPodStateDebugging (pm p), pc := L_debug\<rparr>
      | L_debug \<Rightarrow> p\<lparr>rn := updateToDebuggingState (pos_files os w) (pos_now os w) r, pc := L_wait\<rparr>
      | L_wait \<Rightarrow> p
      | L_failed e \<Rightarrow> p)"

declare listener_step.simps [simp del]

definition new_pod :: "runner \<Rightarrow> 'w \<Rightarrow> 'w pod" where
  "new_pod r w = \<lparr>rn = r, pm = InitRunnerPodMetrics, pc = L_start, wd = w\<rparr>"

inductive pod_step :: "'w pod_os \<Rightarrow> listener_impl \<Rightarrow> 'w pod \<Rightarrow> 'w pod \<Rightarrow> bool" for os l where
  goroutine: "pod_step os l p (listener_step os l p)"
| request: "pod_step os l p (p\<lparr>rn := snd (runner_mux req (rn p))\<rparr>)"
| world: "pod_step os l p (p\<lparr>wd := w'\<rparr>)"

inductive pod_reachable :: "'w pod_os \<Rightarrow> listener_impl \<Rightarrow> 'w pod \<Rightarrow> 'w pod \<Rightarrow> bool" for os l p0 where
  pod_start: "pod_reachable os l p0 p0"
| pod_next: "pod_reachable os l p0 p \<Longrightarrow> pod_step os l p p' \<Longrightarrow> pod_reachable os l p0 p'"

subsection \<open>What the status fields say\<close>

definition job_info_ptr_ok :: "job_info option \<Rightarrow> bool" where
  "job_info_ptr_ok j \<longleftrightarrow> (case j of None \<Rightarrow> True | Some x \<Rightarrow> job_info_in_range x)"

text \<open>
  The debugging state comes with all the fields of a finished job and no other state has any of
  them, whatever requests arrive; the deletion time alone is free.
\<close>

definition status_wf :: "status \<Rightarrow> bool" where
  "status_wf st \<longleftrightarrow>
     State st \<in> {[], RunnerPodStateInitializing, RunnerPodStateRunning, RunnerPodStateDebugging,
                 RunnerPodStateStale} \<and>
     job_info_ptr_ok (JobInfo st) \<and>
     (if State st = RunnerPodStateDebugging
      then FinishedAt st \<noteq> None \<and> Extend st \<noteq> None \<and>
           Result st \<in> {JobResultSuccess, JobResultFailure, JobResultCancelled, JobResultUnknown}
      else FinishedAt st = None \<and> Extend st = None \<and> Result st = [] \<and> JobInfo st = None \<and>
           SlackChannel st = [])"

definition state_at :: "lpc \<Rightarrow> string set" where
  "state_at q =
     (case q of
        L_start \<Rightarrow> {[]}
      | L_stale \<Rightarrow> {[]}
      | L_initialize \<Rightarrow> {[]}
      | L_setup \<Rightarrow> {RunnerPodStateInitializing}
      | L_token \<Rightarrow> {RunnerPodStateInitializing}
      | L_configure args \<Rightarrow> {RunnerPodStateInitializing}
      | L_run \<Rightarrow> {RunnerPodStateInitializing}
      | L_listen \<Rightarrow> {RunnerPodStateRunning}
      | L_finished \<Rightarrow> {RunnerPodStateRunning}
      | L_debug \<Rightarrow> {RunnerPodStateRunning}
      | L_wait \<Rightarrow> {RunnerPodStateStale, RunnerPodStateDebugging}
      | L_failed e \<Rightarrow> {[], RunnerPodStateInitializing, RunnerPodStateRunning})"

definition pod_inv :: "'w pod \<Rightarrow> bool" where
  "pod_inv p \<longleftrightarrow> status_wf (runner_status (rn p)) \<and> state (rn p) \<in> state_at (pc p)"

text \<open>A runner as \<open>NewRunner\<close> makes it: no status yet.\<close>

definition fresh_runner :: "runner \<Rightarrow> bool" where
  "fresh_runner r \<longleftrightarrow> runner_status r = empty_status"

lemma NewRunner_fresh: "NewRunner env a rd wkd vd = Inr r \<Longrightarrow> fresh_runner r"
  by (auto simp: NewRunner_def fresh_runner_def runner_status_def empty_status_def split: sum.splits)

lemma empty_status_wf: "status_wf empty_status"
  by (simp add: status_wf_def empty_status_def job_info_ptr_ok_def pod_state_defs)

lemma pod_inv_new: "fresh_runner r \<Longrightarrow> pod_inv (new_pod r w)"
  using empty_status_wf
  by (simp add: pod_inv_def new_pod_def fresh_runner_def state_at_def)
     (simp add: runner_status_def empty_status_def)

lemma runner_mux_frame:
  "snd (runner_mux req r) = r\<lparr>deletionTime := deletionTime (snd (runner_mux req r))\<rparr>"
  by (simp add: runner_mux_def deletionTimeHandler_def Let_def split: option.splits)

lemma status_wf_deletionTime [simp]:
  "status_wf (runner_status (r\<lparr>deletionTime := d\<rparr>)) = status_wf (runner_status r)"
  by (simp add: status_wf_def runner_status_def)

lemma state_nonempty: "RunnerPodStateInitializing \<noteq> []" "RunnerPodStateRunning \<noteq> []"
  "RunnerPodStateDebugging \<noteq> []" "RunnerPodStateStale \<noteq> []"
  by (simp_all add: pod_state_defs)

lemma state_updateState [simp]: "state (updateState s r) = s"
  by (simp add: updateState_def)

lemma updateState_wf:
  "status_wf (runner_status r) \<Longrightarrow> state r \<noteq> RunnerPodStateDebugging \<Longrightarrow>
   s \<in> {RunnerPodStateInitializing, RunnerPodStateRunning, RunnerPodStateStale} \<Longrightarrow>
   status_wf (runner_status (updateState s r))"
  by (auto simp: status_wf_def runner_status_def updateState_def)

lemma job_result_in:
  "job_result fs r \<in> {JobResultSuccess, JobResultFailure, JobResultCancelled, JobResultUnknown}"
  by (simp add: job_result_def)

lemma updateToDebuggingState_wf: "status_wf (runner_status (updateToDebuggingState fs now r))"
  using job_result_in [of fs r]
  by (auto simp: status_wf_def runner_status_def updateToDebuggingState_def job_info_ptr_ok_def
      dest: GetJobInfoFromFile_range split: sum.splits option.splits)

lemmas listener_step_def' = listener_step.simps [unfolded Let_def]

lemma listener_step_inv: "pod_inv p \<Longrightarrow> pod_inv (listener_step os l p)"
proof (cases "pc p")
  case L_start
  assume "pod_inv p"
  with L_start show ?thesis
    by (auto simp: listener_step_def' pod_inv_def state_at_def updateState_wf
        state_nonempty [symmetric] split: option.splits prod.splits)
next
  case L_setup
  assume "pod_inv p"
  with L_setup show ?thesis
    by (auto simp: listener_step_def' pod_inv_def state_at_def split: list.splits prod.splits option.splits)
next
  case L_token
  assume "pod_inv p"
  with L_token show ?thesis
    by (auto simp: listener_step_def' pod_inv_def state_at_def split: file_read.splits)
next
  case (L_configure args)
  assume "pod_inv p"
  with L_configure show ?thesis
    by (auto simp: listener_step_def' pod_inv_def state_at_def updateState_wf
        split: prod.splits option.splits)
next
  case L_listen
  assume "pod_inv p"
  with L_listen show ?thesis
    by (auto simp: listener_step_def' pod_inv_def state_at_def split: prod.splits option.splits)
next
  case L_debug
  assume "pod_inv p"
  with L_debug show ?thesis
    by (simp add: listener_step_def' pod_inv_def state_at_def updateToDebuggingState_wf)
       (simp add: updateToDebuggingState_def)
qed (auto simp: listener_step_def' pod_inv_def state_at_def updateState_wf state_nonempty [symmetric] pod_state_defs)

lemma pod_step_inv: "pod_step os l p p' \<Longrightarrow> pod_inv p \<Longrightarrow> pod_inv p'"
proof (induction rule: pod_step.induct)
  case (goroutine p)
  then show ?case by (rule listener_step_inv)
next
  case (request p req)
  then show ?case
    unfolding pod_inv_def by (subst (1 2) runner_mux_frame) simp
next
  case (world p w')
  then show ?case by (simp add: pod_inv_def)
qed

lemma pod_reachable_inv: "pod_reachable os l p0 p \<Longrightarrow> pod_inv p0 \<Longrightarrow> pod_inv p"
  by (induction rule: pod_reachable.induct) (auto intro: pod_step_inv)


subsection \<open>The metrics show the state\<close>

lemma listen_podStateVec:
  assumes "listen os l s = Some (e, w', m')"
  shows "podStateVec m' = podStateVec (snd s)"
proof -
  have "(\<lambda>x. podStateVec (snd (snd x)) = podStateVec (snd s)) (e, w', m')"
  proof (rule listen.raw_induct [OF _ assms, where P = "\<lambda>os l s x. podStateVec (snd (snd x)) = podStateVec (snd s)"])
    fix listen os l s y
    assume IH: "\<And>a b c d. listen a b c = Some d \<Longrightarrow> podStateVec (snd (snd d)) = podStateVec (snd c)"
      and y: "(let (r, w') = launch os l (fst s)
        in case exit_action_of r of Return e \<Rightarrow> Some (e, w', snd s)
           | Relaunch st \<Rightarrow> listen os l (os_sleep os (10 * Second) w', IncrementListenerExitState st (snd s))) = Some y"
    then show "podStateVec (snd (snd y)) = podStateVec (snd s)"
      by (auto simp: Let_def frame_simps dest!: IH split: prod.splits exit_action.splits)
  qed
  then show ?thesis by simp
qed

text \<open>The state that the metric shows already and that the goroutine sets next.\<close>

definition announced :: "lpc \<Rightarrow> string option" where
  "announced q =
     (case q of
        L_stale \<Rightarrow> Some RunnerPodStateStale
      | L_initialize \<Rightarrow> Some RunnerPodStateInitializing
      | L_run \<Rightarrow> Some RunnerPodStateRunning
      | L_debug \<Rightarrow> Some RunnerPodStateDebugging
      | _ \<Rightarrow> None)"

definition metrics_inv :: "'w pod \<Rightarrow> bool" where
  "metrics_inv p \<longleftrightarrow>
     shown_states (pm p) = {case announced (pc p) of Some s \<Rightarrow> s | None \<Rightarrow> state (rn p)} - {[]}"

lemma shown_states_Update:
  "shown_states m \<subseteq> set allRunnerPodState \<Longrightarrow> cur \<in> set allRunnerPodState \<Longrightarrow>
     shown_states (UpdateRunnerPodState cur m) = {cur}"
  by (auto simp: shown_states_def podStateVec_Update)

lemma wf_state_listed: "status_wf (runner_status r) \<Longrightarrow> {state r} - {[]} \<subseteq> set allRunnerPodState"
  by (auto simp: status_wf_def runner_status_def allRunnerPodState_def)

lemma shown_Update_inv:
  assumes "pod_inv p" "metrics_inv p" "cur \<in> set allRunnerPodState"
  shows "shown_states (UpdateRunnerPodState cur (pm p)) = {cur}"
proof -
  have "announced q = Some s \<Longrightarrow> s \<in> set allRunnerPodState" for q s
    by (auto simp: announced_def allRunnerPodState_def split: lpc.splits)
  then have "shown_states (pm p) \<subseteq> set allRunnerPodState"
    using assms wf_state_listed by (fastforce simp: pod_inv_def metrics_inv_def split: option.splits)
  then show ?thesis using assms(3) by (rule shown_states_Update)
qed

lemma listed_states [simp]:
  "RunnerPodStateInitializing \<in> set allRunnerPodState" "RunnerPodStateRunning \<in> set allRunnerPodState"
  "RunnerPodStateDebugging \<in> set allRunnerPodState" "RunnerPodStateStale \<in> set allRunnerPodState"
  by (simp_all add: allRunnerPodState_def)

lemma state_updateToDebuggingState [simp]:
  "state (updateToDebuggingState fs now r) = RunnerPodStateDebugging"
  by (simp add: updateToDebuggingState_def)

lemma listener_step_metrics:
  assumes "pod_inv p" "metrics_inv p"
  shows "metrics_inv (listener_step os l p)"
proof (cases "pc p")
  case L_listen
  have "shown_states m' = shown_states (pm p)"
    if "listen (os.truncate os) l (wd p, pm p) = Some (e, w', m')" for e w' m'
    using listen_podStateVec [OF that] by (simp add: shown_states_def)
  with L_listen assms show ?thesis
    by (auto simp: listener_step_def' metrics_inv_def announced_def split: prod.splits option.splits)
qed (use assms shown_Update_inv [OF assms] state_nonempty in
      \<open>auto simp: listener_step_def' metrics_inv_def announced_def
         split: list.splits prod.splits option.splits file_read.splits\<close>)

lemma pod_step_metrics: "pod_step os l p p' \<Longrightarrow> pod_inv p \<Longrightarrow> metrics_inv p \<Longrightarrow> metrics_inv p'"
proof (induction rule: pod_step.induct)
  case (goroutine p)
  then show ?case by (intro listener_step_metrics)
next
  case (request p req)
  have "state (snd (runner_mux req (rn p))) = state (rn p)" by (subst runner_mux_frame) simp
  with request show ?case by (simp add: metrics_inv_def split: option.splits)
next
  case (world p w')
  then show ?case by (simp add: metrics_inv_def split: option.splits)
qed

definition next_states :: "string \<Rightarrow> string set" where
  "next_states s =
     (if s = [] then {RunnerPodStateInitializing, RunnerPodStateStale}
      else if s = RunnerPodStateInitializing then {RunnerPodStateRunning}
      else if s = RunnerPodStateRunning then {RunnerPodStateDebugging}
      else {})"

lemma next_states_simps [simp]:
  "next_states [] = {RunnerPodStateInitializing, RunnerPodStateStale}"
  "next_states RunnerPodStateInitializing = {RunnerPodStateRunning}"
  "next_states RunnerPodStateRunning = {RunnerPodStateDebugging}"
  "next_states RunnerPodStateDebugging = {}" "next_states RunnerPodStateStale = {}"
  by (simp_all add: next_states_def pod_state_defs)

lemma announced_nonempty: "announced q = Some s \<Longrightarrow> s \<noteq> []"
  by (auto simp: announced_def pod_state_defs split: lpc.splits)

lemma announced_next:
  assumes "announced (pc p) = Some s" "pod_inv p"
  shows "s \<in> next_states (state (rn p)) \<and> state (rn (listener_step os l p)) = s \<and>
    announced (pc (listener_step os l p)) = None"
proof -
  consider "pc p = L_stale" | "pc p = L_initialize" | "pc p = L_run" | "pc p = L_debug"
    using assms(1) by (auto simp: announced_def split: lpc.splits)
  then show ?thesis
    by cases (use assms in \<open>simp_all add: announced_def pod_inv_def state_at_def listener_step_def'\<close>)
qed

lemma metrics_inv_new: "fresh_runner r \<Longrightarrow> metrics_inv (new_pod r w)"
  by (simp add: metrics_inv_def announced_def new_pod_def shown_states_def InitRunnerPodMetrics_def fresh_runner_def
      runner_status_def empty_status_def)

lemma pod_reachable_metrics:
  "pod_reachable os l p0 p \<Longrightarrow> pod_inv p0 \<Longrightarrow> metrics_inv p0 \<Longrightarrow> metrics_inv p"
  by (induction rule: pod_reachable.induct) (auto intro: pod_step_metrics pod_reachable_inv)

subsection \<open>The order of the states\<close>

lemma listener_step_order:
  assumes "pod_inv p"
  shows "state (rn (listener_step os l p)) \<in> insert (state (rn p)) (next_states (state (rn p)))"
  using assms
  by (cases "pc p")
     (auto simp: listener_step_def' pod_inv_def state_at_def
        split: list.splits prod.splits option.splits file_read.splits)

lemma pod_step_order:
  "pod_step os l p p' \<Longrightarrow> pod_inv p \<Longrightarrow>
     state (rn p') \<in> insert (state (rn p)) (next_states (state (rn p)))"
proof (induction rule: pod_step.induct)
  case (goroutine p)
  then show ?case by (rule listener_step_order)
next
  case (request p req)
  then show ?case by (subst runner_mux_frame) simp
next
  case (world p w')
  show ?case by simp
qed

subsection \<open>The status on the wire\<close>

lemma status_values:
  "values_of ''state'' (status_fields st) = (if State st \<noteq> [] then [JStr (State st)] else [])"
  "values_of ''result'' (status_fields st) = (if Result st \<noteq> [] then [JStr (Result st)] else [])"
  "values_of ''finished_at'' (status_fields st) =
     (case FinishedAt st of None \<Rightarrow> [] | Some t \<Rightarrow> [json_time t])"
  "values_of ''deletion_time'' (status_fields st) =
     (case DeletionTime st of None \<Rightarrow> [] | Some t \<Rightarrow> [json_time t])"
  "values_of ''extend'' (status_fields st) = (case Extend st of None \<Rightarrow> [] | Some b \<Rightarrow> [JBool b])"
  "values_of ''job_info'' (status_fields st) =
     (case JobInfo st of None \<Rightarrow> [] | Some j \<Rightarrow> [job_info_json j])"
  "values_of ''slack_channel'' (status_fields st) =
     (if SlackChannel st \<noteq> [] then [JStr (SlackChannel st)] else [])"
proof -
  have lower: "map to_lower ''state'' = ''state''" "map to_lower ''result'' = ''result''"
    "map to_lower ''finished_at'' = ''finished_at''" "map to_lower ''deletion_time'' = ''deletion_time''"
    "map to_lower ''extend'' = ''extend''" "map to_lower ''job_info'' = ''job_info''"
    "map to_lower ''slack_channel'' = ''slack_channel''"
    by code_simp+
  show "values_of ''state'' (status_fields st) = (if State st \<noteq> [] then [JStr (State st)] else [])"
    "values_of ''result'' (status_fields st) = (if Result st \<noteq> [] then [JStr (Result st)] else [])"
    "values_of ''finished_at'' (status_fields st) =
       (case FinishedAt st of None \<Rightarrow> [] | Some t \<Rightarrow> [json_time t])"
    "values_of ''deletion_time'' (status_fields st) =
       (case DeletionTime st of None \<Rightarrow> [] | Some t \<Rightarrow> [json_time t])"
    "values_of ''extend'' (status_fields st) = (case Extend st of None \<Rightarrow> [] | Some b \<Rightarrow> [JBool b])"
    "values_of ''job_info'' (status_fields st) =
       (case JobInfo st of None \<Rightarrow> [] | Some j \<Rightarrow> [job_info_json j])"
    "values_of ''slack_channel'' (status_fields st) =
       (if SlackChannel st \<noteq> [] then [JStr (SlackChannel st)] else [])"
    unfolding status_fields_def values_of_simps lower
    by (simp_all split: option.split)
qed

text \<open>What can be sent: times of four-digit years and numbers of 64 bits.\<close>

definition status_sendable :: "status \<Rightarrow> bool" where
  "status_sendable st \<longleftrightarrow>
     time_ptr_ok (FinishedAt st) \<and> time_ptr_ok (DeletionTime st) \<and> job_info_ptr_ok (JobInfo st)"

lemma wf_json_time_ptr: "map_option json_time t = Some j \<Longrightarrow> wf_json j"
  by (auto simp: wf_json_fields)

lemma wf_status_json: "status_sendable st \<Longrightarrow> wf_json (JObj (status_fields st))"
  by (auto simp: status_fields_def status_sendable_def job_info_ptr_ok_def
      intro!: wf_json_fields wf_job_info_json split: option.splits)

lemma dec_time_ptr_json:
  "time_ptr_ok t \<Longrightarrow> dec_time_ptr None (case t of None \<Rightarrow> [] | Some x \<Rightarrow> [json_time x]) = Some t"
  by (auto simp: time_ptr_ok_def json_time_def parse_formatRFC3339Nano split: option.splits)

lemma dec_bool_ptr_json: "dec_bool_ptr None (case b of None \<Rightarrow> [] | Some x \<Rightarrow> [JBool x]) = Some b"
  by (simp split: option.splits)

lemma dec_job_info_ptr_json:
  "job_info_ptr_ok j \<Longrightarrow>
     dec_job_info_ptr None (case j of None \<Rightarrow> [] | Some x \<Rightarrow> [job_info_json x]) = Some j"
  by (auto simp: job_info_ptr_ok_def job_info_json_def dec_job_info_fields split: option.splits)

lemma unmarshal_marshal_status:
  assumes "status_sendable st"
  shows "\<exists>b. marshal_status st = Some b \<and> unmarshal_status b = Some st"
proof -
  have "unmarshal (print_json (JObj (status_fields st))) = Some (JObj (status_fields st))"
    by (rule unmarshal_print) (rule wf_status_json [OF assms])
  moreover have "time_ptr_ok (FinishedAt st)" "time_ptr_ok (DeletionTime st)" "job_info_ptr_ok (JobInfo st)"
    using assms by (auto simp: status_sendable_def)
  ultimately show ?thesis
    by (simp add: marshal_status_def unmarshal_status_def status_values dec_omitted(1) dec_time_ptr_json
        dec_bool_ptr_json dec_job_info_ptr_json del: if_split)
qed

lemma decode_deletion_time_print:
  assumes "rfc3339_range t"
  shows "decode_deletion_time (print_json (deletion_time_json t)) = Some t"
proof -
  have "decode_stream (print_json (deletion_time_json t)) = Some (deletion_time_json t)"
    by (rule decode_stream_print) (simp add: deletion_time_json_def wf_json_fields)
  then show ?thesis
    using assms by (simp add: decode_deletion_time_def deletion_time_json_def)
      (simp add: json_time_def parse_formatRFC3339Nano)
qed

subsection \<open>Properties of the pod\<close>

text \<open>An operating system for the witnesses: every command succeeds, no file exists, the clock stands.\<close>

definition still_os :: "unit pod_os" where
  "still_os = \<lparr>os_run = (\<lambda>d c as env w. ((0, None), w)), os_sleep = (\<lambda>d w. w), os_environ = [],
     pos_files = (\<lambda>w f. NotExist), pos_create = (\<lambda>f w. (None, w)), pos_now = (\<lambda>w. 1000 * Second)\<rparr>"

definition sample_environ :: environ where
  "sample_environ =
     [PodNameEnvName @ ''=pod-1'', PodNamespaceEnvName @ ''=ns'', RunnerOrgEnvName @ ''=org'',
      RunnerPoolNameEnvName @ ''=pool'', RunnerOptionEnvName @ ''={}'']"

definition sample_runner :: runner where
  "sample_runner = (case NewRunner sample_environ '':8080'' ''/runner'' ''/work'' ''/var'' of
      Inl e \<Rightarrow> undefined | Inr r \<Rightarrow> r)"

lemma sample_runner_ok: "NewRunner sample_environ '':8080'' ''/runner'' ''/work'' ''/var'' = Inr sample_runner"
  by code_simp

text \<open>
  C16. Whatever requests arrive and whatever the outside world does, in every reachable state of a
  runner pod that \<open>NewRunner\<close> made, the debugging state comes with a finish time, an extend flag and a
  job result, no other state has any of them, and the state agrees with the point the goroutine
  has reached.
\<close>

theorem pod_status_invariant:
  assumes "NewRunner env addr rdir wdir vdir = Inr r"
    and "pod_reachable os l (new_pod r w) p"
  shows "status_wf (runner_status (rn p)) \<and> state (rn p) \<in> state_at (pc p)"
  using pod_reachable_inv [OF assms(2) pod_inv_new [OF NewRunner_fresh [OF assms(1)]]]
  by (simp add: pod_inv_def)

theorem pod_status_invariant_witness:
  "status_wf (runner_status sample_runner) \<and> state sample_runner \<in> state_at L_start"
  using pod_status_invariant [where w = "()" and os = still_os and l = "NewListener ''/runner''",
      OF sample_runner_ok pod_start]
  by (simp add: new_pod_def)



text \<open>
  C36. The pod state moves only forward: no step of the goroutine, of the HTTP server or of the world
  changes it but from unset to initializing or stale, from initializing to running, and from
  running to debugging.
\<close>

theorem pod_state_order:
  assumes "NewRunner env addr rdir wdir vdir = Inr r"
    and "pod_reachable os l (new_pod r w) p" and "pod_step os l p p'"
  shows "state (rn p') = state (rn p) \<or>
    (state (rn p), state (rn p')) \<in>
      {([], RunnerPodStateInitializing), ([], RunnerPodStateStale),
       (RunnerPodStateInitializing, RunnerPodStateRunning),
       (RunnerPodStateRunning, RunnerPodStateDebugging)}"
proof -
  have "pod_inv p"
    by (rule pod_reachable_inv [OF assms(2) pod_inv_new [OF NewRunner_fresh [OF assms(1)]]])
  with pod_step_order [OF assms(3)] show ?thesis
    by (auto simp: next_states_def split: if_splits)
qed

theorem pod_state_order_witness:
  "(state sample_runner,
    state (rn (listener_step still_os (NewListener ''/runner'')
      (listener_step still_os (NewListener ''/runner'') (new_pod sample_runner ()))))) \<in>
      {([], RunnerPodStateInitializing), ([], RunnerPodStateStale)}"
  using pod_state_order [where w = "()" and os = still_os and l = "NewListener ''/runner''",
      OF sample_runner_ok pod_next [OF pod_start goroutine] goroutine]
    NewRunner_fresh [OF sample_runner_ok]
  by (auto simp: listener_step_def' new_pod_def still_os_def isFileExists_def state_nonempty
      fresh_runner_def runner_status_def empty_status_def)

text \<open>A pod that waits for its deletion stays as it is, the deletion time apart.\<close>

lemma waiting_stays:
  "pod_reachable os l p q \<Longrightarrow> pc p = L_wait \<Longrightarrow>
     pc q = L_wait \<and> rn q = (rn p)\<lparr>deletionTime := deletionTime (rn q)\<rparr>"
proof (induction rule: pod_reachable.induct)
  case (pod_next q q')
  from pod_next.hyps(2) pod_next.IH [OF pod_next.prems] show ?case
  proof cases
    case (request req)
    have "snd (runner_mux req (rn q)) = (rn q)\<lparr>deletionTime := deletionTime (snd (runner_mux req (rn q)))\<rparr>"
      by (rule runner_mux_frame)
    with request pod_next.IH [OF pod_next.prems] show ?thesis
      by (metis pod.select_convs(1,3) pod.surjective pod.update_convs(1) runner.update_convs(6)
          runner.surjective)
  qed (simp_all add: listener_step_def')
qed simp

text \<open>A pod that is about to become stale: requests touch the deletion time only, the goroutine sets the state.\<close>

lemma announced_stale:
  "pod_reachable os l p q \<Longrightarrow> pc p = L_stale \<Longrightarrow>
     pc q \<in> {L_stale, L_wait} \<and>
     (\<exists>d. rn q = (if pc q = L_wait then updateState RunnerPodStateStale (rn p) else rn p)\<lparr>deletionTime := d\<rparr>)"
proof (induction rule: pod_reachable.induct)
  case pod_start
  then show ?case by (intro conjI exI [of _ "deletionTime (rn p)"]) simp_all
next
  case (pod_next q q')
  then obtain d where IH: "pc q \<in> {L_stale, L_wait}"
    "rn q = (if pc q = L_wait then updateState RunnerPodStateStale (rn p) else rn p)\<lparr>deletionTime := d\<rparr>" by blast
  have upd: "updateState x (r\<lparr>deletionTime := d\<rparr>) = (updateState x r)\<lparr>deletionTime := d\<rparr>" for x r
    by (simp add: updateState_def)
  from pod_next.hyps(2) show ?case
  proof cases
    case goroutine
    with IH upd show ?thesis by (auto simp: listener_step_def')
  next
    case (request req)
    obtain e where "snd (runner_mux req (rn q)) = (rn q)\<lparr>deletionTime := e\<rparr>" using runner_mux_frame by blast
    with request IH show ?thesis by (intro conjI exI [of _ e]) simp_all
  next
    case (world w')
    with IH show ?thesis by (intro conjI exI [of _ d]) simp_all
  qed
qed

text \<open>
  C35. A restarted pod never runs a second job. When the flag file of an earlier start exists, the goroutine runs
  no command, neither then nor in any step that it can take afterwards, and its second step sets the state to
  stale. From then on it waits, and neither it nor any request changes anything but the deletion time; before,
  between its two steps, requests can change nothing else either.
\<close>

theorem stale_pod_never_runs:
  assumes "pc p = L_start" and "isFileExists (pos_files os (wd p)) (startedFlagFile (rn p))"
    and "pod_reachable os l (listener_step os l p) q" and "pod_reachable os l (listener_step os l q) s"
  shows "wd (listener_step os l p) = wd p \<and> wd (listener_step os l q) = wd q \<and>
    rn q = (rn p)\<lparr>state := (if pc q = L_wait then RunnerPodStateStale else state (rn p)), deletionTime := deletionTime (rn q)\<rparr> \<and>
    pc s = L_wait \<and> state (rn s) = RunnerPodStateStale \<and> wd (listener_step os l s) = wd s \<and>
    rn s = (rn p)\<lparr>state := RunnerPodStateStale, deletionTime := deletionTime (rn s)\<rparr>"
proof -
  have first: "pc (listener_step os l p) = L_stale" "wd (listener_step os l p) = wd p" "rn (listener_step os l p) = rn p"
    using assms(1,2) by (simp_all add: listener_step_def')
  obtain d where q: "pc q \<in> {L_stale, L_wait}"
    "rn q = (if pc q = L_wait then updateState RunnerPodStateStale (rn p) else rn p)\<lparr>deletionTime := d\<rparr>"
    using announced_stale [OF assms(3) first(1)] first(3) by auto
  have next_step: "pc (listener_step os l q) = L_wait" "wd (listener_step os l q) = wd q"
    "rn (listener_step os l q) = (rn p)\<lparr>state := RunnerPodStateStale, deletionTime := d\<rparr>"
    using q by (auto simp: listener_step_def' updateState_def split: if_splits)
  have s: "pc s = L_wait" "rn s = (rn p)\<lparr>state := RunnerPodStateStale, deletionTime := deletionTime (rn s)\<rparr>"
    using waiting_stays [OF assms(4) next_step(1)] next_step(3) by simp_all
  from arg_cong [OF s(2), of state] have "state (rn s) = RunnerPodStateStale" by simp
  moreover have "wd (listener_step os l s) = wd s" using s(1) by (simp add: listener_step_def')
  moreover have "rn q = (rn p)\<lparr>state := (if pc q = L_wait then RunnerPodStateStale else state (rn p)),
      deletionTime := deletionTime (rn q)\<rparr>"
    by (simp add: q(2) updateState_def)
  ultimately show ?thesis using first(2) next_step(2) s by blast
qed

definition restarted_os :: "unit pod_os" where
  "restarted_os = still_os\<lparr>pos_files := (\<lambda>w f. if f = ''/var/started'' then Contents [] else NotExist)\<rparr>"

theorem stale_pod_never_runs_witness:
  "state (rn (listener_step restarted_os (NewListener ''/runner'')
     (listener_step restarted_os (NewListener ''/runner'') (new_pod sample_runner ())))) = RunnerPodStateStale"
proof -
  have "startedFlagFile sample_runner = ''/var/started''" by code_simp
  then show ?thesis
    using stale_pod_never_runs [where os = restarted_os and l = "NewListener ''/runner''" and
        p = "new_pod sample_runner ()", OF _ _ pod_start pod_start]
    by (simp add: new_pod_def restarted_os_def isFileExists_def)
qed

end
