(* ===== verification/Runner_Client.thy ===== *)
theory Runner_Client
  imports Runner_Pod
begin

section \<open>runner/client.go: the client of a runner pod\<close>

text \<open>
  The controller and the Slack agent reach a runner pod through the interface \<open>Client\<close>. Modelled: the
  interface, \<open>clientImpl\<close> over a network that is a parameter, and \<open>FakeClient\<close>. The locale
  \<open>runner_client\<close> states what a client promises to its callers; both implementations satisfy it,
  \<open>clientImpl\<close> on the network whose hosts are runner pods with the handlers of \<open>Runner_Pod\<close>.
\<close>

subsection \<open>The interface and its implementations\<close>

datatype client_error =
    MarshalError
  | TransportError string
  | BadStatus string int
  | UnmarshalError
  | StatusNotDefined string

record 'w client =
  cl_PutDeletionTime :: "string \<Rightarrow> time \<Rightarrow> 'w \<Rightarrow> client_error option \<times> 'w"
  cl_GetStatus :: "string \<Rightarrow> 'w \<Rightarrow> (client_error + status) \<times> 'w"

definition getStatusURL :: "string \<Rightarrow> string" where
  "getStatusURL ip = ''http://'' @ ip @ '':'' @ itoa RunnerListenPort @ ''/'' @ StatusEndPoint"

definition getDeletionTimeURL :: "string \<Rightarrow> string" where
  "getDeletionTimeURL ip = ''http://'' @ ip @ '':'' @ itoa RunnerListenPort @ ''/'' @ DeletionTimeEndpoint"

text \<open>A URL that does not parse is one of the transport errors of the network.\<close>

definition PutDeletionTime ::
    "'w network \<Rightarrow> string \<Rightarrow> time \<Rightarrow> 'w \<Rightarrow> client_error option \<times> 'w" where
  "PutDeletionTime net ip tm w =
     (if \<not> rfc3339_range tm then (Some MarshalError, w)
      else case net \<lparr>req_method = MethodPut, req_url = getDeletionTimeURL ip,
                     req_content_type = appjson,
                     req_body = print_json (deletion_time_json tm)\<rparr> w of
             (Inl e, w') \<Rightarrow> (Some (TransportError e), w')
           | (Inr res, w') \<Rightarrow>
               if res_code res \<noteq> StatusNoContent then (Some (BadStatus ip (res_code res)), w')
               else (None, w'))"

definition GetStatus :: "'w network \<Rightarrow> string \<Rightarrow> 'w \<Rightarrow> (client_error + status) \<times> 'w" where
  "GetStatus net ip w =
     (case net \<lparr>req_method = MethodGet, req_url = getStatusURL ip, req_content_type = [],
                req_body = []\<rparr> w of
        (Inl e, w') \<Rightarrow> (Inl (TransportError e), w')
      | (Inr res, w') \<Rightarrow>
          if res_code res \<noteq> StatusOK then (Inl (BadStatus ip (res_code res)), w')
          else (case unmarshal_status (res_body res) of
                  None \<Rightarrow> (Inl UnmarshalError, w')
                | Some s \<Rightarrow> (Inr s, w')))"

definition NewClient :: "'w network \<Rightarrow> 'w client" where
  "NewClient net = \<lparr>cl_PutDeletionTime = PutDeletionTime net, cl_GetStatus = GetStatus net\<rparr>"

text \<open>
  \<open>FakeClient\<close> keeps one status object per address; its state is the map of them.
\<close>

type_synonym fake_statuses = "string \<rightharpoonup> status"

definition NewFakeClient :: fake_statuses where
  "NewFakeClient = Map.empty"

definition Fake_PutDeletionTime ::
    "string \<Rightarrow> time \<Rightarrow> fake_statuses \<Rightarrow> client_error option \<times> fake_statuses" where
  "Fake_PutDeletionTime ip tm m =
     (case m ip of
        None \<Rightarrow> (Some (StatusNotDefined ip), m)
      | Some st \<Rightarrow> (None, m(ip \<mapsto> st\<lparr>DeletionTime := Some tm\<rparr>)))"

definition Fake_GetStatus ::
    "string \<Rightarrow> fake_statuses \<Rightarrow> (client_error + status) \<times> fake_statuses" where
  "Fake_GetStatus ip m = (case m ip of None \<Rightarrow> (Inl (StatusNotDefined ip), m) | Some st \<Rightarrow> (Inr st, m))"

definition Fake_SetStatus :: "string \<Rightarrow> status \<Rightarrow> fake_statuses \<Rightarrow> fake_statuses" where
  "Fake_SetStatus ip st m = m(ip \<mapsto> st)"

definition FakeClient :: "fake_statuses client" where
  "FakeClient = \<lparr>cl_PutDeletionTime = Fake_PutDeletionTime, cl_GetStatus = Fake_GetStatus\<rparr>"

subsection \<open>The contract\<close>

text \<open>
  \<open>view w ip\<close> is the status that the pod at \<open>ip\<close> has in the world \<open>w\<close>, where it has one; \<open>ok\<close> are
  the times that can be sent.
\<close>

locale runner_client =
  fixes put :: "string \<Rightarrow> time \<Rightarrow> 'w \<Rightarrow> client_error option \<times> 'w"
    and get :: "string \<Rightarrow> 'w \<Rightarrow> (client_error + status) \<times> 'w"
    and view :: "'w \<Rightarrow> string \<Rightarrow> status option"
    and ok :: "time \<Rightarrow> bool"
  assumes get_view: "view w ip = Some st \<Longrightarrow> get ip w = (Inr st, w)"
    and put_view: "view w ip = Some st \<Longrightarrow> ok t \<Longrightarrow>
      fst (put ip t w) = None \<and> view (snd (put ip t w)) ip = Some (st\<lparr>DeletionTime := Some t\<rparr>)"
    and put_other: "view w ip = Some st \<Longrightarrow> ip' \<noteq> ip \<Longrightarrow> view (snd (put ip t w)) ip' = view w ip'"
begin

lemma put_get:
  assumes "view w ip = Some st" "ok t"
  shows "fst (put ip t w) = None \<and>
    fst (get ip (snd (put ip t w))) = Inr (st\<lparr>DeletionTime := Some t\<rparr>)"
  using put_view [OF assms] get_view [of "snd (put ip t w)" ip] by simp

lemma put_put_get:
  assumes "view w ip = Some st" "ok t" "ok u"
  shows "fst (get ip (snd (put ip u (snd (put ip t w))))) = Inr (st\<lparr>DeletionTime := Some u\<rparr>)"
  using put_view [OF assms(1,2)] put_get [of "snd (put ip t w)" ip _ u] assms(3) by simp

lemma put_get_other:
  assumes "view w ip = Some st" "view w ip' = Some st'" "ip' \<noteq> ip"
  shows "fst (get ip' (snd (put ip t w))) = Inr st'"
  using put_other [OF assms(1,3)] get_view [of "snd (put ip t w)" ip'] assms(2) by simp

end

interpretation fake: runner_client Fake_PutDeletionTime Fake_GetStatus "\<lambda>m. m" "\<lambda>t. True"
  by unfold_locales (simp_all add: Fake_GetStatus_def Fake_PutDeletionTime_def)

subsection \<open>clientImpl against the handlers of the pods\<close>

text \<open>The network of runner pods: the host of the URL selects the pod that handles the request.\<close>

type_synonym pod_net = "string \<rightharpoonup> runner"

definition pod_network :: "pod_net network" where
  "pod_network req w =
     (case w (url_host (req_url req)) of
        None \<Rightarrow> (Inl ''no route to host'', w)
      | Some r \<Rightarrow>
          (let (res, r') = runner_mux req r in (Inr res, w(url_host (req_url req) \<mapsto> r'))))"

definition pod_view :: "pod_net \<Rightarrow> string \<Rightarrow> status option" where
  "pod_view w ip =
     (if plain_host ip
      then (case w ip of
              None \<Rightarrow> None
            | Some r \<Rightarrow> if status_sendable (runner_status r) then Some (runner_status r) else None)
      else None)"

lemma port_no_slash: "CHR ''/'' \<notin> set (itoa RunnerListenPort)"
  by (simp add: itoa_def RunnerListenPort_def utoa_no_slash)

lemma client_url_parts:
  assumes "plain_host ip"
  shows "url_host (getStatusURL ip) = ip" "url_path (getStatusURL ip) = ''/'' @ StatusEndPoint"
    "url_host (getDeletionTimeURL ip) = ip" "url_path (getDeletionTimeURL ip) = ''/'' @ DeletionTimeEndpoint"
  using url_parts [OF assms port_no_slash]
  by (simp_all only: getStatusURL_def getDeletionTimeURL_def)

lemma endpoints_differ: "StatusEndPoint \<noteq> DeletionTimeEndpoint"
  by (simp add: StatusEndPoint_def DeletionTimeEndpoint_def)

lemma pod_view_Some:
  "pod_view w ip = Some st \<Longrightarrow>
     \<exists>r. plain_host ip \<and> w ip = Some r \<and> st = runner_status r \<and> status_sendable (runner_status r)"
  by (auto simp: pod_view_def split: if_splits option.splits)

lemma GetStatus_pod:
  assumes "plain_host ip" "w ip = Some r" "status_sendable (runner_status r)"
  shows "GetStatus pod_network ip w = (Inr (runner_status r), w)"
proof -
  obtain b where "marshal_status (runner_status r) = Some b" "unmarshal_status b = Some (runner_status r)"
    using unmarshal_marshal_status [OF assms(3)] by blast
  with assms(1,2) show ?thesis
    by (simp add: GetStatus_def pod_network_def client_url_parts runner_mux_def endpoints_differ
        statusHandler_def fun_upd_idem)
qed

lemma PutDeletionTime_pod:
  assumes "plain_host ip" "w ip = Some r" "rfc3339_range t"
  shows "PutDeletionTime pod_network ip t w = (None, w(ip \<mapsto> r\<lparr>deletionTime := Some t\<rparr>))"
  using assms
  by (simp add: PutDeletionTime_def pod_network_def client_url_parts runner_mux_def
      deletionTimeHandler_def decode_deletion_time_print plain_response_def)

lemma runner_status_deletionTime [simp]:
  "runner_status (r\<lparr>deletionTime := d\<rparr>) = (runner_status r)\<lparr>DeletionTime := d\<rparr>"
  by (simp add: runner_status_def)

lemma PutDeletionTime_pod_frame:
  assumes "plain_host ip" "w ip = Some r" "ip' \<noteq> ip"
  shows "snd (PutDeletionTime pod_network ip t w) ip' = w ip'"
  using assms PutDeletionTime_pod [of ip w r t]
  by (cases "rfc3339_range t") (simp_all add: PutDeletionTime_def)

interpretation pod: runner_client "PutDeletionTime pod_network" "GetStatus pod_network" pod_view rfc3339_range
proof
  show "GetStatus pod_network ip w = (Inr st, w)" if "pod_view w ip = Some st" for w ip st
    using pod_view_Some [OF that] by (auto intro: GetStatus_pod)
next
  show "fst (PutDeletionTime pod_network ip t w) = None \<and>
      pod_view (snd (PutDeletionTime pod_network ip t w)) ip = Some (st\<lparr>DeletionTime := Some t\<rparr>)"
    if "pod_view w ip = Some st" "rfc3339_range t" for w ip st t
    using pod_view_Some [OF that(1)] that(2)
    by (auto simp: PutDeletionTime_pod pod_view_def status_sendable_def time_ptr_ok_def)
next
  show "pod_view (snd (PutDeletionTime pod_network ip t w)) ip' = pod_view w ip'"
    if "pod_view w ip = Some st" "ip' \<noteq> ip" for w ip st ip' t
    using pod_view_Some [OF that(1)] that(2) by (auto simp: pod_view_def PutDeletionTime_pod_frame)
qed

subsection \<open>Properties\<close>

text \<open>
  What the client reads is what the pod has: \<open>GetStatus\<close> over HTTP and JSON returns exactly the
  status of the runner pod at the address, times to the nanosecond, and changes nothing.
\<close>

lemma GetStatus_exact:
  assumes "plain_host ip" and "w ip = Some r" and "status_sendable (runner_status r)"
  shows "GetStatus pod_network ip w = (Inr (runner_status r), w)"
  by (rule pod.get_view) (use assms in \<open>simp add: pod_view_def\<close>)

definition debugging_runner :: runner where
  "debugging_runner =
     updateToDebuggingState (\<lambda>f. if f = ''/var/failure'' then Contents [] else NotExist)
       (63000000000 * Second + 5) sample_runner"

lemma debugging_runner_sendable: "status_sendable (runner_status debugging_runner)"
proof -
  have "job_info_ptr_ok (JobInfo (runner_status debugging_runner))"
    unfolding debugging_runner_def using updateToDebuggingState_wf by (auto simp: status_wf_def)
  moreover have "deletionTime sample_runner = None"
    using NewRunner_fresh [OF sample_runner_ok]
    by (simp add: fresh_runner_def runner_status_def empty_status_def)
  ultimately show ?thesis
    by (simp add: status_sendable_def time_ptr_ok_def runner_status_def debugging_runner_def
        updateToDebuggingState_def rfc3339_rangeI Second_def)
qed

text \<open>
  A deletion time that was put is read back: \<open>PutDeletionTime\<close> to a runner pod succeeds for every
  time of a four-digit year, and \<open>GetStatus\<close> after it returns the old status with exactly that
  deletion time; the status of every other pod is as before.
\<close>

lemma put_then_GetStatus:
  assumes "plain_host ip" and "w ip = Some r" and "status_sendable (runner_status r)" and "rfc3339_range t"
    and "plain_host ip'" and "w ip' = Some r'" and "status_sendable (runner_status r')" and "ip' \<noteq> ip"
  shows "fst (PutDeletionTime pod_network ip t w) = None \<and>
    fst (GetStatus pod_network ip (snd (PutDeletionTime pod_network ip t w))) =
      Inr ((runner_status r)\<lparr>DeletionTime := Some t\<rparr>) \<and>
    fst (GetStatus pod_network ip' (snd (PutDeletionTime pod_network ip t w))) = Inr (runner_status r')"
proof -
  have v: "pod_view w ip = Some (runner_status r)" "pod_view w ip' = Some (runner_status r')"
    using assms by (simp_all add: pod_view_def)
  show ?thesis
    using pod.put_get [OF v(1) assms(4)] pod.put_get_other [OF v assms(8)] by simp
qed

text \<open>
  The pod accepts a deletion time in every state: a well-formed PUT request sets it whether or
  not the pod is debugging, so that a status other than debugging may carry a deletion time.
\<close>

lemma deletion_time_in_any_state:
  assumes "plain_host ip" and "w ip = Some r" and "rfc3339_range t"
  shows "\<exists>r'. snd (PutDeletionTime pod_network ip t w) ip = Some r' \<and>
    state r' = state r \<and> DeletionTime (runner_status r') = Some t"
  using assms by (simp add: PutDeletionTime_pod)

end
