(* ===== verification/Kube_Objects.thy ===== *)
theory Kube_Objects
  imports Go_Json Constants
begin

section \<open>Kubernetes objects the program reads and writes\<close>

text \<open>
  The Kubernetes API types are not part of the repository. Their fields that the program names are
  fields of the records below; what the program only carries along without looking at it is a JSON
  document (the type \<open>opaque\<close>), and the field \<open>rest\<close> of an object holds everything else it has. The
  functions of the controller libraries that the program calls on objects are the record
  \<open>kube_lib\<close>, a parameter of the definitions that use them; \<open>finalizer_laws\<close> and
  \<open>controller_ref_laws\<close> state their documented behaviour.
\<close>

type_synonym opaque = json

record object_meta =
  Name :: string
  Namespace :: string
  Labels :: gomap
  Annotations :: gomap
  Finalizers :: "string list"
  CreationTimestamp :: time
  DeletionTimestamp :: "time option"
  OwnerReferences :: "opaque list"

definition empty_meta :: object_meta where
  "empty_meta = \<lparr>Name = [], Namespace = [], Labels = None, Annotations = None, Finalizers = [],
     CreationTimestamp = zero_time, DeletionTimestamp = None, OwnerReferences = []\<rparr>"

text \<open>\<open>types.NamespacedName.String()\<close>.\<close>

definition namespaced_name :: "string \<Rightarrow> string \<Rightarrow> string" where
  "namespaced_name ns n = ns @ ''/'' @ n"

datatype value_from = FieldRef (fr_apiVersion: string) (fr_fieldPath: string) | OtherValueFrom opaque

record env_var =
  ev_Name :: string
  ev_Value :: string
  ev_ValueFrom :: "value_from option"

datatype volume_source = EmptyDirSource | SecretSource string | OtherSource opaque

record volume =
  vol_Name :: string
  vol_Source :: volume_source

record volume_mount =
  vm_Name :: string
  vm_ReadOnly :: bool
  vm_MountPath :: string
  vm_rest :: opaque

record container_port =
  cp_Protocol :: string
  cp_Name :: string
  cp_ContainerPort :: int

record container =
  c_Name :: string
  c_Image :: string
  c_ImagePullPolicy :: string
  c_SecurityContext :: "opaque option"
  c_Resources :: opaque
  c_Ports :: "container_port list"
  c_VolumeMounts :: "volume_mount list"
  c_EnvFrom :: "opaque list"
  c_Env :: "env_var list"
  c_rest :: opaque

record pod_spec =
  ps_ServiceAccountName :: string
  ps_ImagePullSecrets :: "opaque list"
  ps_AutomountServiceAccountToken :: "bool option"
  ps_Volumes :: "volume list"
  ps_NodeSelector :: gomap
  ps_Tolerations :: "opaque list"
  ps_Containers :: "container list"
  ps_rest :: opaque

record deployment =
  d_meta :: object_meta
  d_Selector :: "gomap option"
  d_Replicas :: "int32 option"
  d_tmpl_Labels :: gomap
  d_tmpl_Annotations :: gomap
  d_pod_spec :: pod_spec
  d_rest :: opaque

record kpod =
  po_meta :: object_meta
  po_Phase :: string
  po_PodIP :: string
  po_rest :: opaque

record secret =
  sec_meta :: object_meta
  sec_Data :: gomap
  sec_StringData :: gomap
  sec_rest :: opaque

record pdb =
  pdb_meta :: object_meta
  pdb_Selector :: "gomap option"
  pdb_MinAvailable :: "int option"
  pdb_rest :: opaque

definition PodRunning :: string where "PodRunning = ''Running''"

text \<open>\<open>appsv1.DefaultDeploymentUniqueLabelKey\<close>, the label by which a replica set owns its pods.\<close>

definition DefaultDeploymentUniqueLabelKey :: string where
  "DefaultDeploymentUniqueLabelKey = ''pod-template-hash''"

lemma unique_label_key_distinct [simp]: "DefaultDeploymentUniqueLabelKey \<noteq> RunnerPodName"
  "RunnerPodName \<noteq> DefaultDeploymentUniqueLabelKey"
  by (simp_all add: DefaultDeploymentUniqueLabelKey_def RunnerPodName_def)

subsection \<open>Library functions on objects\<close>

record kube_lib =
  AddFinalizer :: "string \<Rightarrow> string list \<Rightarrow> string list"
  ContainsFinalizer :: "string \<Rightarrow> string list \<Rightarrow> bool"
  RemoveFinalizer :: "string \<Rightarrow> string list \<Rightarrow> string list"
  SetControllerReference :: "object_meta \<Rightarrow> object_meta \<Rightarrow> string + object_meta"

text \<open>
  \<open>AddFinalizer\<close> adds the finalizer, \<open>RemoveFinalizer\<close> removes it, neither touches the others, and
  \<open>ContainsFinalizer\<close> tests for it.
\<close>

definition finalizer_laws :: "kube_lib \<Rightarrow> bool" where
  "finalizer_laws lib \<longleftrightarrow>
     (\<forall>f fs. set (AddFinalizer lib f fs) = insert f (set fs)) \<and>
     (\<forall>f fs. set (RemoveFinalizer lib f fs) = set fs - {f}) \<and>
     (\<forall>f fs. ContainsFinalizer lib f fs \<longleftrightarrow> f \<in> set fs)"

text \<open>
  \<open>SetControllerReference\<close> changes nothing of an object but its owner references, and setting the
  reference again to the same owner changes nothing more.
\<close>

definition controller_ref_laws :: "kube_lib \<Rightarrow> bool" where
  "controller_ref_laws lib \<longleftrightarrow>
     (\<forall>ow m m'. SetControllerReference lib ow m = Inr m' \<longrightarrow>
        m' = m\<lparr>OwnerReferences := OwnerReferences m'\<rparr> \<and> SetControllerReference lib ow m' = Inr m')"

text \<open>An instance with the documented behaviour.\<close>

definition plain_lib :: kube_lib where
  "plain_lib =
     \<lparr>AddFinalizer = (\<lambda>f fs. if f \<in> set fs then fs else fs @ [f]),
      ContainsFinalizer = (\<lambda>f fs. f \<in> set fs),
      RemoveFinalizer = (\<lambda>f fs. filter (\<lambda>x. x \<noteq> f) fs),
      SetControllerReference = (\<lambda>ow m.
        if OwnerReferences m = [] \<or> OwnerReferences m = [JStr (Name ow)]
        then Inr (m\<lparr>OwnerReferences := [JStr (Name ow)]\<rparr>) else Inl ''already owned'')\<rparr>"

lemma plain_lib_laws: "finalizer_laws plain_lib" "controller_ref_laws plain_lib"
  by (auto simp: finalizer_laws_def controller_ref_laws_def plain_lib_def split: if_splits)

end
