(* ===== verification/Slack_Agent.thy ===== *)
theory Slack_Agent
  imports Runner_Client Kube_Objects
begin

section \<open>agent: the Slack agent and its client\<close>

text \<open>
  The runner manager posts the result of a job to the Slack agent (\<open>client.go\<close>); the agent turns it
  into a Slack message (\<open>server.go\<close>, \<open>message.go\<close>) and handles the buttons of that message
  (\<open>socket.go\<close>). Parameters are the Slack API, the Kubernetes client set, the client of the runner
  pods, the parser of URLs, the clock and the random choice of the development mode. A nil pointer
  dereference is the outcome \<open>Panics\<close>.
\<close>

datatype 'a outcome = Panics | Returns 'a

subsection \<open>client.go: the payload of a result\<close>

definition colorGreen :: string where "colorGreen = ''#03af7a''"
definition colorRed :: string where "colorRed = ''#ff4b00''"
definition colorYellow :: string where "colorYellow = ''#fff100''"
definition colorGray :: string where "colorGray = ''#84919e''"

definition colors :: "string \<rightharpoonup> string" where
  "colors = [JobResultSuccess \<mapsto> colorGreen, JobResultFailure \<mapsto> colorRed,
             JobResultCancelled \<mapsto> colorGray, JobResultUnknown \<mapsto> colorYellow]"

definition captions :: "string \<rightharpoonup> string" where
  "captions = [JobResultSuccess \<mapsto> ''Success'', JobResultFailure \<mapsto> ''Failure'',
               JobResultCancelled \<mapsto> ''Cancelled'', JobResultUnknown \<mapsto> ''Finished(Unknown)'']"

record result_payload =
  Color :: string
  Text :: string
  Job :: string
  Pod :: string
  pl_Extend :: bool
  pl_Channel :: string

text \<open>\<open>m[k]\<close> of a missing key is the empty string.\<close>

definition str_index :: "(string \<rightharpoonup> string) \<Rightarrow> string \<Rightarrow> string" where
  "str_index m k = (case m k of None \<Rightarrow> [] | Some v \<Rightarrow> v)"

definition makePayload :: "string \<Rightarrow> string \<Rightarrow> string \<Rightarrow> job_info option \<Rightarrow> result_payload" where
  "makePayload jobResult namespaceName pName info =
     (let color = (case colors jobResult of Some c \<Rightarrow> c | None \<Rightarrow> str_index colors JobResultUnknown);
          head = (case captions jobResult of Some c \<Rightarrow> c | None \<Rightarrow> str_index captions JobResultUnknown);
          pod = namespaceName @ ''/'' @ pName
      in case info of
           Some i \<Rightarrow>
             \<lparr>Color = color,
              Text = head @ '': '' @ Actor i @ [CHR 39] @ ''s CI job in <'' @ RepositoryURL i @ ''|'' @
                     Repository i @ ''>'',
              Job = ''<'' @ WorkflowURL i @ ''|'' @ WorkflowName i @ '' #'' @ itoa (RunNumber i) @ ''> ['' @
                    JobID i @ '']'',
              Pod = pod, pl_Extend = False, pl_Channel = []\<rparr>
         | None \<Rightarrow>
             \<lparr>Color = color, Text = head @ '': (failed to get job status)'', Job = ''(unknown)'',
              Pod = pod, pl_Extend = False, pl_Channel = []\<rparr>)"

definition payload_json :: "result_payload \<Rightarrow> json" where
  "payload_json p =
     JObj [(''color'', JStr (Color p)), (''text'', JStr (Text p)), (''job'', JStr (Job p)),
           (''pod'', JStr (Pod p)), (''extend'', JBool (pl_Extend p)), (''channel'', JStr (pl_Channel p))]"

text \<open>
  URLs: \<open>up_Parse\<close> gives the scheme and the text of a parsed URL, \<open>up_Resolve\<close> is the method \<open>Parse\<close>
  of a URL followed by \<open>String\<close>.
\<close>

record url_lib =
  up_Parse :: "string \<Rightarrow> string + string \<times> string"
  up_Resolve :: "string \<Rightarrow> string \<Rightarrow> string + string"

definition resultAPIPath :: string where "resultAPIPath = ''/result''"

text \<open>The only state of a client is the URL of the server.\<close>

definition UpdateServerURL :: "url_lib \<Rightarrow> string \<Rightarrow> string \<Rightarrow> string option \<times> string" where
  "UpdateServerURL ul serverURL cur =
     (case up_Parse ul serverURL of
        Inl e \<Rightarrow> (Some e, cur)
      | Inr (scheme, u) \<Rightarrow>
          if scheme = []
          then (case up_Parse ul (''http://'' @ serverURL) of
                  Inl e \<Rightarrow> (Some e, cur)
                | Inr (scheme', u') \<Rightarrow> (None, u'))
          else (None, u))"

definition NewAgentClient :: "url_lib \<Rightarrow> string \<Rightarrow> string + string" where
  "NewAgentClient ul serverURL =
     (case UpdateServerURL ul serverURL [] of (Some e, c) \<Rightarrow> Inl e | (None, c) \<Rightarrow> Inr c)"

datatype post_error = PostURL string | PostTransport string | PostStatus int string

definition PostResult ::
    "url_lib \<Rightarrow> 'w network \<Rightarrow> string \<Rightarrow> string \<Rightarrow> string \<Rightarrow> bool \<Rightarrow> string \<Rightarrow> string \<Rightarrow>
       job_info option \<Rightarrow> 'w \<Rightarrow> post_error option \<times> 'w" where
  "PostResult ul net serverURL channel jobResult ext namespaceName pName info w =
     (let payload = (makePayload jobResult namespaceName pName info)
            \<lparr>pl_Channel := channel, pl_Extend := ext\<rparr>
      in case up_Resolve ul serverURL resultAPIPath of
           Inl e \<Rightarrow> (Some (PostURL e), w)
         | Inr u \<Rightarrow>
             (case net \<lparr>req_method = MethodPost, req_url = u, req_content_type = appjson,
                        req_body = print_json (payload_json payload)\<rparr> w of
                (Inl e, w') \<Rightarrow> (Some (PostTransport e), w')
              | (Inr res, w') \<Rightarrow>
                  if res_code res \<noteq> StatusOK then (Some (PostStatus (res_code res) (res_body res)), w')
                  else (None, w')))"

subsection \<open>message.go: the messages\<close>

definition extendBlockID :: string where "extendBlockID = ''slack-agent-extend''"
definition extendButtonActionID :: string where "extendButtonActionID = ''slack-agent-extend-button''"
definition deleteBlockID :: string where "deleteBlockID = ''slack-agent-delete''"
definition deleteButtonActionID :: string where "deleteButtonActionID = ''slack-agent-delete-button''"
definition extendDurationHours :: int where "extendDurationHours = 2"
definition extendDurationString :: string where "extendDurationString = ''2 hours''"
definition extendLimitHours :: int where "extendLimitHours = 6"

lemmas button_id_defs =
  extendBlockID_def extendButtonActionID_def deleteBlockID_def deleteButtonActionID_def

datatype block =
    SectionBlock (sb_text: string) (sb_fields: "string list")
  | ActionBlock (ab_id: string) (ab_action: string) (ab_value: string) (ab_label: string)

datatype slack_msg =
    MsgCIResult (mc_color: string) (mc_blocks: "block list")
  | MsgPodExtendSuccess string time
  | MsgPodExtendFailure string

definition messageCIResult :: "string \<Rightarrow> string \<Rightarrow> string \<Rightarrow> string \<Rightarrow> bool \<Rightarrow> slack_msg" where
  "messageCIResult color text job pod ext =
     MsgCIResult color
       (SectionBlock text [''*Job*'' @ [CHR 10] @ job, ''*Pod*'' @ [CHR 10] @ pod] #
        (if ext
         then [ActionBlock extendBlockID extendButtonActionID pod (''Extend '' @ extendDurationString),
               ActionBlock deleteBlockID deleteButtonActionID pod ''Delete immediately'']
         else []))"

subsection \<open>server.go: the HTTP server\<close>

record server =
  defaultChannel :: string
  devMood :: bool

text \<open>The Slack API: posting a message to a channel.\<close>

type_synonym 'w slack_api = "string \<Rightarrow> slack_msg \<Rightarrow> 'w \<Rightarrow> string option \<times> 'w"

definition errorResponse :: "int \<Rightarrow> string list \<Rightarrow> http_response" where
  "errorResponse code messages = plain_response code (join_go '';'' messages)"

text \<open>
  The text of a decoding error is not modelled, only its status code.
  Decoding into \<open>&payload\<close>, a pointer to a pointer: null makes the pointer nil (\<open>Some None\<close>).
\<close>

definition decode_payload :: "string \<Rightarrow> result_payload option option" where
  "decode_payload body =
     (case decode_stream body of
        Some JNull \<Rightarrow> Some None
      | Some (JObj fs) \<Rightarrow>
          (case (dec_str [] (values_of ''color'' fs), dec_str [] (values_of ''text'' fs),
                 dec_str [] (values_of ''job'' fs), dec_str [] (values_of ''pod'' fs),
                 dec_bool False (values_of ''extend'' fs), dec_str [] (values_of ''channel'' fs)) of
             (Some co, Some te, Some jo, Some po, Some ex, Some ch) \<Rightarrow>
               Some (Some \<lparr>Color = co, Text = te, Job = jo, Pod = po, pl_Extend = ex, pl_Channel = ch\<rparr>)
           | _ \<Rightarrow> None)
      | _ \<Rightarrow> None)"

definition ServeHTTP ::
    "server \<Rightarrow> 'w slack_api \<Rightarrow> http_request \<Rightarrow> 'w \<Rightarrow> (http_response \<times> 'w) outcome" where
  "ServeHTTP s post r w =
     (if url_path (req_url r) \<noteq> resultAPIPath then Returns (errorResponse StatusNotFound [], w)
      else if req_method r \<noteq> MethodPost then Returns (errorResponse StatusMethodNotAllowed [], w)
      else if req_content_type r \<noteq> appjson then Returns (errorResponse StatusUnsupportedMediaType [], w)
      else case decode_payload (req_body r) of
             None \<Rightarrow> Returns (errorResponse StatusBadRequest [''invalid body''], w)
           | Some None \<Rightarrow> Panics
           | Some (Some payload) \<Rightarrow>
               if pl_Channel payload = [] \<and> defaultChannel s = []
               then Returns (errorResponse StatusBadRequest [''channel is not specified''], w)
               else (let channel = (if pl_Channel payload \<noteq> [] then pl_Channel payload else defaultChannel s);
                         msg = messageCIResult (Color payload) (Text payload) (Job payload) (Pod payload)
                                 (pl_Extend payload)
                     in case post channel msg w of
                          (Some e, w') \<Rightarrow> Returns (errorResponse StatusInternalServerError [e], w')
                        | (None, w') \<Rightarrow> Returns (plain_response StatusOK [], w')))"

subsection \<open>socket.go: the buttons\<close>

record block_action =
  ba_BlockID :: string
  ba_ActionID :: string
  ba_Value :: string

record interaction_callback =
  cb_Type :: string
  cb_ChannelID :: string
  cb_BlockActions :: "block_action list"

definition InteractionTypeBlockActions :: string where
  "InteractionTypeBlockActions = ''block_actions''"

definition isExtendButtonEvent :: "interaction_callback \<Rightarrow> bool" where
  "isExtendButtonEvent cb \<longleftrightarrow>
     cb_Type cb = InteractionTypeBlockActions \<and>
     (case cb_BlockActions cb of
        [a] \<Rightarrow> ba_BlockID a = extendBlockID \<and> ba_ActionID a = extendButtonActionID
      | _ \<Rightarrow> False)"

definition isDeleteButtonEvent :: "interaction_callback \<Rightarrow> bool" where
  "isDeleteButtonEvent cb \<longleftrightarrow>
     cb_Type cb = InteractionTypeBlockActions \<and>
     (case cb_BlockActions cb of
        [a] \<Rightarrow> ba_BlockID a = deleteBlockID \<and> ba_ActionID a = deleteButtonActionID
      | _ \<Rightarrow> False)"

datatype agent_error =
    CallbackError interaction_callback
  | PodGetError string
  | RunnerStatusError client_error
  | SlackPostError string
  | ChannelClosed

definition getPodFromCallbackEvent :: "interaction_callback \<Rightarrow> (agent_error + string \<times> string) outcome" where
  "getPodFromCallbackEvent cb =
     (case cb_BlockActions cb of
        [] \<Rightarrow> Panics
      | a # _ \<Rightarrow>
          (case split_go (CHR ''/'') (ba_Value a) of
             [ns, pod] \<Rightarrow> Returns (Inr (ns, pod))
           | _ \<Rightarrow> Returns (Inl (CallbackError cb))))"

text \<open>What the handlers use of the outside world.\<close>

record 'w agent_io =
  ag_GetPod :: "string \<Rightarrow> string \<Rightarrow> 'w \<Rightarrow> (string + kpod) \<times> 'w"
  ag_runner :: "'w client"
  ag_post :: "'w slack_api"
  ag_now :: "'w \<Rightarrow> time \<times> 'w"
  ag_rand :: "'w \<Rightarrow> bool \<times> 'w"
  ag_ack :: "'w \<Rightarrow> 'w"

definition putDeletionTime ::
    "'w agent_io \<Rightarrow> server \<Rightarrow> string \<Rightarrow> string \<Rightarrow> string \<Rightarrow> kpod \<Rightarrow> time \<Rightarrow> 'w \<Rightarrow> agent_error option \<times> 'w" where
  "putDeletionTime io s channel namespace pod po tm w =
     (let (success, w1) =
            (if \<not> devMood s
             then (case cl_PutDeletionTime (ag_runner io) (po_PodIP po) tm w of
                     (Some e, w') \<Rightarrow> (False, w') | (None, w') \<Rightarrow> (True, w'))
             else ag_rand io w);
          msg = (if success then MsgPodExtendSuccess (namespace @ ''/'' @ pod) tm
                 else MsgPodExtendFailure (namespace @ ''/'' @ pod))
      in case ag_post io channel msg w1 of
           (Some e, w') \<Rightarrow> (Some (SlackPostError e), w')
         | (None, w') \<Rightarrow> (None, w'))"

text \<open>The new deletion time: two hours more, but at most six hours from now.\<close>

definition extended_time :: "time \<Rightarrow> time \<Rightarrow> time" where
  "extended_time tm now =
     (let tm' = tm + Hour * extendDurationHours; limit = now + Hour * extendLimitHours
      in if time_after tm' limit then limit else tm')"

text \<open>In the development mode there is no client set, and the first access to it panics.\<close>

definition extendPod ::
    "'w agent_io \<Rightarrow> server \<Rightarrow> string \<Rightarrow> string \<Rightarrow> string \<Rightarrow> 'w \<Rightarrow> (agent_error option \<times> 'w) outcome" where
  "extendPod io s channel namespace pod w =
     (if devMood s then Panics
      else case ag_GetPod io namespace pod w of
        (Inl e, w1) \<Rightarrow> Returns (Some (PodGetError e), w1)
      | (Inr po, w1) \<Rightarrow>
          (case cl_GetStatus (ag_runner io) (po_PodIP po) w1 of
             (Inl e, w2) \<Rightarrow> Returns (Some (RunnerStatusError e), w2)
           | (Inr status, w2) \<Rightarrow>
               (let (tm, w3) = (case DeletionTime status of Some t \<Rightarrow> (t, w2) | None \<Rightarrow> ag_now io w2);
                    (now, w4) = ag_now io w3
                in Returns (putDeletionTime io s channel namespace pod po (extended_time tm now) w4))))"

definition deletePod ::
    "'w agent_io \<Rightarrow> server \<Rightarrow> string \<Rightarrow> string \<Rightarrow> string \<Rightarrow> 'w \<Rightarrow> (agent_error option \<times> 'w) outcome" where
  "deletePod io s channel namespace pod w =
     (if devMood s then Panics
      else case ag_GetPod io namespace pod w of
        (Inl e, w1) \<Rightarrow> Returns (Some (PodGetError e), w1)
      | (Inr po, w1) \<Rightarrow> Returns (putDeletionTime io s channel namespace pod po zero_time w1))"

text \<open>
  The events of the socket: interactive ones carry a callback when their data converts. The loop
  ends with an error when a handler fails or the channel is closed; otherwise it waits for more.
\<close>

datatype envelope = Interactive "interaction_callback option" | OtherEvent string | Closed

definition button_handler ::
    "'w agent_io \<Rightarrow> server \<Rightarrow> interaction_callback \<Rightarrow>
       (string \<Rightarrow> string \<Rightarrow> string \<Rightarrow> 'w \<Rightarrow> (agent_error option \<times> 'w) outcome) \<Rightarrow> 'w \<Rightarrow>
       (agent_error option \<times> 'w) outcome" where
  "button_handler io s cb handler w =
     (case getPodFromCallbackEvent cb of
        Panics \<Rightarrow> Panics
      | Returns (Inl e) \<Rightarrow> Returns (Some e, w)
      | Returns (Inr (ns, pod)) \<Rightarrow> handler (cb_ChannelID cb) ns pod w)"

definition handle_callback ::
    "'w agent_io \<Rightarrow> server \<Rightarrow> interaction_callback \<Rightarrow> 'w \<Rightarrow> (agent_error option \<times> 'w) outcome" where
  "handle_callback io s cb w =
     (if isExtendButtonEvent cb then button_handler io s cb (extendPod io s) w
      else if isDeleteButtonEvent cb then button_handler io s cb (deletePod io s) w
      else Returns (None, w))"

fun listenInteractiveEvents ::
    "'w agent_io \<Rightarrow> server \<Rightarrow> envelope list \<Rightarrow> 'w \<Rightarrow> (agent_error option \<times> 'w) outcome" where
  "listenInteractiveEvents io s [] w = Returns (None, w)"
| "listenInteractiveEvents io s (Closed # es) w = Returns (Some ChannelClosed, w)"
| "listenInteractiveEvents io s (OtherEvent t # es) w = listenInteractiveEvents io s es w"
| "listenInteractiveEvents io s (Interactive None # es) w = listenInteractiveEvents io s es w"
| "listenInteractiveEvents io s (Interactive (Some cb) # es) w =
     (case handle_callback io s cb w of
        Panics \<Rightarrow> Panics
      | Returns (Some e, w') \<Rightarrow> Returns (Some e, w')
      | Returns (None, w') \<Rightarrow> listenInteractiveEvents io s es (ag_ack io w'))"


subsection \<open>The payload on the wire\<close>

lemma decode_payload_print: "decode_payload (print_json (payload_json p)) = Some (Some p)"
proof -
  have lower: "map to_lower ''color'' = ''color''" "map to_lower ''text'' = ''text''"
    "map to_lower ''job'' = ''job''" "map to_lower ''pod'' = ''pod''"
    "map to_lower ''extend'' = ''extend''" "map to_lower ''channel'' = ''channel''"
    by code_simp+
  let ?fs = "[(''color'', JStr (Color p)), (''text'', JStr (Text p)), (''job'', JStr (Job p)),
    (''pod'', JStr (Pod p)), (''extend'', JBool (pl_Extend p)), (''channel'', JStr (pl_Channel p))]"
  have vals: "values_of ''color'' ?fs = [JStr (Color p)]" "values_of ''text'' ?fs = [JStr (Text p)]"
    "values_of ''job'' ?fs = [JStr (Job p)]" "values_of ''pod'' ?fs = [JStr (Pod p)]"
    "values_of ''extend'' ?fs = [JBool (pl_Extend p)]" "values_of ''channel'' ?fs = [JStr (pl_Channel p)]"
    unfolding values_of_simps lower by simp_all
  have "decode_stream (print_json (payload_json p)) = Some (JObj ?fs)"
    using decode_stream_print [of "payload_json p"] by (simp add: payload_json_def)
  then show ?thesis
    unfolding decode_payload_def by (simp only: vals option.case json.case dec_str.simps dec_bool.simps
        prod.case) simp
qed

text \<open>The network between the runner manager and the agent; a panic of the handler drops the connection.\<close>

definition agent_network :: "server \<Rightarrow> 'w slack_api \<Rightarrow> 'w network" where
  "agent_network s post req w =
     (case ServeHTTP s post req w of
        Panics \<Rightarrow> (Inl ''EOF'', w)
      | Returns (res, w') \<Rightarrow> (Inr res, w'))"

text \<open>The documented result of resolving an absolute path against the URL of the server.\<close>

definition resolves :: "url_lib \<Rightarrow> string \<Rightarrow> bool" where
  "resolves ul serverURL \<longleftrightarrow> (\<exists>u. up_Resolve ul serverURL resultAPIPath = Inr u \<and> url_path u = resultAPIPath)"

definition channel_of :: "server \<Rightarrow> string \<Rightarrow> string" where
  "channel_of s channel = (if channel \<noteq> [] then channel else defaultChannel s)"

lemma PostResult_agent:
  assumes "resolves ul serverURL"
  shows "PostResult ul (agent_network s post) serverURL channel res ext ns pod info w =
    (let p = makePayload res ns pod info
     in if channel_of s channel = [] then (Some (PostStatus StatusBadRequest ''channel is not specified''), w)
        else map_prod (map_option (PostStatus StatusInternalServerError)) (\<lambda>w. w)
               (post (channel_of s channel) (messageCIResult (Color p) (Text p) (Job p) (Pod p) ext) w))"
proof -
  obtain u where "up_Resolve ul serverURL resultAPIPath = Inr u" "url_path u = resultAPIPath"
    using assms by (auto simp: resolves_def)
  then show ?thesis
    by (auto simp: PostResult_def agent_network_def ServeHTTP_def decode_payload_print errorResponse_def
        plain_response_def channel_of_def status_code_defs Let_def split: prod.splits option.splits)
qed

lemma Pod_makePayload: "Pod (makePayload res ns pod info) = ns @ ''/'' @ pod"
  by (simp add: makePayload_def Let_def split: option.splits)

subsection \<open>Buttons\<close>

text \<open>What Slack sends back when a button is pressed: the ids and the value of its block.\<close>

definition click :: "block \<Rightarrow> string \<Rightarrow> interaction_callback" where
  "click b channel =
     \<lparr>cb_Type = InteractionTypeBlockActions, cb_ChannelID = channel,
      cb_BlockActions =
        (case b of
           SectionBlock t fs \<Rightarrow> []
         | ActionBlock i a v l \<Rightarrow> [\<lparr>ba_BlockID = i, ba_ActionID = a, ba_Value = v\<rparr>])\<rparr>"

lemma getPod_click:
  "CHR ''/'' \<notin> set ns \<Longrightarrow> CHR ''/'' \<notin> set pod \<Longrightarrow>
     getPodFromCallbackEvent (click (ActionBlock i a (ns @ ''/'' @ pod) l) ch) = Returns (Inr (ns, pod))"
  by (simp add: getPodFromCallbackEvent_def click_def split_go_pair)

lemma click_kind:
  "isExtendButtonEvent (click (ActionBlock extendBlockID extendButtonActionID v l) ch)"
  "\<not> isExtendButtonEvent (click (ActionBlock deleteBlockID deleteButtonActionID v l) ch)"
  "isDeleteButtonEvent (click (ActionBlock deleteBlockID deleteButtonActionID v l) ch)"
  by (simp_all add: isExtendButtonEvent_def isDeleteButtonEvent_def click_def button_id_defs)

subsection \<open>The deletion time\<close>

lemma extended_time_min: "extended_time tm now = min (tm + 2 * Hour) (now + 6 * Hour)"
  by (simp add: extended_time_def extendDurationHours_def extendLimitHours_def time_after_def Let_def)

text \<open>The agent in a cluster whose runner pods are \<open>pod_network\<close>; posting to Slack does not touch them.\<close>

definition agent_on_pods :: "pod_net agent_io \<Rightarrow> string \<Rightarrow> bool" where
  "agent_on_pods io channel \<longleftrightarrow>
     ag_runner io = NewClient pod_network \<and> (\<forall>msg w. ag_post io channel msg w = (None, w)) \<and>
     (\<forall>w. snd (ag_now io w) = w)"

lemma putDeletionTime_pods:
  assumes "agent_on_pods io ch" "\<not> devMood s" "plain_host (po_PodIP po)" "w (po_PodIP po) = Some r"
    and "rfc3339_range t"
  shows "putDeletionTime io s ch ns pod po t w =
    (None, w(po_PodIP po \<mapsto> r\<lparr>deletionTime := Some t\<rparr>))"
  using assms
  by (simp add: putDeletionTime_def agent_on_pods_def NewClient_def PutDeletionTime_pod)

lemma extendPod_pods:
  assumes "agent_on_pods io ch" "\<not> devMood s" "ag_GetPod io ns pod w = (Inr po, w)" "plain_host (po_PodIP po)"
    and "w (po_PodIP po) = Some r" "status_sendable (runner_status r)" "deletionTime r = Some dt"
    and "rfc3339_range (extended_time dt (fst (ag_now io w)))"
  shows "extendPod io s ch ns pod w =
    Returns (None, w(po_PodIP po \<mapsto> r\<lparr>deletionTime := Some (extended_time dt (fst (ag_now io w)))\<rparr>))"
proof -
  let ?t = "extended_time dt (fst (ag_now io w))"
  have now: "ag_now io w = (fst (ag_now io w), w)"
    using assms(1) by (metis agent_on_pods_def prod.collapse)
  have st: "cl_GetStatus (ag_runner io) (po_PodIP po) w = (Inr (runner_status r), w)"
    using assms by (simp add: agent_on_pods_def NewClient_def GetStatus_pod)
  have "DeletionTime (runner_status r) = Some dt" using assms(7) by (simp add: runner_status_def)
  with assms(2,3) st now have "extendPod io s ch ns pod w = Returns (putDeletionTime io s ch ns pod po ?t w)"
    by (simp add: extendPod_def Let_def case_prod_beta) (metis prod.collapse snd_conv)
  also have "\<dots> = Returns (None, w(po_PodIP po \<mapsto> r\<lparr>deletionTime := Some ?t\<rparr>))"
    using putDeletionTime_pods [of io ch s po w r ?t ns pod] assms by simp
  finally show ?thesis .
qed

lemma deletePod_pods:
  assumes "agent_on_pods io ch" "\<not> devMood s" "ag_GetPod io ns pod w = (Inr po, w)" "plain_host (po_PodIP po)"
    and "w (po_PodIP po) = Some r"
  shows "deletePod io s ch ns pod w = Returns (None, w(po_PodIP po \<mapsto> r\<lparr>deletionTime := Some zero_time\<rparr>))"
proof -
  have "rfc3339_range zero_time" by (rule rfc3339_rangeI) (simp_all add: Second_def)
  with putDeletionTime_pods [of io ch s po w r zero_time ns pod] assms show ?thesis by (simp add: deletePod_def)
qed

subsection \<open>Properties\<close>

text \<open>
  C24. A job result posted by the client ends up in Slack: over HTTP and JSON the agent posts one
  message with the text, job and pod of the payload, to the channel of the request or else to its
  default channel; with no channel at all nothing is posted and the client gets status 400; an
  error of Slack is reported to the client as status 500 with its text.
\<close>

theorem PostResult_reaches_Slack:
  assumes "resolves ul serverURL"
  shows "PostResult ul (agent_network s post) serverURL channel res ext ns pod info w =
    (let p = makePayload res ns pod info;
         ch = (if channel \<noteq> [] then channel else defaultChannel s)
     in if ch = [] then (Some (PostStatus StatusBadRequest ''channel is not specified''), w)
        else (case post ch (messageCIResult (Color p) (Text p) (Job p) (Pod p) ext) w of
                (Some e, w') \<Rightarrow> (Some (PostStatus StatusInternalServerError e), w')
              | (None, w') \<Rightarrow> (None, w')))"
  by (auto simp: PostResult_agent [OF assms] channel_of_def Let_def split: prod.splits option.splits)

definition sample_urls :: url_lib where
  "sample_urls = \<lparr>up_Parse = (\<lambda>s. Inr (if hasPrefix s ''http://'' then ''http'' else [], s)),
     up_Resolve = (\<lambda>base ref. Inr (base @ ref))\<rparr>"

definition log_post :: "(string \<times> slack_msg) list slack_api" where
  "log_post ch msg w = (None, w @ [(ch, msg)])"

lemma sample_urls_resolves: "resolves sample_urls ''http://agent''"
proof -
  have "url_path (''http://'' @ ''agent'' @ ''/result'') = ''/result''"
    unfolding url_path_def trimPrefix_http by simp
  then show ?thesis by (simp add: resolves_def sample_urls_def resultAPIPath_def)
qed

theorem PostResult_reaches_Slack_witness:
  "map fst (snd (PostResult sample_urls (agent_network \<lparr>defaultChannel = ''general'', devMood = False\<rparr> log_post)
       ''http://agent'' [] JobResultFailure True ''ns'' ''pod-1'' None [])) = [''general'']"
  using PostResult_reaches_Slack [where channel = "[]" and s = "\<lparr>defaultChannel = ''general'', devMood = False\<rparr>"
      and post = log_post and w = "[]" and res = JobResultFailure and ext = True and ns = "''ns''"
      and pod = "''pod-1''" and info = None, OF sample_urls_resolves]
  by (simp add: log_post_def Let_def)

text \<open>
  C25. The buttons of a result message lead back to the pod: for a namespace and a name without a
  slash, the message has exactly two buttons, pressing the first runs the extension of that pod and
  pressing the second its deletion, in the channel of the press.
\<close>

theorem buttons_dispatch:
  assumes "CHR ''/'' \<notin> set ns" and "CHR ''/'' \<notin> set pod"
  shows "\<exists>section b1 b2.
    mc_blocks (messageCIResult c t j (Pod (makePayload res ns pod info)) True) = [section, b1, b2] \<and>
    handle_callback io s (click b1 ch) w = extendPod io s ch ns pod w \<and>
    handle_callback io s (click b2 ch) w = deletePod io s ch ns pod w"
  using getPod_click [OF assms]
  by (simp add: messageCIResult_def Pod_makePayload handle_callback_def click_kind button_handler_def)
     (simp add: click_def)

definition quiet_io :: "kpod \<Rightarrow> pod_net agent_io" where
  "quiet_io po =
     \<lparr>ag_GetPod = (\<lambda>ns n w. (Inr po, w)), ag_runner = NewClient pod_network, ag_post = (\<lambda>c m w. (None, w)),
      ag_now = (\<lambda>w. (1000 * Second, w)), ag_rand = (\<lambda>w. (True, w)), ag_ack = (\<lambda>w. w)\<rparr>"

definition sample_po :: kpod where
  "sample_po = \<lparr>po_meta = empty_meta\<lparr>Name := ''pod-1'', Namespace := ''ns''\<rparr>, po_Phase = PodRunning,
     po_PodIP = ''10.0.0.1'', po_rest = JNull\<rparr>"

definition sample_agent :: server where
  "sample_agent = \<lparr>defaultChannel = ''general'', devMood = False\<rparr>"

theorem buttons_dispatch_witness:
  "\<exists>section b1 b2.
    mc_blocks (messageCIResult ''#fff'' ''t'' ''j'' (Pod (makePayload JobResultSuccess ''ns'' ''pod-1'' None)) True) =
      [section, b1, b2] \<and>
    handle_callback (quiet_io sample_po) sample_agent (click b1 ''ci'') Map.empty =
      extendPod (quiet_io sample_po) sample_agent ''ci'' ''ns'' ''pod-1'' Map.empty \<and>
    handle_callback (quiet_io sample_po) sample_agent (click b2 ''ci'') Map.empty =
      deletePod (quiet_io sample_po) sample_agent ''ci'' ''ns'' ''pod-1'' Map.empty"
  by (rule buttons_dispatch) simp_all

text \<open>
  C26. Pressing the extend button moves the deletion time of the pod two hours further but never
  beyond six hours from now: the pod ends up with the minimum of the two, no other field of any pod
  changes, and the new time is not before the old one as long as the old one is within the limit. A
  deletion time beyond the limit is brought back to it, so that the button then shortens the life of
  the pod.
\<close>

theorem extendPod_deletion_time:
  assumes "agent_on_pods io ch" and "\<not> devMood s"
    and "ag_GetPod io ns pod w = (Inr po, w)" and "plain_host (po_PodIP po)"
    and "w (po_PodIP po) = Some r" and "status_sendable (runner_status r)" and "deletionTime r = Some dt"
    and "rfc3339_range (extended_time dt (fst (ag_now io w)))"
  shows "extendPod io s ch ns pod w =
      Returns (None, w(po_PodIP po \<mapsto>
        r\<lparr>deletionTime := Some (min (dt + 2 * Hour) (fst (ag_now io w) + 6 * Hour))\<rparr>)) \<and>
    (dt \<le> min (dt + 2 * Hour) (fst (ag_now io w) + 6 * Hour) \<longleftrightarrow> dt \<le> fst (ag_now io w) + 6 * Hour)"
  using extendPod_pods [of io ch s ns pod w po r dt] assms by (simp add: extended_time_min Hour_def)

definition extended_runner :: runner where
  "extended_runner = debugging_runner\<lparr>deletionTime := Some (9000 * Hour)\<rparr>"

lemma extended_runner_sendable: "status_sendable (runner_status extended_runner)"
  using debugging_runner_sendable
  by (simp add: extended_runner_def status_sendable_def time_ptr_ok_def rfc3339_rangeI duration_defs)

theorem extendPod_deletion_time_witness:
  "extendPod (quiet_io sample_po) sample_agent ''ci'' ''ns'' ''pod-1'' [''10.0.0.1'' \<mapsto> extended_runner] =
     Returns (None, [''10.0.0.1'' \<mapsto> extended_runner\<lparr>deletionTime := Some (1000 * Second + 6 * Hour)\<rparr>])"
proof -
  have io: "agent_on_pods (quiet_io sample_po) ''ci''" by (simp add: agent_on_pods_def quiet_io_def)
  have "rfc3339_range (extended_time (9000 * Hour) (1000 * Second))"
    by (rule rfc3339_rangeI) (simp_all add: extended_time_min duration_defs)
  then show ?thesis
    using extendPod_deletion_time [OF io, of sample_agent "''ns''" "''pod-1''"
        "[''10.0.0.1'' \<mapsto> extended_runner]" sample_po extended_runner "9000 * Hour"]
      extended_runner_sendable
    by (simp add: sample_agent_def quiet_io_def sample_po_def plain_host_def extended_runner_def duration_defs)
qed

text \<open>
  C39. A button of a message whose pod is gone ends the loop of the agent: when the pod cannot be
  fetched, the event listener returns that error, the request is not acknowledged and no later event
  is handled.
\<close>

theorem missing_pod_ends_listener:
  assumes "\<not> devMood s" and "CHR ''/'' \<notin> set ns" and "CHR ''/'' \<notin> set pod"
    and "ag_GetPod io ns pod w = (Inl e, w')" and "b \<in> {extendBlockID, deleteBlockID}"
  shows "listenInteractiveEvents io s
      (Interactive (Some (click (ActionBlock b (b @ ''-button'') (ns @ ''/'' @ pod) l) ch)) # es) w =
    Returns (Some (PodGetError e), w')"
proof -
  let ?cb = "click (ActionBlock b (b @ ''-button'') (ns @ ''/'' @ pod) l) ch"
  have kind: "isExtendButtonEvent ?cb \<or> isDeleteButtonEvent ?cb"
    using assms(5) by (auto simp: isExtendButtonEvent_def isDeleteButtonEvent_def click_def button_id_defs)
  have "extendPod io s (cb_ChannelID ?cb) ns pod w = Returns (Some (PodGetError e), w')"
    "deletePod io s (cb_ChannelID ?cb) ns pod w = Returns (Some (PodGetError e), w')"
    using assms(1,4) by (simp_all add: extendPod_def deletePod_def)
  with kind have "handle_callback io s ?cb w = Returns (Some (PodGetError e), w')"
    by (auto simp: handle_callback_def button_handler_def getPod_click [OF assms(2,3)] simp del: append.simps)
  then show ?thesis by simp
qed

theorem missing_pod_ends_listener_witness:
  "listenInteractiveEvents ((quiet_io sample_po)\<lparr>ag_GetPod := \<lambda>ns n w. (Inl ''not found'', w)\<rparr>) sample_agent
     [Interactive (Some (click (ActionBlock deleteBlockID (deleteBlockID @ ''-button'') (''ns'' @ ''/'' @ ''pod-1'') [])
        ''ci'')), OtherEvent ''hello''] Map.empty =
   Returns (Some (PodGetError ''not found''), Map.empty)"
  by (rule missing_pod_ends_listener) (simp_all add: sample_agent_def)

text \<open>
  C40. The HTTP handler answers every request whose body is not the JSON value null, and dereferences
  a nil payload, which panics, exactly on a POST of JSON null to the result path.
\<close>

theorem ServeHTTP_panics_iff_null:
  "ServeHTTP s post r w = Panics \<longleftrightarrow>
     url_path (req_url r) = resultAPIPath \<and> req_method r = MethodPost \<and> req_content_type r = appjson \<and>
     decode_stream (req_body r) = Some JNull"
  by (auto simp: ServeHTTP_def decode_payload_def Let_def
      split: option.splits json.splits if_splits prod.splits)

end
