(* ===== verification/RunnerPool_Api.thy ===== *)
theory RunnerPool_Api
  imports Kube_Objects
begin

section \<open>api/v1alpha1: the RunnerPool resource and its webhooks\<close>

text \<open>
  The custom resource \<open>RunnerPool\<close> (\<open>runnerpool_types.go\<close>), its validation and accessors, and the
  admission webhooks (\<open>runnerpool_webhook.go\<close>). An access to \<open>split[1]\<close> beyond the end of the slice
  panics, which is \<open>None\<close> here.
\<close>

subsection \<open>Types\<close>

definition reservedEnvNames :: "string \<Rightarrow> bool" where
  "reservedEnvNames n \<longleftrightarrow>
     n \<in> {PodNameEnvName, PodNamespaceEnvName, RunnerOrgEnvName, RunnerRepoEnvName,
          RunnerPoolNameEnvName, RunnerOptionEnvName}"

record slack_config =
  Enable :: bool
  Channel :: string
  AgentServiceName :: string

record notification_config =
  Slack :: slack_config
  ExtendDuration :: string

record runner_container_spec =
  rc_Image :: string
  rc_ImagePullPolicy :: string
  rc_SecurityContext :: "opaque option"
  rc_EnvFrom :: "opaque list"
  rc_Env :: "env_var list"
  rc_Resources :: opaque
  rc_VolumeMounts :: "volume_mount list"

record runner_pod_template_spec =
  tmpl_Labels :: gomap
  tmpl_Annotations :: gomap
  RunnerContainer :: runner_container_spec
  ImagePullSecrets :: "opaque list"
  Volumes :: "volume list"
  NodeSelector :: gomap
  ServiceAccountName :: string
  AutomountServiceAccountToken :: "bool option"
  Tolerations :: "opaque list"

record runner_pool_spec =
  sp_Repository :: string
  sp_Organization :: string
  sp_CredentialSecretName :: string
  sp_Replicas :: int32
  sp_MaxRunnerPods :: int32
  sp_WorkVolume :: "volume_source option"
  sp_SetupCommand :: "string list"
  sp_RecreateDeadline :: string
  sp_Notification :: notification_config
  sp_Template :: runner_pod_template_spec
  sp_DenyDisruption :: bool

record runner_pool =
  rp_meta :: object_meta
  Spec :: runner_pool_spec
  Bound :: bool

subsection \<open>Validation\<close>

datatype field_error =
    Forbidden (fe_path: string) (fe_detail: string)
  | Invalid (fe_path: string) (fe_value: string) (fe_detail: string)

definition parse_ok :: "string \<Rightarrow> bool" where
  "parse_ok s \<longleftrightarrow> parseDuration s \<noteq> None"

definition reserved_env_errors :: "env_var list \<Rightarrow> field_error list" where
  "reserved_env_errors es =
     concat (map (\<lambda>(i, e).
       if reservedEnvNames (ev_Name e)
       then [Forbidden (''spec.template.runnerContainer.env['' @ utoa i @ '']'')
               (''using the reserved environment variable '' @ ev_Name e @ '' in '' @
                RunnerContainerName @ '' is forbidden'')]
       else []) (enumerate 0 es))"

definition repository_errors :: "string \<Rightarrow> field_error list" where
  "repository_errors r =
     (if r \<noteq> []
      then (let split = split_go (CHR ''/'') r
            in if length split \<noteq> 2 \<or> split ! 0 = [] \<or> split ! 1 = []
               then [Invalid ''spec.repository'' r (''this value should be '' @ [CHR 39] @ ''<owner>/<repo>'' @ [CHR 39])]
               else [])
      else [])"

definition validateCommon :: "runner_pool_spec \<Rightarrow> field_error list" where
  "validateCommon s =
     (if (sp_Repository s = [] \<and> sp_Organization s = []) \<or> (sp_Repository s \<noteq> [] \<and> sp_Organization s \<noteq> [])
      then [Invalid ''spec'' (sp_Repository s) ''only one of repository and organization can be set'']
      else []) @
     repository_errors (sp_Repository s) @
     (if \<not> (sp_MaxRunnerPods s = 0 \<or> sp_Replicas s <=s sp_MaxRunnerPods s)
      then [Invalid ''spec.maxRunnerPods'' (itoa (sint (sp_MaxRunnerPods s)))
              ''this value should be 0, or greater-than or equal-to replicas.'']
      else []) @
     (if \<not> parse_ok (sp_RecreateDeadline s)
      then [Invalid ''spec.recreateDeadline'' (sp_RecreateDeadline s)
              ''this value should be able to parse using time.ParseDuration'']
      else []) @
     (if ExtendDuration (sp_Notification s) \<noteq> [] \<and> \<not> parse_ok (ExtendDuration (sp_Notification s))
      then [Invalid ''spec.slackNotification.extendDuration'' (ExtendDuration (sp_Notification s))
              ''this value should be able to parse using time.ParseDuration'']
      else []) @
     reserved_env_errors (rc_Env (RunnerContainer (sp_Template s)))"

definition validateCreate :: "runner_pool_spec \<Rightarrow> field_error list" where
  "validateCreate s = validateCommon s"

definition validateUpdate :: "runner_pool_spec \<Rightarrow> runner_pool_spec \<Rightarrow> field_error list" where
  "validateUpdate s old =
     (if sp_Repository s \<noteq> sp_Repository old
      then [Forbidden ''spec.repository'' ''the field is immutable''] else []) @
     (if sp_Organization s \<noteq> sp_Organization old
      then [Forbidden ''spec.organization'' ''the field is immutable''] else []) @
     validateCommon s"

subsection \<open>Accessors\<close>

definition GetRunnerDeploymentName :: "runner_pool \<Rightarrow> string" where
  "GetRunnerDeploymentName rp = Name (rp_meta rp)"

definition GetRunnerSecretName :: "runner_pool \<Rightarrow> string" where
  "GetRunnerSecretName rp = ''runner-token-'' @ Name (rp_meta rp)"

definition IsOrgLevel :: "runner_pool \<Rightarrow> bool" where
  "IsOrgLevel rp \<longleftrightarrow> sp_Organization (Spec rp) \<noteq> []"

definition GetOwner :: "runner_pool \<Rightarrow> string" where
  "GetOwner rp =
     (if IsOrgLevel rp then sp_Organization (Spec rp)
      else hd (split_go (CHR ''/'') (sp_Repository (Spec rp))))"

definition GetRepository :: "runner_pool \<Rightarrow> string option" where
  "GetRepository rp =
     (if IsOrgLevel rp then Some []
      else (case split_go (CHR ''/'') (sp_Repository (Spec rp)) of
              _ # r # _ \<Rightarrow> Some r
            | _ \<Rightarrow> None))"

subsection \<open>Webhooks\<close>

definition Default :: "kube_lib \<Rightarrow> runner_pool \<Rightarrow> runner_pool" where
  "Default lib rp =
     rp\<lparr>rp_meta := (rp_meta rp)\<lparr>Finalizers := AddFinalizer lib RunnerPoolFinalizer (Finalizers (rp_meta rp))\<rparr>\<rparr>"

text \<open>The result of a validator: \<open>NewInvalid\<close> with the name and the errors, or nil.\<close>

type_synonym invalid = "string \<times> field_error list"

definition ValidateCreate :: "runner_pool \<Rightarrow> invalid option" where
  "ValidateCreate rp =
     (let errs = validateCreate (Spec rp)
      in if errs = [] then None else Some (Name (rp_meta rp), errs))"

definition ValidateUpdate :: "runner_pool \<Rightarrow> runner_pool \<Rightarrow> invalid option" where
  "ValidateUpdate oldRp newRp =
     (let errs = validateUpdate (Spec newRp) (Spec oldRp)
      in if errs = [] then None else Some (Name (rp_meta newRp), errs))"

definition ValidateDelete :: "runner_pool \<Rightarrow> invalid option" where
  "ValidateDelete rp = None"

subsection \<open>What an admitted spec satisfies\<close>

definition repository_form :: "string \<Rightarrow> bool" where
  "repository_form r \<longleftrightarrow>
     (\<exists>owner repo. r = owner @ ''/'' @ repo \<and> owner \<noteq> [] \<and> repo \<noteq> [] \<and>
        CHR ''/'' \<notin> set owner \<and> CHR ''/'' \<notin> set repo)"

definition spec_ok :: "runner_pool_spec \<Rightarrow> bool" where
  "spec_ok s \<longleftrightarrow>
     (sp_Organization s = [] \<and> repository_form (sp_Repository s) \<or>
      sp_Organization s \<noteq> [] \<and> sp_Repository s = []) \<and>
     (sp_MaxRunnerPods s = 0 \<or> sint (sp_Replicas s) \<le> sint (sp_MaxRunnerPods s)) \<and>
     (\<exists>d. parseDuration (sp_RecreateDeadline s) = Some d) \<and>
     (ExtendDuration (sp_Notification s) \<noteq> [] \<longrightarrow>
        (\<exists>d. parseDuration (ExtendDuration (sp_Notification s)) = Some d)) \<and>
     (\<forall>e\<in>set (rc_Env (RunnerContainer (sp_Template s))). \<not> reservedEnvNames (ev_Name e))"

lemma repository_errors_iff: "repository_errors r = [] \<longleftrightarrow> r = [] \<or> repository_form r"
proof (cases "r = []")
  case False
  show ?thesis
  proof
    assume "repository_errors r = []"
    with False obtain a b where "split_go (CHR ''/'') r = [a, b]" "a \<noteq> []" "b \<noteq> []"
      by (auto simp: repository_errors_def Let_def numeral_2_eq_2 length_Suc_conv split: if_splits)
    then show "r = [] \<or> repository_form r"
      using split_go_pairD [of "CHR ''/''" r a b] by (auto simp: repository_form_def)
  next
    assume "r = [] \<or> repository_form r"
    with False show "repository_errors r = []"
      by (auto simp: repository_form_def repository_errors_def split_go_pair)
  qed
qed (simp add: repository_errors_def)

lemma repository_form_nonempty: "repository_form r \<Longrightarrow> r \<noteq> []"
  by (auto simp: repository_form_def)

lemma concat_enumerate_if:
  "concat (map (\<lambda>(i, e). if P e then [f i e] else []) (enumerate n es)) = [] \<longleftrightarrow> (\<forall>e\<in>set es. \<not> P e)"
  by (induction es arbitrary: n) auto

lemma reserved_env_errors_iff:
  "reserved_env_errors es = [] \<longleftrightarrow> (\<forall>e\<in>set es. \<not> reservedEnvNames (ev_Name e))"
  unfolding reserved_env_errors_def by (rule concat_enumerate_if)

lemma validateCommon_iff: "validateCommon s = [] \<longleftrightarrow> spec_ok s"
  unfolding validateCommon_def append_is_Nil_conv repository_errors_iff reserved_env_errors_iff spec_ok_def
    parse_ok_def
  using repository_form_nonempty [of "sp_Repository s"]
  by (auto simp: word_sle_eq split: if_splits)

lemma spec_ok_GetRepository: "spec_ok (Spec rp) \<Longrightarrow> \<exists>r. GetRepository rp = Some r"
  by (auto simp: spec_ok_def GetRepository_def IsOrgLevel_def repository_form_def split_go_pair)


text \<open>The life of a resource at the API server: admitted when created, then at every update.\<close>

inductive pool_history :: "runner_pool \<Rightarrow> runner_pool \<Rightarrow> bool" for rp0 where
  created: "ValidateCreate rp0 = None \<Longrightarrow> pool_history rp0 rp0"
| updated: "pool_history rp0 rp \<Longrightarrow> ValidateUpdate rp rp' = None \<Longrightarrow> pool_history rp0 rp'"

lemma ValidateCreate_None: "ValidateCreate rp = None \<longleftrightarrow> spec_ok (Spec rp)"
  by (simp add: ValidateCreate_def validateCreate_def Let_def validateCommon_iff)

lemma ValidateUpdate_None:
  "ValidateUpdate old new = None \<longleftrightarrow>
     spec_ok (Spec new) \<and> sp_Repository (Spec new) = sp_Repository (Spec old) \<and>
     sp_Organization (Spec new) = sp_Organization (Spec old)"
  by (auto simp: ValidateUpdate_def validateUpdate_def Let_def validateCommon_iff)

lemma pool_history_ok:
  "pool_history rp0 rp \<Longrightarrow>
     spec_ok (Spec rp) \<and> sp_Repository (Spec rp) = sp_Repository (Spec rp0) \<and>
     sp_Organization (Spec rp) = sp_Organization (Spec rp0)"
  by (induction rule: pool_history.induct) (auto simp: ValidateCreate_None ValidateUpdate_None)

lemma owner_repository_cong:
  assumes "sp_Repository (Spec rp) = sp_Repository (Spec rp')"
    and "sp_Organization (Spec rp) = sp_Organization (Spec rp')"
  shows "GetOwner rp = GetOwner rp'" "GetRepository rp = GetRepository rp'"
  using assms by (simp_all add: GetOwner_def GetRepository_def IsOrgLevel_def)

subsection \<open>Properties\<close>

definition sample_container_spec :: runner_container_spec where
  "sample_container_spec =
     \<lparr>rc_Image = [], rc_ImagePullPolicy = [], rc_SecurityContext = None, rc_EnvFrom = [],
      rc_Env = [\<lparr>ev_Name = ''LANG'', ev_Value = ''C'', ev_ValueFrom = None\<rparr>], rc_Resources = JNull,
      rc_VolumeMounts = []\<rparr>"

definition sample_template :: runner_pod_template_spec where
  "sample_template =
     \<lparr>tmpl_Labels = Some [(''team'', ''a'')], tmpl_Annotations = None,
      RunnerContainer = sample_container_spec, ImagePullSecrets = [], Volumes = [], NodeSelector = None,
      ServiceAccountName = ''default'', AutomountServiceAccountToken = None, Tolerations = []\<rparr>"

definition sample_spec :: runner_pool_spec where
  "sample_spec =
     \<lparr>sp_Repository = ''cybozu/meows'', sp_Organization = [], sp_CredentialSecretName = [],
      sp_Replicas = 1, sp_MaxRunnerPods = 3, sp_WorkVolume = None, sp_SetupCommand = [''make''],
      sp_RecreateDeadline = ''24h'',
      sp_Notification = \<lparr>Slack = \<lparr>Enable = True, Channel = ''ci'', AgentServiceName = []\<rparr>,
                         ExtendDuration = ''20m''\<rparr>,
      sp_Template = sample_template, sp_DenyDisruption = True\<rparr>"

definition sample_pool :: runner_pool where
  "sample_pool =
     \<lparr>rp_meta = empty_meta\<lparr>Name := ''pool'', Namespace := ''ns''\<rparr>, Spec = sample_spec, Bound = False\<rparr>"

lemma sample_durations:
  "parseDuration ''24h'' = Some (24 * Hour)" "parseDuration ''20m'' = Some (20 * Minute)"
  by (simp_all add: parseDuration_def parseDuration_loop.simps parseDuration_item_def leadingInt_def
      duration_defs unit_char_def unitMap_def is_digit_def digit_val_def)

lemma sample_spec_ok: "spec_ok sample_spec"
proof -
  have "repository_form ''cybozu/meows''"
    unfolding repository_form_def by (intro exI [of _ "''cybozu''"] exI [of _ "''meows''"]) simp
  moreover have "\<not> reservedEnvNames ''LANG''" by (simp add: reservedEnvNames_def env_name_defs)
  ultimately show ?thesis
    by (simp add: spec_ok_def sample_spec_def sample_template_def sample_container_spec_def sample_durations)
qed

text \<open>
  C34. The creation webhook admits exactly the well-formed pools: one of organization and repository
  is set, the repository has the form owner/repo with both parts non-empty, the maximum is 0 or at
  least the number of replicas, the durations parse, and no reserved variable is overridden.
\<close>

theorem ValidateCreate_exact: "ValidateCreate rp = None \<longleftrightarrow> spec_ok (Spec rp)"
  by (rule ValidateCreate_None)

text \<open>
  C33. Along every history of admitted updates of a pool, the owner and the repository are those of
  the creation, reading them never panics, and for a repository-level pool they are the two parts of
  the repository name.
\<close>

theorem owner_immutable_no_panic:
  assumes "pool_history rp0 rp"
  shows "GetOwner rp = GetOwner rp0 \<and> GetRepository rp = GetRepository rp0 \<and>
    (\<exists>repo. GetRepository rp = Some repo \<and>
       (if IsOrgLevel rp then GetOwner rp = sp_Organization (Spec rp) \<and> repo = []
        else GetOwner rp @ ''/'' @ repo = sp_Repository (Spec rp) \<and> GetOwner rp \<noteq> [] \<and> repo \<noteq> []))"
proof -
  have ok: "spec_ok (Spec rp)" and eq: "sp_Repository (Spec rp) = sp_Repository (Spec rp0)"
    "sp_Organization (Spec rp) = sp_Organization (Spec rp0)"
    using pool_history_ok [OF assms] by auto
  from ok have "\<exists>repo. GetRepository rp = Some repo \<and>
       (if IsOrgLevel rp then GetOwner rp = sp_Organization (Spec rp) \<and> repo = []
        else GetOwner rp @ ''/'' @ repo = sp_Repository (Spec rp) \<and> GetOwner rp \<noteq> [] \<and> repo \<noteq> [])"
    by (auto simp: spec_ok_def GetRepository_def GetOwner_def IsOrgLevel_def repository_form_def
        split_go_pair)
  with owner_repository_cong [OF eq] show ?thesis by simp
qed

theorem owner_immutable_no_panic_witness:
  "GetOwner (sample_pool\<lparr>Spec := sample_spec\<lparr>sp_Replicas := 2\<rparr>\<rparr>) = GetOwner sample_pool"
proof -
  have "spec_ok (sample_spec\<lparr>sp_Replicas := 2\<rparr>)"
    using sample_spec_ok by (simp add: spec_ok_def sample_spec_def)
  then have "pool_history sample_pool (sample_pool\<lparr>Spec := sample_spec\<lparr>sp_Replicas := 2\<rparr>\<rparr>)"
    using sample_spec_ok
    by (intro updated [OF created]) (simp_all add: ValidateCreate_None ValidateUpdate_None sample_pool_def)
  from owner_immutable_no_panic [OF this] show ?thesis by blast
qed

text \<open>
  The update webhook admits a new spec exactly when it would be admitted at creation and leaves
  organization and repository as they were.
\<close>

lemma ValidateUpdate_exact:
  "ValidateUpdate old new = None \<longleftrightarrow>
     ValidateCreate new = None \<and> sp_Repository (Spec new) = sp_Repository (Spec old) \<and>
     sp_Organization (Spec new) = sp_Organization (Spec old)"
  by (simp add: ValidateUpdate_None ValidateCreate_None)

end
