(* ===== verification/GitHub_Client.thy ===== *)
theory GitHub_Client
  imports Go_Http Job_Info
begin

section \<open>github/client.go and github/fakeclient.go: self-hosted runners at GitHub\<close>

text \<open>
  The client that lists and removes the runners registered at GitHub and creates registration
  tokens, its factory, and the fake of both. The calls of the \<open>go-github\<close> package are the record
  \<open>gh_api\<close>, a parameter. \<open>ListRunners\<close> follows the pages of the answer in a loop, which need not end
  for every server, so its result is an option. The locale \<open>github_client\<close> states what a client
  promises to the runner manager; the fake satisfies it, and so does the real client on a server
  that pages its list as GitHub documents it.
\<close>

subsection \<open>Runners\<close>

definition statusOnline :: string where "statusOnline = ''online''"

record gh_runner =
  r_ID :: int
  r_Name :: string
  r_Online :: bool
  r_Busy :: bool
  r_Labels :: "string list"

text \<open>A runner as the API returns it: every field is a pointer.\<close>

record api_runner =
  ar_ID :: "int option"
  ar_Name :: "string option"
  ar_Status :: "string option"
  ar_Busy :: "bool option"
  ar_Labels :: "string option list"

text \<open>The getters of the API package: the zero value for nil.\<close>

definition get_or :: "'a \<Rightarrow> 'a option \<Rightarrow> 'a" where
  "get_or z p = (case p of None \<Rightarrow> z | Some v \<Rightarrow> v)"

definition convert :: "api_runner \<Rightarrow> gh_runner" where
  "convert g = \<lparr>r_ID = get_or 0 (ar_ID g), r_Name = get_or [] (ar_Name g),
     r_Online = (get_or [] (ar_Status g) = statusOnline), r_Busy = get_or False (ar_Busy g),
     r_Labels = map (get_or []) (ar_Labels g)\<rparr>"

definition hasLabels :: "gh_runner \<Rightarrow> string list \<Rightarrow> bool" where
  "hasLabels r labels \<longleftrightarrow> list_all (\<lambda>required. required \<in> set (r_Labels r)) labels"

subsection \<open>The client interface and the calls of the API package\<close>

datatype gh_error =
    UrlError (ue_Op: string) (ue_URL: string) (ue_Err: string)
  | ApiError string
  | InvalidStatus int
  | RedactedToken string
  | InvalidCredential
  | NotExistError

record registration_token =
  Token :: string
  ExpiresAt :: time

record 'w gh_api =
  api_CreateOrganizationRegistrationToken ::
    "string \<Rightarrow> 'w \<Rightarrow> (gh_error + registration_token \<times> int) \<times> 'w"
  api_CreateRegistrationToken ::
    "string \<Rightarrow> string \<Rightarrow> 'w \<Rightarrow> (gh_error + registration_token \<times> int) \<times> 'w"
  api_ListOrganizationRunners ::
    "string \<Rightarrow> nat \<Rightarrow> nat \<Rightarrow> 'w \<Rightarrow> (gh_error + api_runner list \<times> int \<times> nat) \<times> 'w"
  api_ListRunners ::
    "string \<Rightarrow> string \<Rightarrow> nat \<Rightarrow> nat \<Rightarrow> 'w \<Rightarrow> (gh_error + api_runner list \<times> int \<times> nat) \<times> 'w"
  api_RemoveOrganizationRunner :: "string \<Rightarrow> int \<Rightarrow> 'w \<Rightarrow> (gh_error + int) \<times> 'w"
  api_RemoveRunner :: "string \<Rightarrow> string \<Rightarrow> int \<Rightarrow> 'w \<Rightarrow> (gh_error + int) \<times> 'w"
  api_sleep :: "duration \<Rightarrow> 'w \<Rightarrow> 'w"

record 'w gh_client =
  ghc_CreateRegistrationToken :: "string \<Rightarrow> string \<Rightarrow> 'w \<Rightarrow> (gh_error + registration_token) \<times> 'w"
  ghc_ListRunners ::
    "string \<Rightarrow> string \<Rightarrow> string list \<Rightarrow> 'w \<Rightarrow> ((gh_error + gh_runner list) \<times> 'w) option"
  ghc_RemoveRunner :: "string \<Rightarrow> string \<Rightarrow> int \<Rightarrow> 'w \<Rightarrow> gh_error option \<times> 'w"

record client_credential =
  PersonalAccessToken :: string
  AppID :: int
  AppInstallationID :: int
  PrivateKey :: string
  PrivateKeyPath :: string

subsection \<open>clientWrapper\<close>

definition CreateRegistrationToken ::
    "'w gh_api \<Rightarrow> string \<Rightarrow> string \<Rightarrow> 'w \<Rightarrow> (gh_error + registration_token) \<times> 'w" where
  "CreateRegistrationToken api owner repo w =
     (case (if repo = [] then api_CreateOrganizationRegistrationToken api owner w
            else api_CreateRegistrationToken api owner repo w) of
        (Inl (UrlError op url e), w') \<Rightarrow>
          (Inl (RedactedToken (''failed to create registration token: '' @ op @ '' '' @ url)), w')
      | (Inl err, w') \<Rightarrow> (Inl err, w')
      | (Inr (token, code), w') \<Rightarrow>
          if code \<noteq> StatusCreated then (Inl (InvalidStatus code), w') else (Inr token, w'))"

definition list_page ::
    "'w gh_api \<Rightarrow> string \<Rightarrow> string \<Rightarrow> nat \<Rightarrow> 'w \<Rightarrow> (gh_error + api_runner list \<times> int \<times> nat) \<times> 'w" where
  "list_page api owner repo page w =
     (if repo = [] then api_ListOrganizationRunners api owner 100 page w
      else api_ListRunners api owner repo 100 page w)"

definition page_runners :: "string list \<Rightarrow> api_runner list \<Rightarrow> gh_runner list" where
  "page_runners labels rs = filter (\<lambda>r. hasLabels r labels) (map convert rs)"

partial_function (option) ListRunners_loop ::
    "'w gh_api \<Rightarrow> string \<Rightarrow> string \<Rightarrow> string list \<Rightarrow> nat \<Rightarrow> gh_runner list \<Rightarrow> 'w \<Rightarrow>
       ((gh_error + gh_runner list) \<times> 'w) option" where
  "ListRunners_loop api owner repo labels page runners w =
     (case list_page api owner repo page w of
        (Inl err, w') \<Rightarrow> Some (Inl err, w')
      | (Inr (rs, code, next), w') \<Rightarrow>
          if code \<noteq> StatusOK then Some (Inl (InvalidStatus code), w')
          else (let runners' = runners @ page_runners labels rs
                in if next = 0 then Some (Inr runners', w')
                   else ListRunners_loop api owner repo labels next runners' (api_sleep api 500000 w')))"

definition ListRunners ::
    "'w gh_api \<Rightarrow> string \<Rightarrow> string \<Rightarrow> string list \<Rightarrow> 'w \<Rightarrow> ((gh_error + gh_runner list) \<times> 'w) option" where
  "ListRunners api owner repo labels w = ListRunners_loop api owner repo labels 0 [] w"

definition RemoveRunner ::
    "'w gh_api \<Rightarrow> string \<Rightarrow> string \<Rightarrow> int \<Rightarrow> 'w \<Rightarrow> gh_error option \<times> 'w" where
  "RemoveRunner api owner repo runnerID w =
     (case (if repo = [] then api_RemoveOrganizationRunner api owner runnerID w
            else api_RemoveRunner api owner repo runnerID w) of
        (Inl err, w') \<Rightarrow> (Some err, w')
      | (Inr code, w') \<Rightarrow>
          if code \<noteq> StatusNoContent then (Some (InvalidStatus code), w') else (None, w'))"

definition clientWrapper :: "'w gh_api \<Rightarrow> 'w gh_client" where
  "clientWrapper api = \<lparr>ghc_CreateRegistrationToken = CreateRegistrationToken api,
     ghc_ListRunners = ListRunners api, ghc_RemoveRunner = RemoveRunner api\<rparr>"

text \<open>
  The transports a client is built on: one with a personal access token, and those of the
  \<open>ghinstallation\<close> package, which can fail on a key they cannot use.
\<close>

record 'w gh_transports =
  tr_pat :: "string \<Rightarrow> 'w gh_api"
  tr_app_key :: "int \<Rightarrow> int \<Rightarrow> string \<Rightarrow> gh_error + 'w gh_api"
  tr_app_key_file :: "int \<Rightarrow> int \<Rightarrow> string \<Rightarrow> gh_error + 'w gh_api"

definition newClientFromPAT :: "'w gh_transports \<Rightarrow> string \<Rightarrow> 'w gh_client" where
  "newClientFromPAT tr pat = clientWrapper (tr_pat tr pat)"

definition newClientFromAppKey :: "'w gh_transports \<Rightarrow> int \<Rightarrow> int \<Rightarrow> string \<Rightarrow> gh_error + 'w gh_client" where
  "newClientFromAppKey tr appID insID key =
     (case tr_app_key tr appID insID key of Inl err \<Rightarrow> Inl err | Inr rt \<Rightarrow> Inr (clientWrapper rt))"

definition newClientFromAppKeyFile :: "'w gh_transports \<Rightarrow> int \<Rightarrow> int \<Rightarrow> string \<Rightarrow> gh_error + 'w gh_client" where
  "newClientFromAppKeyFile tr appID insID path =
     (case tr_app_key_file tr appID insID path of Inl err \<Rightarrow> Inl err | Inr rt \<Rightarrow> Inr (clientWrapper rt))"

definition New :: "'w gh_transports \<Rightarrow> client_credential \<Rightarrow> gh_error + 'w gh_client" where
  "New tr cred =
     (if PersonalAccessToken cred \<noteq> [] then Inr (newClientFromPAT tr (PersonalAccessToken cred))
      else if PrivateKey cred \<noteq> []
      then newClientFromAppKey tr (AppID cred) (AppInstallationID cred) (PrivateKey cred)
      else if PrivateKeyPath cred \<noteq> []
      then newClientFromAppKeyFile tr (AppID cred) (AppInstallationID cred) (PrivateKeyPath cred)
      else Inl InvalidCredential)"

subsection \<open>The fake\<close>

record fake_factory =
  f_runners :: "string \<Rightarrow> gh_runner list"
  expiredAtDuration :: duration
  f_now :: time

definition NewFakeClientFactory :: "time \<Rightarrow> fake_factory" where
  "NewFakeClientFactory now = \<lparr>f_runners = (\<lambda>k. []), expiredAtDuration = 1 * Hour, f_now = now\<rparr>"

definition genKey :: "string \<Rightarrow> string \<Rightarrow> string" where
  "genKey owner repo = (if repo = [] then owner else owner @ ''/'' @ repo)"

definition Fake_createRegistrationToken ::
    "string \<Rightarrow> string \<Rightarrow> fake_factory \<Rightarrow> (gh_error + registration_token) \<times> fake_factory" where
  "Fake_createRegistrationToken owner repo f =
     (Inr \<lparr>Token = ''faketoken'', ExpiresAt = f_now f + expiredAtDuration f\<rparr>, f)"

definition Fake_ListRunners ::
    "string \<Rightarrow> string \<Rightarrow> string list \<Rightarrow> fake_factory \<Rightarrow>
       ((gh_error + gh_runner list) \<times> fake_factory) option" where
  "Fake_ListRunners owner repo labels f =
     Some (Inr (filter (\<lambda>r. hasLabels r labels) (f_runners f (genKey owner repo))), f)"

fun remove_first_id :: "int \<Rightarrow> gh_runner list \<Rightarrow> gh_runner list option" where
  "remove_first_id i [] = None"
| "remove_first_id i (r # rs) =
     (if r_ID r = i then Some rs else map_option (\<lambda>rs'. r # rs') (remove_first_id i rs))"

definition Fake_RemoveRunner ::
    "string \<Rightarrow> string \<Rightarrow> int \<Rightarrow> fake_factory \<Rightarrow> gh_error option \<times> fake_factory" where
  "Fake_RemoveRunner owner repo runnerID f =
     (case remove_first_id runnerID (f_runners f (genKey owner repo)) of
        None \<Rightarrow> (Some NotExistError, f)
      | Some rs \<Rightarrow> (None, f\<lparr>f_runners := (f_runners f)(genKey owner repo := rs)\<rparr>))"

definition SetRunners :: "(string \<Rightarrow> gh_runner list) \<Rightarrow> fake_factory \<Rightarrow> fake_factory" where
  "SetRunners rs f = f\<lparr>f_runners := rs\<rparr>"

definition SetExpiredAtDuration :: "duration \<Rightarrow> fake_factory \<Rightarrow> fake_factory" where
  "SetExpiredAtDuration d f = f\<lparr>expiredAtDuration := d\<rparr>"

definition Fake_client :: "fake_factory gh_client" where
  "Fake_client = \<lparr>ghc_CreateRegistrationToken = Fake_createRegistrationToken,
     ghc_ListRunners = Fake_ListRunners, ghc_RemoveRunner = Fake_RemoveRunner\<rparr>"

definition Fake_New :: "client_credential \<Rightarrow> gh_error + fake_factory gh_client" where
  "Fake_New cred = Inr Fake_client"


subsection \<open>Pages\<close>

lemma page_runners_append: "page_runners ls (xs @ ys) = page_runners ls xs @ page_runners ls ys"
  by (simp add: page_runners_def)

text \<open>
  A server that pages its list: page numbers start at 1, an absent number means the first page, and
  the answer names the next page while there is one. \<open>good\<close> describes the worlds in which it does.
\<close>

definition serves_pages ::
    "'w gh_api \<Rightarrow> string \<Rightarrow> string \<Rightarrow> ('w \<Rightarrow> bool) \<Rightarrow> api_runner list list \<Rightarrow> bool" where
  "serves_pages api owner repo good pages \<longleftrightarrow>
     pages \<noteq> [] \<and> (\<forall>w d. good w \<longrightarrow> good (api_sleep api d w)) \<and>
     (\<forall>w p. good w \<longrightarrow> max 1 p \<le> length pages \<longrightarrow>
        (\<exists>w'. good w' \<and> list_page api owner repo p w =
           (Inr (pages ! (max 1 p - 1), StatusOK, if max 1 p < length pages then max 1 p + 1 else 0), w')))"

lemma serves_page:
  assumes "serves_pages api owner repo good pages" "good w" "max 1 p \<le> length pages"
  obtains w' where "good w'" "list_page api owner repo p w =
    (Inr (pages ! (max 1 p - 1), StatusOK, if max 1 p < length pages then max 1 p + 1 else 0), w')"
proof -
  have "\<exists>w'. good w' \<and> list_page api owner repo p w =
      (Inr (pages ! (max 1 p - 1), StatusOK, if max 1 p < length pages then max 1 p + 1 else 0), w')"
    using assms unfolding serves_pages_def by blast
  then show ?thesis using that by blast
qed

lemma ListRunners_loop_pages:
  assumes "serves_pages api owner repo good pages" "good w" "max 1 p \<le> length pages"
  shows "\<exists>w'. good w' \<and> ListRunners_loop api owner repo ls p acc w =
    Some (Inr (acc @ page_runners ls (concat (drop (max 1 p - 1) pages))), w')"
  using assms(2,3)
proof (induction "length pages - max 1 p" arbitrary: p acc w)
  case 0
  then have last: "max 1 p = length pages" by linarith
  obtain w' where page: "good w'" "list_page api owner repo p w =
      (Inr (pages ! (max 1 p - 1), StatusOK, if max 1 p < length pages then max 1 p + 1 else 0), w')"
    by (rule serves_page [OF assms(1) 0(2,3)])
  have w': "good w'" "list_page api owner repo p w = (Inr (pages ! (length pages - 1), StatusOK, 0), w')"
    using page unfolding last by simp_all
  have "max 1 p - 1 = length pages - 1" "pages \<noteq> []" using last by auto
  then have "drop (max 1 p - 1) pages = [pages ! (length pages - 1)]"
    using Cons_nth_drop_Suc [of "length pages - 1" pages] by simp
  with w' show ?case by (subst ListRunners_loop.simps) simp
next
  case (Suc n)
  then have less: "max 1 p < length pages" by arith
  obtain w' where page: "good w'" "list_page api owner repo p w =
      (Inr (pages ! (max 1 p - 1), StatusOK, if max 1 p < length pages then max 1 p + 1 else 0), w')"
    by (rule serves_page [OF assms(1) Suc.prems])
  have w': "good w'" "list_page api owner repo p w =
      (Inr (pages ! (max 1 p - 1), StatusOK, max 1 p + 1), w')"
    using page less by (simp_all only: if_True)
  have good: "good (api_sleep api 500000 w')" using assms(1) w'(1) by (simp add: serves_pages_def)
  have max: "max 1 (max 1 p + 1) = max 1 p + 1" by simp
  obtain w'' where "good w''"
    "ListRunners_loop api owner repo ls (max 1 p + 1) (acc @ page_runners ls (pages ! (max 1 p - 1)))
        (api_sleep api 500000 w') =
      Some (Inr ((acc @ page_runners ls (pages ! (max 1 p - 1))) @
                 page_runners ls (concat (drop (max 1 p) pages))), w'')"
  proof -
    have "n = length pages - (max 1 p + 1)" "max 1 p + 1 \<le> length pages" using Suc.hyps(2) less by linarith+
    then show ?thesis
      using that Suc.hyps(1) [of "max 1 p + 1", OF _ good, unfolded max add_diff_cancel_right'] by metis
  qed
  moreover have "drop (max 1 p - 1) pages = pages ! (max 1 p - 1) # drop (max 1 p) pages"
  proof -
    have lt: "max 1 p - 1 < length pages" and sc: "Suc (max 1 p - 1) = max 1 p" using less by linarith+
    show ?thesis using Cons_nth_drop_Suc [OF lt] unfolding sc by (rule sym)
  qed
  ultimately show ?case
    using w' by (subst ListRunners_loop.simps) (simp add: page_runners_append)
qed

lemma ListRunners_pages:
  assumes "serves_pages api owner repo good pages" "good w"
  shows "\<exists>w'. good w' \<and> ListRunners api owner repo ls w = Some (Inr (page_runners ls (concat pages)), w')"
  using ListRunners_loop_pages [OF assms, of 0 ls "[]"] assms(1)
  by (cases pages) (simp_all add: serves_pages_def ListRunners_def)

subsection \<open>The contract of a client\<close>

text \<open>Removing runners one after the other, up to the first error.\<close>

primrec remove_each :: "(int \<Rightarrow> 'w \<Rightarrow> gh_error option \<times> 'w) \<Rightarrow> gh_runner list \<Rightarrow> 'w \<Rightarrow> gh_error option \<times> 'w" where
  "remove_each remove [] w = (None, w)"
| "remove_each remove (r # rs) w =
     (case remove (r_ID r) w of
        (Some err, w') \<Rightarrow> (Some err, w')
      | (None, w') \<Rightarrow> remove_each remove rs w')"

text \<open>\<open>view w owner repo\<close> are the registered runners, \<open>good\<close> the worlds in which the client works.\<close>

locale github_client =
  fixes list :: "string \<Rightarrow> string \<Rightarrow> string list \<Rightarrow> 'w \<Rightarrow> ((gh_error + gh_runner list) \<times> 'w) option"
    and remove :: "string \<Rightarrow> string \<Rightarrow> int \<Rightarrow> 'w \<Rightarrow> gh_error option \<times> 'w"
    and view :: "'w \<Rightarrow> string \<Rightarrow> string \<Rightarrow> gh_runner list"
    and good :: "'w \<Rightarrow> bool"
  assumes list_view: "good w \<Longrightarrow>
      list owner repo ls w = Some (Inr (filter (\<lambda>r. hasLabels r ls) (view w owner repo)), w)"
    and ids_distinct: "good w \<Longrightarrow> distinct (map r_ID (view w owner repo))"
    and remove_view: "good w \<Longrightarrow> r \<in> set (view w owner repo) \<Longrightarrow>
      \<exists>w'. remove owner repo (r_ID r) w = (None, w') \<and> good w' \<and>
        view w' owner repo = filter (\<lambda>x. r_ID x \<noteq> r_ID r) (view w owner repo)"
begin

lemma remove_each_view:
  assumes "good w" "set rs \<subseteq> set (view w owner repo)" "distinct (map r_ID rs)"
  shows "\<exists>w'. remove_each (remove owner repo) rs w = (None, w') \<and> good w' \<and>
    view w' owner repo = filter (\<lambda>x. r_ID x \<notin> r_ID ` set rs) (view w owner repo)"
  using assms
proof (induction rs arbitrary: w)
  case (Cons r rs)
  then obtain w1 where w1: "remove owner repo (r_ID r) w = (None, w1)" "good w1"
    "view w1 owner repo = filter (\<lambda>x. r_ID x \<noteq> r_ID r) (view w owner repo)"
    using remove_view [of w r owner repo] by auto
  moreover have "set rs \<subseteq> set (view w1 owner repo)"
  proof -
    have "r_ID r \<notin> r_ID ` set rs" using Cons.prems by simp
    then have "\<forall>x\<in>set rs. r_ID x \<noteq> r_ID r" by (metis imageI)
    then show ?thesis using Cons.prems w1(3) by auto
  qed
  ultimately obtain w2 where "remove_each (remove owner repo) rs w1 = (None, w2)" "good w2"
    "view w2 owner repo = filter (\<lambda>x. r_ID x \<notin> r_ID ` set rs) (view w1 owner repo)"
    using Cons.IH [of w1] Cons.prems by auto
  with w1 show ?case by (auto intro: filter_cong)
qed simp

lemma list_then_remove_each:
  assumes "good w" "list owner repo ls w = Some (Inr rs, w')"
  shows "\<exists>w''. remove_each (remove owner repo) (filter P rs) w' = (None, w'') \<and> good w'' \<and>
    view w'' owner repo = filter (\<lambda>x. \<not> (hasLabels x ls \<and> P x)) (view w owner repo)"
proof -
  let ?v = "view w owner repo" and ?rs = "filter (\<lambda>x. P x \<and> hasLabels x ls) (view w owner repo)"
  have rs: "filter P rs = ?rs" "w' = w" using assms list_view [of w owner repo ls] by (auto simp: conj_commute)
  have d: "distinct (map r_ID ?v)" using assms(1) by (rule ids_distinct)
  then have "distinct (map r_ID ?rs)" by (rule distinct_map_filter)
  then obtain w'' where w'': "remove_each (remove owner repo) ?rs w = (None, w'')" "good w''"
    "view w'' owner repo = filter (\<lambda>x. r_ID x \<notin> r_ID ` set ?rs) ?v"
    using remove_each_view [of w ?rs owner repo] assms(1) by auto
  have "filter (\<lambda>x. r_ID x \<notin> r_ID ` set ?rs) ?v = filter (\<lambda>x. \<not> (hasLabels x ls \<and> P x)) ?v"
    using d by (intro filter_cong) (auto simp: distinct_map inj_on_def)
  with w'' rs show ?thesis by auto
qed

end

text \<open>The fake: distinct identifiers are all it needs.\<close>

definition fake_inv :: "fake_factory \<Rightarrow> bool" where
  "fake_inv f \<longleftrightarrow> (\<forall>k. distinct (map r_ID (f_runners f k)))"

lemma remove_first_id_filter:
  "r \<in> set rs \<Longrightarrow> distinct (map r_ID rs) \<Longrightarrow>
     remove_first_id (r_ID r) rs = Some (filter (\<lambda>x. r_ID x \<noteq> r_ID r) rs)"
proof (induction rs)
  case (Cons a rs)
  show ?case
  proof (cases "r_ID a = r_ID r")
    case True
    have "r_ID a \<notin> r_ID ` set rs" using Cons.prems by simp
    with True have "\<forall>x\<in>set rs. r_ID x \<noteq> r_ID r" by (metis imageI)
    with True show ?thesis by (simp add: filter_id_conv)
  next
    case False
    with Cons show ?thesis by auto
  qed
qed simp

interpretation fake_gh: github_client Fake_ListRunners Fake_RemoveRunner
  "\<lambda>f owner repo. f_runners f (genKey owner repo)" fake_inv
proof
  show "Fake_ListRunners owner repo ls f =
      Some (Inr (filter (\<lambda>r. hasLabels r ls) (f_runners f (genKey owner repo))), f)" for f owner repo ls
    by (simp add: Fake_ListRunners_def)
  show "distinct (map r_ID (f_runners f (genKey owner repo)))" if "fake_inv f" for f owner repo
    using that by (simp add: fake_inv_def)
  show "\<exists>f'. Fake_RemoveRunner owner repo (r_ID r) f = (None, f') \<and> fake_inv f' \<and>
      f_runners f' (genKey owner repo) = filter (\<lambda>x. r_ID x \<noteq> r_ID r) (f_runners f (genKey owner repo))"
    if "fake_inv f" "r \<in> set (f_runners f (genKey owner repo))" for f owner repo r
    using that by (auto simp: Fake_RemoveRunner_def fake_inv_def remove_first_id_filter distinct_map_filter)
qed

text \<open>
  A server with GitHub's documented behaviour: pages of the requested size, status 200, 201 and 204,
  and an error for a runner that is not registered.
\<close>

type_synonym gh_server = "string \<Rightarrow> string \<Rightarrow> api_runner list"

definition server_page :: "api_runner list \<Rightarrow> nat \<Rightarrow> nat \<Rightarrow> api_runner list \<times> int \<times> nat" where
  "server_page rs per page =
     (take per (drop (per * (max 1 page - 1)) rs), StatusOK,
      if per * max 1 page < length rs then max 1 page + 1 else 0)"

definition server_remove :: "string \<Rightarrow> string \<Rightarrow> int \<Rightarrow> gh_server \<Rightarrow> (gh_error + int) \<times> gh_server" where
  "server_remove owner repo i w =
     (if \<exists>g\<in>set (w owner repo). get_or 0 (ar_ID g) = i
      then (Inr StatusNoContent,
            w(owner := (w owner)(repo := filter (\<lambda>g. get_or 0 (ar_ID g) \<noteq> i) (w owner repo))))
      else (Inl (ApiError ''404''), w))"

definition server_api :: "gh_server gh_api" where
  "server_api =
     \<lparr>api_CreateOrganizationRegistrationToken =
        (\<lambda>owner w. (Inr (\<lparr>Token = ''token'', ExpiresAt = zero_time\<rparr>, StatusCreated), w)),
      api_CreateRegistrationToken =
        (\<lambda>owner repo w. (Inr (\<lparr>Token = ''token'', ExpiresAt = zero_time\<rparr>, StatusCreated), w)),
      api_ListOrganizationRunners = (\<lambda>owner per page w. (Inr (server_page (w owner []) per page), w)),
      api_ListRunners = (\<lambda>owner repo per page w. (Inr (server_page (w owner repo) per page), w)),
      api_RemoveOrganizationRunner = (\<lambda>owner. server_remove owner []),
      api_RemoveRunner = server_remove, api_sleep = (\<lambda>d w. w)\<rparr>"

definition server_pages :: "api_runner list \<Rightarrow> api_runner list list" where
  "server_pages rs = map (\<lambda>i. take 100 (drop (100 * i) rs)) [0..<max 1 ((length rs + 99) div 100)]"

lemma concat_blocks: "concat (map (\<lambda>i. take k (drop (k * i) xs)) [0..<n]) = take (k * n) xs"
  by (induction n) (simp_all flip: take_add add: add.commute)

lemma concat_server_pages: "concat (server_pages rs) = rs"
proof -
  have "length rs \<le> 100 * max 1 ((length rs + 99) div 100)" by linarith
  then show ?thesis by (simp add: server_pages_def concat_blocks)
qed

lemma server_list_page: "list_page server_api owner repo p w = (Inr (server_page (w owner repo) 100 p), w)"
  by (simp add: list_page_def server_api_def)

lemma server_serves: "serves_pages server_api owner repo (\<lambda>w'. w' = w) (server_pages (w owner repo))"
proof -
  let ?rs = "w owner repo"
  have next_page: "(100 * max 1 p < length ?rs) = (max 1 p < length (server_pages ?rs))" for p
    unfolding server_pages_def length_map length_upt by linarith
  have nth: "server_pages ?rs ! (max 1 p - 1) = take 100 (drop (100 * (max 1 p - 1)) ?rs)"
    if "max 1 p \<le> length (server_pages ?rs)" for p
  proof -
    have "max 1 p - 1 < max 1 ((length ?rs + 99) div 100)"
      using that by (simp add: server_pages_def)
    then show ?thesis by (simp add: server_pages_def)
  qed
  show ?thesis
    unfolding serves_pages_def server_list_page server_page_def
  proof (intro conjI allI impI)
    show "server_pages ?rs \<noteq> []" by (simp add: server_pages_def)
    show "api_sleep server_api d w' = w" if "w' = w" for w' d using that by (simp add: server_api_def)
  next
    fix w' p
    assume "w' = w" "max 1 p \<le> length (server_pages ?rs)"
    then show "\<exists>w''. w'' = w \<and>
        (Inr (take 100 (drop (100 * (max 1 p - 1)) (w' owner repo)), StatusOK,
              if 100 * max 1 p < length (w' owner repo) then max 1 p + 1 else 0), w') =
        (Inr (server_pages ?rs ! (max 1 p - 1), StatusOK,
              if max 1 p < length (server_pages ?rs) then max 1 p + 1 else 0), w'')"
      by (simp only: nth next_page) simp
  qed
qed

lemma server_ListRunners:
  "ListRunners server_api owner repo ls w = Some (Inr (page_runners ls (w owner repo)), w)"
  using ListRunners_pages [OF server_serves, of w w owner repo ls] by (simp add: concat_server_pages)

lemma server_RemoveRunner:
  "RemoveRunner server_api owner repo i w =
     (case server_remove owner repo i w of (Inl e, w') \<Rightarrow> (Some e, w') | (Inr c, w') \<Rightarrow> (None, w'))"
  by (auto simp: RemoveRunner_def server_api_def server_remove_def)

definition server_inv :: "gh_server \<Rightarrow> bool" where
  "server_inv w \<longleftrightarrow> (\<forall>owner repo. distinct (map (\<lambda>g. get_or 0 (ar_ID g)) (w owner repo)))"

lemma r_ID_convert [simp]: "r_ID (convert g) = get_or 0 (ar_ID g)"
  by (simp add: convert_def)

interpretation real_gh: github_client "ListRunners server_api" "RemoveRunner server_api"
  "\<lambda>w owner repo. map convert (w owner repo)" server_inv
proof
  show "ListRunners server_api owner repo ls w =
      Some (Inr (filter (\<lambda>r. hasLabels r ls) (map convert (w owner repo))), w)" for owner repo ls w
    by (simp add: server_ListRunners page_runners_def)
  show "distinct (map r_ID (map convert (w owner repo)))" if "server_inv w" for w owner repo
    using that by (simp add: server_inv_def comp_def)
  show "\<exists>w'. RemoveRunner server_api owner repo (r_ID r) w = (None, w') \<and> server_inv w' \<and>
      map convert (w' owner repo) = filter (\<lambda>x. r_ID x \<noteq> r_ID r) (map convert (w owner repo))"
    if "server_inv w" "r \<in> set (map convert (w owner repo))" for w owner repo r
    using that
    by (auto simp: server_RemoveRunner server_remove_def server_inv_def filter_map comp_def
        distinct_map_filter)
qed


subsection \<open>Properties\<close>

text \<open>
  C27. Against a server that pages its answer, \<open>ListRunners\<close> returns: it ends after the last page, and
  its result is every runner of every page that has all the required labels, in order, none twice
  and none left out.
\<close>

theorem ListRunners_all_pages:
  assumes "serves_pages api owner repo good pages" and "good w"
  shows "\<exists>w'. ListRunners api owner repo labels w =
    Some (Inr (filter (\<lambda>r. \<forall>l\<in>set labels. l \<in> set (r_Labels r)) (map convert (concat pages))), w')"
  using ListRunners_pages [OF assms, of labels]
  by (auto simp: page_runners_def hasLabels_def list_all_iff)

definition sample_api_runner :: "nat \<Rightarrow> api_runner" where
  "sample_api_runner i = \<lparr>ar_ID = Some (int i), ar_Name = Some (''runner-'' @ utoa i),
     ar_Status = Some statusOnline, ar_Busy = Some (i = 3), ar_Labels = [Some ''ns/pool'']\<rparr>"

definition sample_server :: gh_server where
  "sample_server owner repo = (if owner = ''org'' \<and> repo = [] then map sample_api_runner [0..<250] else [])"

theorem ListRunners_all_pages_witness:
  "\<exists>w'. ListRunners server_api ''org'' [] [''ns/pool''] sample_server =
     Some (Inr (map convert (map sample_api_runner [0..<250])), w')"
proof -
  have pages: "concat (server_pages (sample_server ''org'' [])) = map sample_api_runner [0..<250]"
    by (simp only: concat_server_pages) (simp only: sample_server_def, simp)
  have all: "filter (\<lambda>r. \<forall>l\<in>set [''ns/pool'']. l \<in> set (r_Labels r)) (map convert (map sample_api_runner [0..<250])) =
      map convert (map sample_api_runner [0..<250])"
    by (intro filter_True) (auto simp: convert_def sample_api_runner_def get_or_def)
  show ?thesis
    using ListRunners_all_pages [where owner = "''org''" and repo = "[]" and labels = "[''ns/pool'']"
      and w = sample_server, OF server_serves refl]
    unfolding pages all .
qed

text \<open>
  C38. The error of a failed token request never carries the raw response: whatever the API package
  returns, the error of \<open>CreateRegistrationToken\<close> is not the URL error with its inner text, and the
  text that replaces it depends on the operation and the URL alone.
\<close>

theorem token_error_redacted:
  "fst (CreateRegistrationToken api owner repo w) \<noteq> Inl (UrlError op url e) \<and>
   (\<forall>op' url' e' w'. (if repo = [] then api_CreateOrganizationRegistrationToken api owner w
                       else api_CreateRegistrationToken api owner repo w) = (Inl (UrlError op' url' e'), w') \<longrightarrow>
      fst (CreateRegistrationToken api owner repo w) =
        Inl (RedactedToken (''failed to create registration token: '' @ op' @ '' '' @ url')))"
  by (auto simp: CreateRegistrationToken_def split: prod.splits sum.splits gh_error.splits if_splits)

definition failing_api :: "unit gh_api" where
  "failing_api =
     \<lparr>api_CreateOrganizationRegistrationToken = (\<lambda>owner w. (Inl (UrlError ''Post'' ''https://api'' ''secret''), w)),
      api_CreateRegistrationToken = (\<lambda>owner repo w. (Inl (UrlError ''Post'' ''https://api'' ''secret''), w)),
      api_ListOrganizationRunners = (\<lambda>owner per page w. (Inl (ApiError ''500''), w)),
      api_ListRunners = (\<lambda>owner repo per page w. (Inl (ApiError ''500''), w)),
      api_RemoveOrganizationRunner = (\<lambda>owner i w. (Inl (ApiError ''500''), w)),
      api_RemoveRunner = (\<lambda>owner repo i w. (Inl (ApiError ''500''), w)), api_sleep = (\<lambda>d w. w)\<rparr>"

theorem token_error_redacted_witness:
  "fst (CreateRegistrationToken failing_api ''org'' [] ()) =
     Inl (RedactedToken ''failed to create registration token: Post https://api'')"
  using token_error_redacted [of failing_api "''org''" "[]" "()"] by (simp add: failing_api_def)

end
