(* ===== verification/Manage_Process.thy ===== *)
theory Manage_Process
  imports Slack_Agent RunnerPool_Api GitHub_Client
begin

section \<open>controllers/runner_manager.go: the process of a pool\<close>

text \<open>
  For every RunnerPool the runner manager runs a goroutine that wakes up at an interval, lists the
  runner pods and the registered runners, updates the metrics, maintains the pods (deletes, protects
  and unlinks them) and removes offline runners (\<open>runOnce\<close>). The Kubernetes client, the network, the
  clock and the clients of the pods and of GitHub are parameters; \<open>runOnce\<close> does not return when the
  paging of GitHub never ends (\<open>None\<close>), and a nil dereference or a write to a nil map is \<open>Panics\<close>.
\<close>

datatype kube_error = KNotFound | KOther string

text \<open>
  The calls of \<open>client.Client\<close> and \<open>controllerutil\<close> that a process makes. \<open>m_UpdatePod\<close> returns the
  object as the API server stored it, which the client writes back into its argument.
\<close>

record 'w manager_io =
  m_ListPods :: "string \<Rightarrow> (string \<times> string) list \<Rightarrow> 'w \<Rightarrow> (kube_error + kpod list) \<times> 'w"
  m_DeletePod :: "kpod \<Rightarrow> 'w \<Rightarrow> kube_error option \<times> 'w"
  m_UpdatePod :: "kpod \<Rightarrow> 'w \<Rightarrow> (kube_error + kpod) \<times> 'w"
  m_ApplyPDB :: "pdb \<Rightarrow> (pdb \<Rightarrow> string + pdb) \<Rightarrow> 'w \<Rightarrow> kube_error option \<times> 'w"
  m_lib :: kube_lib
  m_urls :: url_lib
  m_net :: "'w network"
  m_runner :: "'w client"
  m_now :: "'w \<Rightarrow> time \<times> 'w"

record 'w manage_process =
  p_githubClient :: "'w gh_client"
  p_serverURL :: string
  p_rpNamespace :: string
  p_rpName :: string
  p_owner :: string
  p_repo :: string
  p_replicas :: int32
  p_maxRunnerPods :: int32
  p_needSlackNotification :: bool
  p_slackChannel :: string
  p_slackAgentServiceName :: string
  p_extendDuration :: duration
  p_recreateDeadline :: duration
  p_denyDisruption :: bool
  p_lastCheckTime :: time
  p_running :: bool
  p_prevRunnerNames :: "string list"

definition agent_name :: "runner_pool \<Rightarrow> string" where
  "agent_name rp =
     (if AgentServiceName (Slack (sp_Notification (Spec rp))) \<noteq> []
      then AgentServiceName (Slack (sp_Notification (Spec rp)))
      else DefaultSlackAgentServiceName)"

definition newManageProcess ::
    "url_lib \<Rightarrow> 'w gh_client \<Rightarrow> runner_pool \<Rightarrow> time \<Rightarrow> (string + 'w manage_process) outcome" where
  "newManageProcess ul gh rp now =
     (case NewAgentClient ul (agent_name rp) of
        Inl e \<Rightarrow> Returns (Inl e)
      | Inr url \<Rightarrow>
          (case GetRepository rp of
             None \<Rightarrow> Panics
           | Some repo \<Rightarrow>
               Returns (Inr
                 \<lparr>p_githubClient = gh, p_serverURL = url, p_rpNamespace = Namespace (rp_meta rp),
                  p_rpName = Name (rp_meta rp), p_owner = GetOwner rp, p_repo = repo,
                  p_replicas = sp_Replicas (Spec rp), p_maxRunnerPods = sp_MaxRunnerPods (Spec rp),
                  p_needSlackNotification = Enable (Slack (sp_Notification (Spec rp))),
                  p_slackChannel = Channel (Slack (sp_Notification (Spec rp))),
                  p_slackAgentServiceName = agent_name rp,
                  p_extendDuration = parseDuration_or_zero (ExtendDuration (sp_Notification (Spec rp))),
                  p_recreateDeadline = parseDuration_or_zero (sp_RecreateDeadline (Spec rp)),
                  p_denyDisruption = sp_DenyDisruption (Spec rp), p_lastCheckTime = now,
                  p_running = False, p_prevRunnerNames = []\<rparr>)))"

definition update_process ::
    "url_lib \<Rightarrow> runner_pool \<Rightarrow> 'w manage_process \<Rightarrow> string option \<times> 'w manage_process" where
  "update_process ul rp p =
     (let p1 = p\<lparr>p_replicas := sp_Replicas (Spec rp), p_maxRunnerPods := sp_MaxRunnerPods (Spec rp),
                 p_needSlackNotification := Enable (Slack (sp_Notification (Spec rp))),
                 p_slackChannel := Channel (Slack (sp_Notification (Spec rp))),
                 p_extendDuration := parseDuration_or_zero (ExtendDuration (sp_Notification (Spec rp))),
                 p_recreateDeadline := parseDuration_or_zero (sp_RecreateDeadline (Spec rp)),
                 p_denyDisruption := sp_DenyDisruption (Spec rp)\<rparr>
      in if p_slackAgentServiceName p1 \<noteq> agent_name rp
         then (case UpdateServerURL ul (agent_name rp) (p_serverURL p1) of
                 (Some e, url) \<Rightarrow> (Some e, p1\<lparr>p_serverURL := url\<rparr>)
               | (None, url) \<Rightarrow>
                   (None, p1\<lparr>p_serverURL := url, p_slackAgentServiceName := agent_name rp\<rparr>))
         else (None, p1))"

definition rpNamespacedName :: "'w manage_process \<Rightarrow> string" where
  "rpNamespacedName p = p_rpNamespace p @ ''/'' @ p_rpName p"

text \<open>The failure to build the label selector is one of the errors of \<open>m_ListPods\<close>.\<close>

definition runner_selector :: "string \<Rightarrow> (string \<times> string) list" where
  "runner_selector name =
     [(AppNameLabelKey, AppName), (AppComponentLabelKey, AppComponentRunner), (AppInstanceLabelKey, name)]"

definition fetchRunnerPods :: "'w manager_io \<Rightarrow> 'w manage_process \<Rightarrow> 'w \<Rightarrow> (kube_error + kpod list) \<times> 'w" where
  "fetchRunnerPods io p w = m_ListPods io (p_rpNamespace p) (runner_selector (p_rpName p)) w"

definition fetchRunners ::
    "'w manage_process \<Rightarrow> 'w \<Rightarrow> ((gh_error + gh_runner list) \<times> 'w) option" where
  "fetchRunners p w = ghc_ListRunners (p_githubClient p) (p_owner p) (p_repo p) [rpNamespacedName p] w"

subsection \<open>Metrics\<close>

definition difference :: "string list \<Rightarrow> string list \<Rightarrow> string list" where
  "difference prev current = filter (\<lambda>v. v \<notin> set current) prev"

definition updateMetrics ::
    "'w manage_process \<Rightarrow> gh_runner list \<Rightarrow> controller_metrics \<Rightarrow> 'w manage_process \<times> controller_metrics" where
  "updateMetrics p runnerList m =
     (let m1 = UpdateRunnerPoolMetrics (rpNamespacedName p) (sint (p_replicas p)) m;
          m2 = fold (\<lambda>r. UpdateRunnerMetrics (rpNamespacedName p) (r_Name r) (r_Online r) (r_Busy r)) runnerList m1;
          currentRunnerNames = map r_Name runnerList;
          removedRunners = difference (p_prevRunnerNames p) currentRunnerNames
      in (p\<lparr>p_prevRunnerNames := currentRunnerNames\<rparr>,
          DeleteRunnerMetrics (rpNamespacedName p) removedRunners m2))"

subsection \<open>Maintenance of one pod\<close>

definition runnerBusy :: "gh_runner list \<Rightarrow> string \<Rightarrow> bool" where
  "runnerBusy runnerList name =
     (case find (\<lambda>r. r_Name r = name) runnerList of None \<Rightarrow> False | Some r \<Rightarrow> r_Busy r)"

definition needExtend :: "'w manage_process \<Rightarrow> status \<Rightarrow> bool" where
  "needExtend p st \<longleftrightarrow> Extend st = Some True \<and> p_extendDuration p \<noteq> 0"

text \<open>The notification of a finished job; dereferencing a nil finish time panics.\<close>

definition notify ::
    "'w manager_io \<Rightarrow> 'w manage_process \<Rightarrow> time \<Rightarrow> kpod \<Rightarrow> status \<Rightarrow> 'w \<Rightarrow> 'w outcome" where
  "notify io p lastCheckTime po st w =
     (if p_needSlackNotification p
      then (case FinishedAt st of
              None \<Rightarrow> Panics
            | Some f \<Rightarrow>
                if time_after f lastCheckTime
                then (let ch = (if SlackChannel st \<noteq> [] then SlackChannel st else p_slackChannel p)
                      in Returns (snd (PostResult (m_urls io) (m_net io) (p_serverURL p) ch (Result st)
                           (needExtend p st) (Namespace (po_meta po)) (Name (po_meta po)) (JobInfo st) w)))
                else Returns w)
      else Returns w)"

definition needDelete :: "'w manage_process \<Rightarrow> time \<Rightarrow> status \<Rightarrow> bool outcome" where
  "needDelete p now st =
     (case DeletionTime st of
        Some t \<Rightarrow> Returns (time_after now t)
      | None \<Rightarrow>
          if needExtend p st
          then (case FinishedAt st of
                  None \<Rightarrow> Panics
                | Some f \<Rightarrow> Returns (time_after now (f + p_extendDuration p)))
          else Returns True)"

text \<open>The part for a debugging pod; the flag says that the pod was deleted.\<close>

definition maintain_debugging ::
    "'w manager_io \<Rightarrow> 'w manage_process \<Rightarrow> time \<Rightarrow> time \<Rightarrow> kpod \<Rightarrow> status \<Rightarrow> 'w \<Rightarrow> (bool \<times> 'w) outcome" where
  "maintain_debugging io p now lastCheckTime po st w =
     (case notify io p lastCheckTime po st w of
        Panics \<Rightarrow> Panics
      | Returns w1 \<Rightarrow>
          (case needDelete p now st of
             Panics \<Rightarrow> Panics
           | Returns True \<Rightarrow> Returns (True, snd (m_DeletePod io po w1))
           | Returns False \<Rightarrow>
               (case FinishedAt st of
                  Some f \<Rightarrow>
                    if DeletionTime st = None \<and> time_after f lastCheckTime
                    then Returns (False, snd (cl_PutDeletionTime (m_runner io) (po_PodIP po)
                           (f + p_extendDuration p) w1))
                    else Returns (False, w1)
                | None \<Rightarrow> Returns (False, w1))))"

definition set_labels :: "gomap \<Rightarrow> kpod \<Rightarrow> kpod" where
  "set_labels ls po = po\<lparr>po_meta := (po_meta po)\<lparr>Labels := ls\<rparr>\<rparr>"

definition mutate_pdb :: "kube_lib \<Rightarrow> kpod \<Rightarrow> pdb \<Rightarrow> string + pdb" where
  "mutate_pdb lib po d =
     (let d1 = d\<lparr>pdb_Selector := Some (Some [(RunnerPodName, Name (po_meta po))]),
                 pdb_MinAvailable := Some 1\<rparr>
      in case SetControllerReference lib (po_meta po) (pdb_meta d1) of
           Inl e \<Rightarrow> Inl e
         | Inr mt \<Rightarrow> Inr (d1\<lparr>pdb_meta := mt\<rparr>))"

definition new_pdb :: "kpod \<Rightarrow> pdb" where
  "new_pdb po = \<lparr>pdb_meta = empty_meta\<lparr>Name := Name (po_meta po), Namespace := Namespace (po_meta po)\<rparr>,
     pdb_Selector = None, pdb_MinAvailable = None, pdb_rest = JNull\<rparr>"

text \<open>Protection by a disruption budget; the flag says whether the iteration goes on.\<close>

definition protect ::
    "'w manager_io \<Rightarrow> 'w manage_process \<Rightarrow> kpod \<Rightarrow> 'w \<Rightarrow> (bool \<times> kpod \<times> 'w) outcome" where
  "protect io p po w =
     (if p_denyDisruption p \<and> gm_index (Labels (po_meta po)) RunnerPodName \<noteq> Name (po_meta po)
      then (case m_ApplyPDB io (new_pdb po) (mutate_pdb (m_lib io) po) w of
              (Some e, w1) \<Rightarrow> Returns (False, po, w1)
            | (None, w1) \<Rightarrow>
                (case gm_put (Labels (po_meta po)) RunnerPodName (Name (po_meta po)) of
                   None \<Rightarrow> Panics
                 | Some ls \<Rightarrow>
                     (case m_UpdatePod io (set_labels ls po) w1 of
                        (Inl e, w2) \<Rightarrow> Returns (False, set_labels ls po, w2)
                      | (Inr po', w2) \<Rightarrow> Returns (True, po', w2))))
      else Returns (True, po, w))"

definition unlink ::
    "'w manager_io \<Rightarrow> kpod \<Rightarrow> int32 \<Rightarrow> 'w \<Rightarrow> kpod \<times> int32 \<times> 'w" where
  "unlink io po numRemovablePods w =
     (if numRemovablePods <=s 0 then (po, numRemovablePods, w)
      else if gm_get (Labels (po_meta po)) DefaultDeploymentUniqueLabelKey = None
      then (po, numRemovablePods, w)
      else (let po1 = set_labels (gm_delete (Labels (po_meta po)) DefaultDeploymentUniqueLabelKey) po
            in case m_UpdatePod io po1 w of
                 (Inl e, w1) \<Rightarrow> (po1, numRemovablePods, w1)
               | (Inr po2, w1) \<Rightarrow> (po2, numRemovablePods - 1, w1)))"

definition pastDeadline :: "'w manage_process \<Rightarrow> time \<Rightarrow> kpod \<Rightarrow> bool" where
  "pastDeadline p now po \<longleftrightarrow> time_before (CreationTimestamp (po_meta po) + p_recreateDeadline p) now"

definition maintain_pod ::
    "'w manager_io \<Rightarrow> 'w manage_process \<Rightarrow> time \<Rightarrow> time \<Rightarrow> gh_runner list \<Rightarrow> kpod \<Rightarrow> int32 \<Rightarrow> 'w \<Rightarrow>
       (kpod \<times> int32 \<times> 'w) outcome" where
  "maintain_pod io p now lastCheckTime runnerList po n w =
     (if po_Phase po \<noteq> PodRunning then Returns (po, n, w)
      else case cl_GetStatus (m_runner io) (po_PodIP po) w of
        (Inl e, w1) \<Rightarrow> Returns (po, n, w1)
      | (Inr st, w1) \<Rightarrow>
          if State st = RunnerPodStateStale then Returns (po, n, snd (m_DeletePod io po w1))
          else (case (if State st = RunnerPodStateDebugging
                      then maintain_debugging io p now lastCheckTime po st w1
                      else Returns (False, w1)) of
                  Panics \<Rightarrow> Panics
                | Returns (True, w2) \<Rightarrow> Returns (po, n, w2)
                | Returns (False, w2) \<Rightarrow>
                    (let busy = runnerBusy runnerList (Name (po_meta po)) \<or> State st = RunnerPodStateDebugging
                     in if pastDeadline p now po \<and> \<not> busy
                        then Returns (po, n, snd (m_DeletePod io po w2))
                        else if busy
                        then (case protect io p po w2 of
                                Panics \<Rightarrow> Panics
                              | Returns (False, po', w3) \<Rightarrow> Returns (po', n, w3)
                              | Returns (True, po', w3) \<Rightarrow> Returns (unlink io po' n w3))
                        else Returns (po, n, w2))))"

primrec maintain_loop ::
    "'w manager_io \<Rightarrow> 'w manage_process \<Rightarrow> time \<Rightarrow> time \<Rightarrow> gh_runner list \<Rightarrow> kpod list \<Rightarrow> int32 \<Rightarrow> 'w \<Rightarrow>
       (kpod list \<times> 'w) outcome" where
  "maintain_loop io p now lastCheckTime runnerList [] n w = Returns ([], w)"
| "maintain_loop io p now lastCheckTime runnerList (po # pos) n w =
     (case maintain_pod io p now lastCheckTime runnerList po n w of
        Panics \<Rightarrow> Panics
      | Returns (po', n', w') \<Rightarrow>
          (case maintain_loop io p now lastCheckTime runnerList pos n' w' of
             Panics \<Rightarrow> Panics
           | Returns (pos', w'') \<Rightarrow> Returns (po' # pos', w'')))"

definition unlabeled :: "kpod \<Rightarrow> bool" where
  "unlabeled po \<longleftrightarrow> gm_get (Labels (po_meta po)) DefaultDeploymentUniqueLabelKey = None"

text \<open>The counter of unlabelled pods is an \<open>int32\<close> that is incremented in a loop.\<close>

definition numUnlabeledPods :: "kpod list \<Rightarrow> int32" where
  "numUnlabeledPods pods = fold (\<lambda>po n. if unlabeled po then n + 1 else n) pods 0"

definition numRemovable :: "'w manage_process \<Rightarrow> kpod list \<Rightarrow> int32" where
  "numRemovable p pods = p_maxRunnerPods p - p_replicas p - numUnlabeledPods pods"

definition maintainRunnerPods ::
    "'w manager_io \<Rightarrow> 'w manage_process \<Rightarrow> gh_runner list \<Rightarrow> kpod list \<Rightarrow> 'w \<Rightarrow>
       (kpod list \<times> 'w manage_process \<times> 'w) outcome" where
  "maintainRunnerPods io p runnerList pods w =
     (let (now, w1) = m_now io w; lastCheckTime = p_lastCheckTime p; p1 = p\<lparr>p_lastCheckTime := now\<rparr>
      in case maintain_loop io p1 now lastCheckTime runnerList pods (numRemovable p1 pods) w1 of
           Panics \<Rightarrow> Panics
         | Returns (pods', w2) \<Rightarrow> Returns (pods', p1, w2))"

subsection \<open>Runners at GitHub\<close>

definition podExists :: "string \<Rightarrow> kpod list \<Rightarrow> bool" where
  "podExists name pods = list_ex (\<lambda>po. Name (po_meta po) = name) pods"

primrec deleteOfflineRunners ::
    "'w manage_process \<Rightarrow> gh_runner list \<Rightarrow> kpod list \<Rightarrow> 'w \<Rightarrow> gh_error option \<times> 'w" where
  "deleteOfflineRunners p [] pods w = (None, w)"
| "deleteOfflineRunners p (r # rs) pods w =
     (if r_Online r \<or> podExists (r_Name r) pods then deleteOfflineRunners p rs pods w
      else case ghc_RemoveRunner (p_githubClient p) (p_owner p) (p_repo p) (r_ID r) w of
             (Some e, w') \<Rightarrow> (Some e, w')
           | (None, w') \<Rightarrow> deleteOfflineRunners p rs pods w')"

definition deleteAllRunners :: "'w manage_process \<Rightarrow> 'w \<Rightarrow> (gh_error option \<times> 'w) option" where
  "deleteAllRunners p w =
     (case ghc_ListRunners (p_githubClient p) (p_owner p) (p_repo p) [rpNamespacedName p] w of
        None \<Rightarrow> None
      | Some (Inl e, w') \<Rightarrow> Some (Some e, w')
      | Some (Inr rs, w') \<Rightarrow>
          Some (remove_each (ghc_RemoveRunner (p_githubClient p) (p_owner p) (p_repo p)) rs w'))"

subsection \<open>One round and the life of the goroutine\<close>

datatype round_error = PodsError kube_error | RunnersError gh_error

definition runOnce ::
    "'w manager_io \<Rightarrow> 'w manage_process \<Rightarrow> controller_metrics \<Rightarrow> 'w \<Rightarrow>
       (round_error option \<times> 'w manage_process \<times> controller_metrics \<times> 'w) outcome option" where
  "runOnce io p m w =
     (case fetchRunnerPods io p w of
        (Inl e, w1) \<Rightarrow> Some (Returns (Some (PodsError e), p, m, w1))
      | (Inr pods, w1) \<Rightarrow>
          (case fetchRunners p w1 of
             None \<Rightarrow> None
           | Some (Inl e, w2) \<Rightarrow> Some (Returns (Some (RunnersError e), p, m, w2))
           | Some (Inr runners, w2) \<Rightarrow>
               (let (p1, m1) = updateMetrics p runners m
                in case maintainRunnerPods io p1 runners pods w2 of
                     Panics \<Rightarrow> Some Panics
                   | Returns (pods', p2, w3) \<Rightarrow>
                       (case deleteOfflineRunners p2 runners pods' w3 of
                          (e, w4) \<Rightarrow> Some (Returns (map_option RunnersError e, p2, m1, w4))))))"

text \<open>\<open>run\<close>: one round per tick, errors are only logged.\<close>

primrec run_ticks ::
    "'w manager_io \<Rightarrow> nat \<Rightarrow> 'w manage_process \<Rightarrow> controller_metrics \<Rightarrow> 'w \<Rightarrow>
       ('w manage_process \<times> controller_metrics \<times> 'w) outcome option" where
  "run_ticks io 0 p m w = Some (Returns (p, m, w))"
| "run_ticks io (Suc n) p m w =
     (case runOnce io p m w of
        None \<Rightarrow> None
      | Some Panics \<Rightarrow> Some Panics
      | Some (Returns (e, p', m', w')) \<Rightarrow> run_ticks io n p' m' w')"

definition deleteMetrics :: "'w manage_process \<Rightarrow> controller_metrics \<Rightarrow> controller_metrics" where
  "deleteMetrics p m =
     DeleteRunnerPoolMetrics (rpNamespacedName p) (DeleteAllRunnerMetrics (rpNamespacedName p) m)"

text \<open>What the goroutine does once its context is cancelled.\<close>

definition finish_process ::
    "'w manage_process \<Rightarrow> controller_metrics \<Rightarrow> 'w \<Rightarrow> (controller_metrics \<times> 'w) option" where
  "finish_process p m w =
     (case deleteAllRunners p w of None \<Rightarrow> None | Some (e, w') \<Rightarrow> Some (deleteMetrics p m, w'))"


subsection \<open>The metrics after a round\<close>

lemma labelled_fold_Update:
  "labelled (fold (\<lambda>r. UpdateRunnerMetrics k (r_Name r) (r_Online r) (r_Busy r)) rs m) =
     (labelled m)(k := labelled m k \<union> set (map r_Name rs))"
  by (induction rs arbitrary: m) (auto simp: labelled_UpdateRunnerMetrics)

lemma metrics_wf_fold_Update:
  "metrics_wf m \<Longrightarrow> metrics_wf (fold (\<lambda>r. UpdateRunnerMetrics k (r_Name r) (r_Online r) (r_Busy r)) rs m)"
  by (induction rs arbitrary: m) (auto simp: metrics_wf_UpdateRunnerMetrics)

lemma set_difference: "set (difference prev cur) = set prev - set cur"
  by (auto simp: difference_def)

text \<open>The book of labels of a pool and the names its process remembers agree.\<close>

definition metrics_synced :: "'w manage_process \<Rightarrow> controller_metrics \<Rightarrow> bool" where
  "metrics_synced p m \<longleftrightarrow> metrics_wf m \<and> labelled m (rpNamespacedName p) = set (p_prevRunnerNames p)"

lemma updateMetrics_labelled:
  assumes "metrics_synced p m" "updateMetrics p rs m = (p', m')"
  shows "metrics_synced p' m'" "labelled m' = (labelled m)(rpNamespacedName p := set (map r_Name rs))"
proof -
  let ?k = "rpNamespacedName p"
  have m': "m' = DeleteRunnerMetrics ?k (difference (p_prevRunnerNames p) (map r_Name rs))
      (fold (\<lambda>r. UpdateRunnerMetrics ?k (r_Name r) (r_Online r) (r_Busy r)) rs
         (UpdateRunnerPoolMetrics ?k (sint (p_replicas p)) m))"
    and p': "p' = p\<lparr>p_prevRunnerNames := map r_Name rs\<rparr>"
    using assms(2) by (auto simp: updateMetrics_def Let_def)
  show lab: "labelled m' = (labelled m)(?k := set (map r_Name rs))"
  proof -
    have "set prev \<union> r_Name ` set rs - (set prev - r_Name ` set rs) = r_Name ` set rs" for prev by auto
    then show ?thesis
      using assms(1) unfolding m' metrics_synced_def
      by (simp add: labelled_DeleteRunnerMetrics labelled_fold_Update frame_simps set_difference)
  qed
  have "metrics_wf m'"
    using assms(1) unfolding m' metrics_synced_def
    by (intro metrics_wf_DeleteRunnerMetrics metrics_wf_fold_Update) simp
  with lab show "metrics_synced p' m'"
    by (simp add: metrics_synced_def p' rpNamespacedName_def)
qed

lemma runner_vec_Update:
  "runnerOnlineVec (UpdateRunnerMetrics k n on bu m) = (runnerOnlineVec m)((k, n) \<mapsto> (if on then 1 else 0))"
  "runnerBusyVec (UpdateRunnerMetrics k n on bu m) = (runnerBusyVec m)((k, n) \<mapsto> (if bu then 1 else 0))"
  by (simp_all add: UpdateRunnerMetrics_def Let_def)

lemma runner_vec_fold_other:
  "n \<notin> set (map r_Name rs) \<Longrightarrow>
     runnerOnlineVec (fold (\<lambda>r. UpdateRunnerMetrics k (r_Name r) (r_Online r) (r_Busy r)) rs m) (k, n) =
       runnerOnlineVec m (k, n) \<and>
     runnerBusyVec (fold (\<lambda>r. UpdateRunnerMetrics k (r_Name r) (r_Online r) (r_Busy r)) rs m) (k, n) =
       runnerBusyVec m (k, n)"
  by (induction rs arbitrary: m) (auto simp: runner_vec_Update)

lemma runner_vec_fold:
  "r \<in> set rs \<Longrightarrow> distinct (map r_Name rs) \<Longrightarrow>
     runnerOnlineVec (fold (\<lambda>r. UpdateRunnerMetrics k (r_Name r) (r_Online r) (r_Busy r)) rs m) (k, r_Name r) =
       Some (if r_Online r then 1 else 0) \<and>
     runnerBusyVec (fold (\<lambda>r. UpdateRunnerMetrics k (r_Name r) (r_Online r) (r_Busy r)) rs m) (k, r_Name r) =
       Some (if r_Busy r then 1 else 0)"
proof (induction rs arbitrary: m)
  case (Cons a rs)
  show ?case
  proof (cases "r = a")
    case True
    with Cons.prems have "r_Name r \<notin> set (map r_Name rs)" by simp
    from runner_vec_fold_other [OF this] True show ?thesis
      by (simp add: runner_vec_Update)
  next
    case False
    with Cons show ?thesis by simp
  qed
qed simp

lemma DeleteRunnerMetrics_vec:
  "n \<notin> set rs \<Longrightarrow> runnerOnlineVec (DeleteRunnerMetrics k rs m) (k, n) = runnerOnlineVec m (k, n) \<and>
     runnerBusyVec (DeleteRunnerMetrics k rs m) (k, n) = runnerBusyVec m (k, n)"
  by (simp add: DeleteRunnerMetrics_eq split: option.splits)

lemma updateMetrics_values:
  assumes "updateMetrics p rs m = (p', m')" "r \<in> set rs" "distinct (map r_Name rs)"
  shows "runnerOnlineVec m' (rpNamespacedName p, r_Name r) = Some (if r_Online r then 1 else 0)"
    "runnerBusyVec m' (rpNamespacedName p, r_Name r) = Some (if r_Busy r then 1 else 0)"
proof -
  have "r_Name r \<notin> set (difference (p_prevRunnerNames p) (map r_Name rs))"
    using assms(2) by (simp add: set_difference)
  from DeleteRunnerMetrics_vec [OF this] runner_vec_fold [OF assms(2,3)] assms(1)
  show "runnerOnlineVec m' (rpNamespacedName p, r_Name r) = Some (if r_Online r then 1 else 0)"
    "runnerBusyVec m' (rpNamespacedName p, r_Name r) = Some (if r_Busy r then 1 else 0)"
    by (auto simp: updateMetrics_def Let_def)
qed

lemma updateMetrics_others:
  assumes "updateMetrics p rs m = (p', m')"
  shows "runnerPoolReplicas m' (rpNamespacedName p) = Some (sint (p_replicas p))"
    "RunnerPoolSecretRetryCount m' = RunnerPoolSecretRetryCount m"
    "k \<noteq> rpNamespacedName p \<Longrightarrow> pool_series m' k = pool_series m k"
proof -
  let ?q = "rpNamespacedName p"
  let ?m1 = "UpdateRunnerPoolMetrics ?q (sint (p_replicas p)) m"
  let ?m2 = "fold (\<lambda>r. UpdateRunnerMetrics ?q (r_Name r) (r_Online r) (r_Busy r)) rs ?m1"
  have m': "m' = DeleteRunnerMetrics ?q (difference (p_prevRunnerNames p) (map r_Name rs)) ?m2"
    using assms by (auto simp: updateMetrics_def Let_def)
  have "runnerPoolReplicas (fold (\<lambda>r. UpdateRunnerMetrics ?q (r_Name r) (r_Online r) (r_Busy r)) rs m) = runnerPoolReplicas m \<and>
      RunnerPoolSecretRetryCount (fold (\<lambda>r. UpdateRunnerMetrics ?q (r_Name r) (r_Online r) (r_Busy r)) rs m) =
        RunnerPoolSecretRetryCount m \<and>
      (k \<noteq> ?q \<longrightarrow> pool_series (fold (\<lambda>r. UpdateRunnerMetrics ?q (r_Name r) (r_Online r) (r_Busy r)) rs m) k = pool_series m k)"
    for m k
  proof (induction rs arbitrary: m)
    case (Cons r rs)
    then show ?case by (simp add: pool_series_frame) (simp add: UpdateRunnerMetrics_def Let_def)
  qed simp
  note fold = this [of ?m1]
  then show "runnerPoolReplicas m' ?q = Some (sint (p_replicas p))"
    "RunnerPoolSecretRetryCount m' = RunnerPoolSecretRetryCount m"
    by (simp_all add: m' DeleteRunnerMetrics_eq UpdateRunnerPoolMetrics_def split: option.splits)
  show "pool_series m' k = pool_series m k" if "k \<noteq> ?q"
    using fold that by (simp add: m' pool_series_frame)
qed

lemma deleteMetrics_others: "k \<noteq> rpNamespacedName p \<Longrightarrow> pool_series (deleteMetrics p m) k = pool_series m k"
  by (simp add: deleteMetrics_def pool_series_frame)

subsection \<open>The number of pods that may leave the replica set\<close>

lemma numUnlabeledPods_count: "numUnlabeledPods pods = of_nat (length (filter unlabeled pods))"
proof -
  have "fold (\<lambda>po n. if unlabeled po then n + 1 else n) pods a = a + of_nat (length (filter unlabeled pods))"
    for a :: int32
    by (induction pods arbitrary: a) (simp_all add: algebra_simps)
  then show ?thesis by (simp add: numUnlabeledPods_def)
qed

text \<open>Pools whose numbers fit: no overflow in the subtraction.\<close>

definition counts_fit :: "'w manage_process \<Rightarrow> kpod list \<Rightarrow> bool" where
  "counts_fit p pods \<longleftrightarrow>
     0 \<le> sint (p_maxRunnerPods p) \<and> 0 \<le> sint (p_replicas p) \<and>
     sint (p_replicas p) + int (length pods) < 2 ^ 31"

lemma numRemovable_exact:
  assumes "counts_fit p pods"
  shows "sint (numRemovable p pods) =
    sint (p_maxRunnerPods p) - sint (p_replicas p) - int (length (filter unlabeled pods))"
proof -
  define c where "c = length (filter unlabeled pods)"
  have len: "c \<le> length pods" by (simp add: c_def)
  have "numRemovable p pods = word_of_int (sint (p_maxRunnerPods p) - sint (p_replicas p) - int c)"
    by (simp add: numRemovable_def numUnlabeledPods_count c_def)
  also have "sint \<dots> = sint (p_maxRunnerPods p) - sint (p_replicas p) - int c"
    using assms len sint_int32_bounds [of "p_maxRunnerPods p"]
    by (intro sint_int32_of_int) (auto simp: counts_fit_def)
  finally show ?thesis by (simp add: c_def)
qed

end
