(* ===== verification/Manage_Safety.thy ===== *)
theory Manage_Safety
  imports Manage_Process
begin

section \<open>What a round does to the pods\<close>

text \<open>
  The outside world of a process is a parameter, so the calls a round makes can be recorded: \<open>traced io\<close>
  is the same world with a log of the answers of the pods and of the calls that change something. Over
  the log the theorems say which pods are deleted (\<open>deletable\<close>), and on which answer, how many are taken
  out of the replica set, and that a round does not panic on statuses that runner pods can have.
\<close>

subsection \<open>The log\<close>

datatype kcall =
    CDelete kpod
  | CUpdate kpod bool
  | CApplyPDB pdb bool
  | CHttp http_request
  | CPut string time
  | CStatus string "client_error + status"

definition traced_client :: "'w client \<Rightarrow> ('w \<times> kcall list) client" where
  "traced_client c =
     \<lparr>cl_PutDeletionTime = (\<lambda>ip t (w, l). case cl_PutDeletionTime c ip t w of (r, w') \<Rightarrow> (r, w', l @ [CPut ip t])),
      cl_GetStatus = (\<lambda>ip (w, l). case cl_GetStatus c ip w of (r, w') \<Rightarrow> (r, w', l @ [CStatus ip r]))\<rparr>"

definition traced :: "'w manager_io \<Rightarrow> ('w \<times> kcall list) manager_io" where
  "traced io =
     \<lparr>m_ListPods = (\<lambda>ns sel (w, l). case m_ListPods io ns sel w of (r, w') \<Rightarrow> (r, w', l)),
      m_DeletePod = (\<lambda>po (w, l). case m_DeletePod io po w of (r, w') \<Rightarrow> (r, w', l @ [CDelete po])),
      m_UpdatePod = (\<lambda>po (w, l). case m_UpdatePod io po w of
         (Inl e, w') \<Rightarrow> (Inl e, w', l @ [CUpdate po False])
       | (Inr q, w') \<Rightarrow> (Inr q, w', l @ [CUpdate po True])),
      m_ApplyPDB = (\<lambda>d f (w, l). case m_ApplyPDB io d f w of (r, w') \<Rightarrow> (r, w', l @ [CApplyPDB d (r = None)])),
      m_lib = m_lib io, m_urls = m_urls io,
      m_net = (\<lambda>req (w, l). case m_net io req w of (r, w') \<Rightarrow> (r, w', l @ [CHttp req])),
      m_runner = traced_client (m_runner io),
      m_now = (\<lambda>(w, l). case m_now io w of (t, w') \<Rightarrow> (t, w', l))\<rparr>"

fun deletions :: "kcall list \<Rightarrow> kpod list" where
  "deletions [] = []"
| "deletions (CDelete po # l) = po # deletions l"
| "deletions (_ # l) = deletions l"

text \<open>The pods that were asked for their status, by address, and what they answered.\<close>

fun status_answers :: "kcall list \<Rightarrow> (string \<times> (client_error + status)) list" where
  "status_answers [] = []"
| "status_answers (CStatus ip r # l) = (ip, r) # status_answers l"
| "status_answers (_ # l) = status_answers l"

lemma deletions_append: "deletions (l @ k) = deletions l @ deletions k"
  by (induction l rule: deletions.induct) simp_all

lemma status_answers_append: "status_answers (l @ k) = status_answers l @ status_answers k"
  by (induction l rule: status_answers.induct) simp_all

lemma deletions_mem: "CDelete po \<in> set l \<Longrightarrow> po \<in> set (deletions l)"
  by (induction l rule: deletions.induct) auto

text \<open>\<open>l'\<close> extends the log \<open>l\<close> by calls that ask no pod and delete the pods \<open>ds\<close>.\<close>

definition adds :: "kcall list \<Rightarrow> kcall list \<Rightarrow> kpod list \<Rightarrow> bool" where
  "adds l l' ds \<longleftrightarrow> (\<exists>k. l' = l @ k \<and> status_answers k = [] \<and> deletions k = ds)"

lemma adds_simps [simp]:
  "adds l l []" "adds l (l @ [CDelete po]) [po]" "adds l (l @ [CUpdate po b]) []" "adds l (l @ [CPut ip t]) []"
  "adds l (l @ [CApplyPDB d b]) []" "adds l (l @ [CHttp q]) []" "adds l (l @ [CApplyPDB d b, CUpdate po c]) []"
  by (simp_all add: adds_def)

lemma adds_trans: "adds l l1 ds \<Longrightarrow> adds l1 l2 es \<Longrightarrow> adds l l2 (ds @ es)"
  by (auto simp: adds_def status_answers_append deletions_append)

lemma adds_deletions: "adds l l' ds \<Longrightarrow> deletions l' = deletions l @ ds"
  by (auto simp: adds_def deletions_append)

lemma traced_simps:
  "m_lib (traced io) = m_lib io" "m_urls (traced io) = m_urls io"
  "m_DeletePod (traced io) po (w, l) = (fst (m_DeletePod io po w), snd (m_DeletePod io po w), l @ [CDelete po])"
  "cl_GetStatus (m_runner (traced io)) ip (w, l) =
     (fst (cl_GetStatus (m_runner io) ip w), snd (cl_GetStatus (m_runner io) ip w),
      l @ [CStatus ip (fst (cl_GetStatus (m_runner io) ip w))])"
  "cl_PutDeletionTime (m_runner (traced io)) ip t (w, l) =
     (fst (cl_PutDeletionTime (m_runner io) ip t w), snd (cl_PutDeletionTime (m_runner io) ip t w), l @ [CPut ip t])"
  "m_net (traced io) req (w, l) = (fst (m_net io req w), snd (m_net io req w), l @ [CHttp req])"
  "m_ApplyPDB (traced io) d f (w, l) =
     (fst (m_ApplyPDB io d f w), snd (m_ApplyPDB io d f w), l @ [CApplyPDB d (fst (m_ApplyPDB io d f w) = None)])"
  "m_now (traced io) (w, l) = (fst (m_now io w), snd (m_now io w), l)"
  by (simp_all add: traced_def traced_client_def case_prod_beta)

lemma traced_UpdatePod:
  "m_UpdatePod (traced io) po (w, l) =
     (fst (m_UpdatePod io po w), snd (m_UpdatePod io po w),
      l @ [CUpdate po (\<exists>q. fst (m_UpdatePod io po w) = Inr q)])"
  by (cases "m_UpdatePod io po w"; cases "fst (m_UpdatePod io po w)") (auto simp: traced_def)

subsection \<open>Which pods are deleted\<close>

text \<open>
  A pod may be deleted when it is stale; when it is debugging and its deletion time, or without one
  its extension, has passed, or it is not to be extended; or when it has no finished job, is older
  than the deadline and is not busy.
\<close>

definition deletable :: "'w manage_process \<Rightarrow> time \<Rightarrow> gh_runner list \<Rightarrow> kpod \<Rightarrow> status \<Rightarrow> bool" where
  "deletable p now rl po st \<longleftrightarrow>
     (if State st = RunnerPodStateStale then True
      else if State st = RunnerPodStateDebugging
      then (case DeletionTime st of
              Some t \<Rightarrow> t < now
            | None \<Rightarrow> if Extend st = Some True \<and> p_extendDuration p \<noteq> 0
                      then (\<exists>f. FinishedAt st = Some f \<and> f + p_extendDuration p < now) else True)
      else CreationTimestamp (po_meta po) + p_recreateDeadline p < now \<and>
           \<not> runnerBusy rl (Name (po_meta po)))"

lemma needDelete_deletable:
  "State st = RunnerPodStateDebugging \<Longrightarrow> needDelete p now st = Returns b \<Longrightarrow> b = deletable p now rl po st"
  by (auto simp: needDelete_def deletable_def needExtend_def time_after_def split: option.splits if_splits)

lemma PostResult_log:
  "adds l (snd (snd (PostResult ul (m_net (traced io)) url ch res ext ns pod info (w, l)))) []"
  by (auto simp: PostResult_def traced_simps Let_def split: sum.splits if_splits prod.splits)

lemma notify_log:
  "notify (traced io) p lct po st (w, l) = Returns (w', l') \<Longrightarrow> adds l l' []"
  using PostResult_log [where l = l]
  by (auto simp: notify_def traced_simps Let_def dest!: arg_cong [of _ "(w', l')" snd]
      split: if_splits option.splits)

lemma maintain_debugging_log:
  assumes "maintain_debugging (traced io) p now lct po st (w, l) = Returns (d, w', l')"
    and "State st = RunnerPodStateDebugging"
  shows "adds l l' (if deletable p now rl po st then [po] else []) \<and> d = deletable p now rl po st"
proof -
  obtain w1 l1 where n: "notify (traced io) p lct po st (w, l) = Returns (w1, l1)"
    using assms(1) by (auto simp: maintain_debugging_def split: outcome.splits)
  obtain b where b: "needDelete p now st = Returns b"
    using assms(1) n by (auto simp: maintain_debugging_def split: outcome.splits)
  have del: "b = deletable p now rl po st" by (rule needDelete_deletable [OF assms(2) b])
  have "adds l1 l' (if b then [po] else []) \<and> d = b"
    using assms(1) n b
    by (auto simp: maintain_debugging_def traced_simps split: bool.splits option.splits if_splits)
  with adds_trans [OF notify_log [OF n]] del show ?thesis by fastforce
qed

lemma protect_log:
  "protect (traced io) p po (w, l) = Returns (c, po', w', l') \<Longrightarrow> adds l l' []"
  by (auto simp: protect_def traced_simps traced_UpdatePod
      split: if_splits option.splits prod.splits sum.splits)

lemma unlink_log: "unlink (traced io) po n (w, l) = (po', n', w', l') \<Longrightarrow> adds l l' []"
  by (auto simp: unlink_def traced_UpdatePod Let_def split: if_splits prod.splits sum.splits)

text \<open>A pod that is not running is not asked; one that does not answer is left alone.\<close>

lemma maintain_pod_skip:
  assumes "maintain_pod (traced io) p now lct rl po n (w, l) = Returns (po', n', w', l')"
  shows "po_Phase po \<noteq> PodRunning \<Longrightarrow> l' = l \<and> n' = n \<and> po' = po"
    and "po_Phase po = PodRunning \<Longrightarrow> fst (cl_GetStatus (m_runner io) (po_PodIP po) w) = Inl e \<Longrightarrow>
      l' = l @ [CStatus (po_PodIP po) (Inl e)] \<and> n' = n \<and> po' = po"
  using assms by (auto simp: maintain_pod_def traced_simps)

lemma maintain_pod_log:
  assumes "maintain_pod (traced io) p now lct rl po n (w, l) = Returns (po', n', w', l')"
    and "po_Phase po = PodRunning" and "cl_GetStatus (m_runner io) (po_PodIP po) w = (Inr st, w1)"
  shows "adds (l @ [CStatus (po_PodIP po) (Inr st)]) l' (if deletable p now rl po st then [po] else [])"
proof (cases "State st = RunnerPodStateStale")
  case True
  with assms show ?thesis
    by (auto simp: maintain_pod_def traced_simps deletable_def adds_def)
next
  case stale: False
  let ?l = "l @ [CStatus (po_PodIP po) (Inr st)]"
  have after: "adds ?l l' []"
    if "protect (traced io) p po (w2, l2) = Returns (c, po1, w3, l3)" "adds ?l l2 []"
      "\<not> c \<Longrightarrow> l' = l3" "c \<Longrightarrow> unlink (traced io) po1 n (w3, l3) = (po', n', w', l')" for w2 l2 c po1 w3 l3
  proof (cases c)
    case True
    from adds_trans [OF adds_trans [OF that(2) protect_log [OF that(1)]] unlink_log [OF that(4) [OF True]]]
    show ?thesis by simp
  next
    case False
    with adds_trans [OF that(2) protect_log [OF that(1)]] that(3) show ?thesis by simp
  qed
  show ?thesis
  proof (cases "State st = RunnerPodStateDebugging")
    case True
    from assms stale True obtain d w2 l2 where
      d: "maintain_debugging (traced io) p now lct po st (w1, ?l) = Returns (d, w2, l2)"
      by (auto simp: maintain_pod_def traced_simps split: outcome.splits)
    have del: "adds ?l l2 (if deletable p now rl po st then [po] else [])" "d = deletable p now rl po st"
      using maintain_debugging_log [OF d True, of rl] by auto
    show ?thesis
    proof (cases d)
      case True
      with assms stale d del \<open>State st = RunnerPodStateDebugging\<close> show ?thesis
        by (auto simp: maintain_pod_def traced_simps)
    next
      case False
      with assms stale d del True obtain c po1 w3 l3 where
        "protect (traced io) p po (w2, l2) = Returns (c, po1, w3, l3)" "\<not> c \<Longrightarrow> l' = l3"
        "c \<Longrightarrow> unlink (traced io) po1 n (w3, l3) = (po', n', w', l')"
        by (auto simp: maintain_pod_def traced_simps Let_def split: outcome.splits bool.splits)
      with after False del show ?thesis by simp
    qed
  next
    case False
    consider "deletable p now rl po st" "l' = ?l @ [CDelete po]"
      | "\<not> deletable p now rl po st" "l' = ?l"
      | c po1 w3 l3 where "\<not> deletable p now rl po st"
        "protect (traced io) p po (w1, ?l) = Returns (c, po1, w3, l3)" "\<not> c \<Longrightarrow> l' = l3"
        "c \<Longrightarrow> unlink (traced io) po1 n (w3, l3) = (po', n', w', l')"
      using assms stale False
      by (auto simp: maintain_pod_def traced_simps Let_def deletable_def pastDeadline_def time_before_def
          split: outcome.splits bool.splits prod.splits if_splits)
    then show ?thesis
    proof cases
      case 3
      with after [OF 3(2)] show ?thesis by simp
    qed (simp_all add: adds_def)
  qed
qed

lemma maintain_pod_deletes:
  assumes "maintain_pod (traced io) p now lct rl po n (w, l) = Returns (po', n', w', l')"
    and "po_Phase po = PodRunning" and "cl_GetStatus (m_runner io) (po_PodIP po) w = (Inr st, w1)"
  shows "deletions l' = deletions l @ (if deletable p now rl po st then [po] else [])"
  using adds_deletions [OF maintain_pod_log [OF assms]] by (simp add: deletions_append)

text \<open>Whether an answer lets the pod be deleted, and the pods of a list that are asked.\<close>

definition goes :: "'w manage_process \<Rightarrow> time \<Rightarrow> gh_runner list \<Rightarrow> kpod \<times> string \<times> (client_error + status) \<Rightarrow> bool" where
  "goes p now rl = (\<lambda>(po, ip, r). case r of Inl e \<Rightarrow> False | Inr st \<Rightarrow> deletable p now rl po st)"

definition asked :: "kpod list \<Rightarrow> kpod list" where
  "asked pods = filter (\<lambda>po. po_Phase po = PodRunning) pods"

lemma goes_answered:
  assumes "map fst answers = map po_PodIP pos" "po \<in> set (map fst (filter (goes p now rl) (zip pos answers)))"
  shows "\<exists>st. (po_PodIP po, Inr st) \<in> set answers \<and> deletable p now rl po st"
proof -
  from assms(2) obtain x where x: "(po, x) \<in> set (zip pos answers)" "goes p now rl (po, x)" by auto
  then obtain i where i: "i < length pos" "i < length answers" "pos ! i = po" "answers ! i = x"
    by (auto simp: in_set_zip)
  with arg_cong [OF assms(1), of "\<lambda>xs. xs ! i"] have "fst x = po_PodIP po" by simp
  moreover have "x \<in> set answers" using i by auto
  ultimately show ?thesis using x(2) by (cases x) (auto simp: goes_def split: sum.splits)
qed

text \<open>The calls of one iteration: nothing, or the question to the pod and what follows from its answer.\<close>

lemma maintain_pod_segment:
  assumes "maintain_pod (traced io) p now lct rl po n (w, l) = Returns (po', n', w', l')"
  shows "if po_Phase po = PodRunning
    then \<exists>r k. l' = l @ CStatus (po_PodIP po) r # k \<and> status_answers k = [] \<and>
      deletions k = (if goes p now rl (po, po_PodIP po, r) then [po] else [])
    else l' = l"
proof (cases "po_Phase po = PodRunning")
  case True
  show ?thesis
  proof (cases "cl_GetStatus (m_runner io) (po_PodIP po) w")
    case (Pair r w1)
    show ?thesis
    proof (cases r)
      case (Inl e)
      with maintain_pod_skip(2) [OF assms True, of e] Pair True show ?thesis by (simp add: goes_def)
    next
      case (Inr st)
      with maintain_pod_log [OF assms True, of st w1] Pair True show ?thesis by (fastforce simp: adds_def goes_def)
    qed
  qed
qed (use maintain_pod_skip(1) [OF assms] in simp)

text \<open>A deletion follows the answer of its pod, with no other answer in between.\<close>

definition on_answer :: "'w manage_process \<Rightarrow> time \<Rightarrow> gh_runner list \<Rightarrow> kcall list \<Rightarrow> bool" where
  "on_answer p now rl l \<longleftrightarrow>
     (\<forall>l1 po l2. l = l1 @ CDelete po # l2 \<longrightarrow>
        (\<exists>before st. status_answers l1 = before @ [(po_PodIP po, Inr st)] \<and> deletable p now rl po st))"

lemma on_answer_segment:
  assumes "status_answers k = []" "deletions k = (if goes p now rl (po, po_PodIP po, r) then [po] else [])"
    and "on_answer p now rl rest"
  shows "on_answer p now rl (CStatus (po_PodIP po) r # k @ rest)"
  unfolding on_answer_def
proof (intro allI impI)
  fix l1 po1 l2 assume split: "CStatus (po_PodIP po) r # k @ rest = l1 @ CDelete po1 # l2"
  then obtain m where l1: "l1 = CStatus (po_PodIP po) r # m" and eq: "k @ rest = m @ CDelete po1 # l2"
    by (cases l1) auto
  show "\<exists>before st. status_answers l1 = before @ [(po_PodIP po1, Inr st)] \<and> deletable p now rl po1 st"
  proof (cases "length m < length k")
    case True
    with eq obtain k2 where k: "k = m @ CDelete po1 # k2"
      by (auto simp: append_eq_append_conv2 Cons_eq_append_conv append_eq_Cons_conv)
    then have "po1 \<in> set (deletions k)" by (simp add: deletions_append)
    with assms(2) obtain st where "po1 = po" "r = Inr st" "deletable p now rl po st"
      by (auto simp: goes_def split: if_splits sum.splits)
    moreover have "status_answers m = []" using assms(1) by (simp add: k status_answers_append)
    ultimately show ?thesis by (simp add: l1)
  next
    case False
    with eq obtain m2 where m: "m = k @ m2" "rest = m2 @ CDelete po1 # l2"
      by (auto simp: append_eq_append_conv2 Cons_eq_append_conv)
    from assms(3) [unfolded on_answer_def, rule_format, OF m(2)] obtain before st where
      "status_answers m2 = before @ [(po_PodIP po1, Inr st)]" "deletable p now rl po1 st" by blast
    then show ?thesis by (intro exI [of _ "(po_PodIP po, r) # before"]) (auto simp: l1 m status_answers_append assms(1))
  qed
qed

lemma maintain_loop_log:
  assumes "maintain_loop (traced io) p now lct rl pods n (w, l) = Returns (pods', w', l')"
  shows "\<exists>k. l' = l @ k \<and> map fst (status_answers k) = map po_PodIP (asked pods) \<and>
    deletions k = map fst (filter (goes p now rl) (zip (asked pods) (status_answers k))) \<and> on_answer p now rl k"
  using assms
proof (induction pods arbitrary: n w l pods' w' l')
  case Nil
  then show ?case by (simp add: asked_def on_answer_def)
next
  case (Cons po pods)
  then obtain po1 n1 w1 l1 pods1 where
    step: "maintain_pod (traced io) p now lct rl po n (w, l) = Returns (po1, n1, w1, l1)" and
    rest: "maintain_loop (traced io) p now lct rl pods n1 (w1, l1) = Returns (pods1, w', l')"
    by (auto split: outcome.splits)
  obtain k where k: "l' = l1 @ k" "map fst (status_answers k) = map po_PodIP (asked pods)"
    "deletions k = map fst (filter (goes p now rl) (zip (asked pods) (status_answers k)))" "on_answer p now rl k"
    using Cons.IH [OF rest] by blast
  show ?case
  proof (cases "po_Phase po = PodRunning")
    case True
    with maintain_pod_segment [OF step] obtain r j where seg: "l1 = l @ CStatus (po_PodIP po) r # j"
      "status_answers j = []" "deletions j = (if goes p now rl (po, po_PodIP po, r) then [po] else [])" by auto
    from on_answer_segment [OF seg(2,3) k(4)] seg k True show ?thesis
      by (intro exI [of _ "CStatus (po_PodIP po) r # j @ k"])
        (simp add: asked_def status_answers_append deletions_append)
  next
    case False
    with maintain_pod_segment [OF step] k show ?thesis by (simp add: asked_def)
  qed
qed

lemma maintain_log:
  assumes "maintainRunnerPods (traced io) p rl pods (w, []) = Returns (pods', p', w', log)"
  shows "map fst (status_answers log) = map po_PodIP (asked pods)"
    "deletions log = map fst (filter (goes p' (p_lastCheckTime p') rl) (zip (asked pods) (status_answers log)))"
    "on_answer p' (p_lastCheckTime p') rl log"
proof -
  let ?p = "p\<lparr>p_lastCheckTime := fst (m_now io w)\<rparr>"
  have loop: "maintain_loop (traced io) ?p (fst (m_now io w)) (p_lastCheckTime p) rl pods (numRemovable ?p pods)
      (snd (m_now io w), []) = Returns (pods', w', log)" and p': "p' = ?p"
    using assms by (auto simp: maintainRunnerPods_def traced_simps Let_def split: outcome.splits)
  from maintain_loop_log [OF loop] show
    "map fst (status_answers log) = map po_PodIP (asked pods)"
    "deletions log = map fst (filter (goes p' (p_lastCheckTime p') rl) (zip (asked pods) (status_answers log)))"
    "on_answer p' (p_lastCheckTime p') rl log"
    by (auto simp: p')
qed

subsection \<open>How many pods leave the replica set\<close>

text \<open>An update stores the labels and the name it was given and returns them.\<close>

definition update_echo :: "'w manager_io \<Rightarrow> bool" where
  "update_echo io \<longleftrightarrow>
     (\<forall>po w q w'. m_UpdatePod io po w = (Inr q, w') \<longrightarrow>
        Labels (po_meta q) = Labels (po_meta po) \<and> Name (po_meta q) = Name (po_meta po))"

text \<open>The pods with a name in \<open>S\<close> that were successfully written without the label of the replica set.\<close>

fun unlinked :: "string set \<Rightarrow> kcall list \<Rightarrow> kpod list" where
  "unlinked S [] = []"
| "unlinked S (CUpdate q ok # l) =
     (if ok \<and> unlabeled q \<and> Name (po_meta q) \<in> S then q # unlinked S l else unlinked S l)"
| "unlinked S (_ # l) = unlinked S l"

lemma unlinked_append: "unlinked S (l @ k) = unlinked S l @ unlinked S k"
  by (induction S l rule: unlinked.induct) simp_all

lemma PostResult_unlinked:
  "unlinked S (snd (snd (PostResult ul (m_net (traced io)) url ch res ext ns pod info (w, l)))) = unlinked S l"
  by (auto simp: PostResult_def traced_simps unlinked_append Let_def
      split: sum.splits if_splits prod.splits)

lemma notify_unlinked:
  "notify (traced io) p lct po st (w, l) = Returns (w', l') \<Longrightarrow> unlinked S l' = unlinked S l"
  by (auto simp: notify_def traced_simps Let_def PostResult_unlinked dest!: arg_cong [of _ "(w', l')" snd]
      split: if_splits option.splits)

lemma maintain_debugging_unlinked:
  "maintain_debugging (traced io) p now lct po st (w, l) = Returns (d, w', l') \<Longrightarrow> unlinked S l' = unlinked S l"
  by (auto simp: maintain_debugging_def traced_simps unlinked_append dest!: notify_unlinked [where S = S]
      split: outcome.splits bool.splits option.splits if_splits)

lemma set_labels_simps [simp]:
  "Labels (po_meta (set_labels ls po)) = ls" "Name (po_meta (set_labels ls po)) = Name (po_meta po)"
  by (simp_all add: set_labels_def)

lemma unlabeled_put:
  "gm_put (Labels (po_meta po)) RunnerPodName v = Some ls \<Longrightarrow> unlabeled (set_labels ls po) = unlabeled po"
  by (simp add: unlabeled_def gm_get_put)

lemma update_echoD:
  assumes "update_echo io" "m_UpdatePod io po w = (Inr q, w')"
  shows "unlabeled q = unlabeled po" "Name (po_meta q) = Name (po_meta po)"
proof -
  have "Labels (po_meta q) = Labels (po_meta po) \<and> Name (po_meta q) = Name (po_meta po)"
    using assms unfolding update_echo_def by blast
  then show "unlabeled q = unlabeled po" "Name (po_meta q) = Name (po_meta po)"
    by (simp_all add: unlabeled_def)
qed

lemma protect_unlinked:
  assumes "protect (traced io) p po (w, l) = Returns (c, po', w', l')" and "update_echo io"
    and "Name (po_meta po) \<in> S \<Longrightarrow> \<not> unlabeled po"
  shows "unlinked S l' = unlinked S l \<and> unlabeled po' = unlabeled po \<and> Name (po_meta po') = Name (po_meta po)"
proof (cases "p_denyDisruption p \<and> gm_index (Labels (po_meta po)) RunnerPodName \<noteq> Name (po_meta po) \<and>
    fst (m_ApplyPDB io (new_pdb po) (mutate_pdb (m_lib io) po) w) = None")
  case True
  with assms(1) obtain ls where ls: "gm_put (Labels (po_meta po)) RunnerPodName (Name (po_meta po)) = Some ls"
    by (auto simp: protect_def traced_simps split: option.splits)
  note same = unlabeled_put [OF ls]
  let ?w1 = "snd (m_ApplyPDB io (new_pdb po) (mutate_pdb (m_lib io) po) w)"
  show ?thesis
  proof (cases "fst (m_UpdatePod io (set_labels ls po) ?w1)")
    case (Inl e)
    with True assms(1,3) ls same show ?thesis
      by (auto simp: protect_def traced_simps traced_UpdatePod unlinked_append)
  next
    case (Inr q)
    then have "m_UpdatePod io (set_labels ls po) ?w1 = (Inr q, snd (m_UpdatePod io (set_labels ls po) ?w1))"
      by (metis prod.collapse)
    from update_echoD [OF assms(2) this] Inr True assms(1,3) ls same show ?thesis
      by (auto simp: protect_def traced_simps traced_UpdatePod unlinked_append)
  qed
next
  case False
  with assms(1) show ?thesis
    by (auto simp: protect_def traced_simps unlinked_append split: if_splits option.splits)
qed

lemma sint_pred: "0 < sint (n :: int32) \<Longrightarrow> sint (n - 1) = sint n - 1"
proof -
  assume "0 < sint n"
  then have "sint (word_of_int (sint n - 1) :: int32) = sint n - 1"
    using sint_int32_bounds [of n] by (intro sint_int32_of_int) linarith+
  then show ?thesis by simp
qed

lemma unlink_unlinked:
  assumes "unlink (traced io) po n (w, l) = (po', n', w', l')"
  shows "\<exists>us. unlinked S l' = unlinked S l @ us \<and> int (length us) + max 0 (sint n') \<le> max 0 (sint n)"
proof (cases "n <=s 0 \<or> gm_get (Labels (po_meta po)) DefaultDeploymentUniqueLabelKey = None")
  case True
  then have "l' = l" "n' = n" using assms by (auto simp: unlink_def split: if_splits)
  then show ?thesis by simp
next
  case False
  then have pos: "0 < sint n" by (simp add: word_sle_eq)
  let ?po = "set_labels (gm_delete (Labels (po_meta po)) DefaultDeploymentUniqueLabelKey) po"
  show ?thesis
  proof (cases "fst (m_UpdatePod io ?po w)")
    case (Inl e)
    with False assms show ?thesis by (auto simp: unlink_def Let_def traced_UpdatePod unlinked_append)
  next
    case (Inr q)
    with False assms have "n' = n - 1" "l' = l @ [CUpdate ?po True]"
      by (auto simp: unlink_def Let_def traced_UpdatePod)
    then show ?thesis using pos by (simp add: sint_pred unlinked_append)
  qed
qed

lemma maintain_pod_unlinked:
  assumes "maintain_pod (traced io) p now lct rl po n (w, l) = Returns (po', n', w', l')"
    and "update_echo io" and "Name (po_meta po) \<in> S \<Longrightarrow> \<not> unlabeled po"
  shows "\<exists>us. unlinked S l' = unlinked S l @ us \<and> int (length us) + max 0 (sint n') \<le> max 0 (sint n)"
proof (cases "po_Phase po = PodRunning \<and> (\<exists>st. fst (cl_GetStatus (m_runner io) (po_PodIP po) w) = Inr st)")
  case False
  then consider "po_Phase po \<noteq> PodRunning"
    | e where "po_Phase po = PodRunning" "fst (cl_GetStatus (m_runner io) (po_PodIP po) w) = Inl e"
    by (metis sum.exhaust)
  then have "unlinked S l' = unlinked S l \<and> n' = n"
    using maintain_pod_skip [OF assms(1)] by cases (simp_all add: unlinked_append)
  then show ?thesis by simp
next
  case True
  then obtain st w1 where st: "po_Phase po = PodRunning"
    "cl_GetStatus (m_runner io) (po_PodIP po) w = (Inr st, w1)"
    by (metis prod.collapse)
  consider (unl) po1 w2 l2 where "unlinked S l2 = unlinked S l"
      "unlink (traced io) po1 n (w2, l2) = (po', n', w', l')"
    | (same) "unlinked S l' = unlinked S l" "n' = n"
    using assms(1) st
    by (auto simp: maintain_pod_def traced_simps unlinked_append Let_def
        dest!: maintain_debugging_unlinked [where S = S] protect_unlinked [OF _ assms(2,3)]
        split: if_splits outcome.splits bool.splits prod.splits)
  then show ?thesis
  proof cases
    case unl
    from unlink_unlinked [OF unl(2), of S] unl(1) show ?thesis by simp
  qed simp
qed

lemma maintain_loop_unlinked:
  assumes "maintain_loop (traced io) p now lct rl pods n (w, l) = Returns (pods', w', l')"
    and "update_echo io" and "\<And>po. po \<in> set pods \<Longrightarrow> Name (po_meta po) \<in> S \<Longrightarrow> \<not> unlabeled po"
  shows "\<exists>us. unlinked S l' = unlinked S l @ us \<and> int (length us) \<le> max 0 (sint n)"
  using assms(1,3)
proof (induction pods arbitrary: n w l pods')
  case Nil
  then show ?case by auto
next
  case (Cons po pods)
  then obtain po1 n1 w1 l1 pods1 where
    step: "maintain_pod (traced io) p now lct rl po n (w, l) = Returns (po1, n1, w1, l1)" and
    rest: "maintain_loop (traced io) p now lct rl pods n1 (w1, l1) = Returns (pods1, w', l')"
    by (auto split: outcome.splits)
  obtain us1 where us1: "unlinked S l1 = unlinked S l @ us1"
    "int (length us1) + max 0 (sint n1) \<le> max 0 (sint n)"
    using maintain_pod_unlinked [OF step assms(2), of S] Cons.prems(2) by auto
  obtain us2 where us2: "unlinked S l' = unlinked S l1 @ us2" "int (length us2) \<le> max 0 (sint n1)"
    using Cons.IH [OF rest] Cons.prems(2) by auto
  from us1 us2 show ?case by (intro exI [of _ "us1 @ us2"]) auto
qed

subsection \<open>No panic\<close>

lemma debugging_no_panic:
  assumes "status_wf st" "State st = RunnerPodStateDebugging"
  shows "maintain_debugging io p now lct po st w \<noteq> Panics"
proof -
  obtain f where "FinishedAt st = Some f" using assms by (auto simp: status_wf_def)
  then show ?thesis
    by (auto simp: maintain_debugging_def notify_def needDelete_def Let_def
        split: outcome.splits bool.splits option.splits)
qed

lemma protect_no_panic: "Labels (po_meta po) \<noteq> None \<Longrightarrow> protect io p po w \<noteq> Panics"
  by (auto simp: protect_def gm_put_def split: prod.splits option.splits sum.splits)

text \<open>
  The contract of a round with the world around it: a property of the world that every call keeps, and
  in which what the pods at \<open>ips\<close> report is well-formed.
\<close>

locale manager_world =
  fixes io :: "'w manager_io" and I :: "'w \<Rightarrow> bool" and ips :: "string set"
  assumes status_keeps: "I w \<Longrightarrow> I (snd (cl_GetStatus (m_runner io) ip w))"
    and put_keeps: "I w \<Longrightarrow> I (snd (cl_PutDeletionTime (m_runner io) ip t w))"
    and delete_keeps: "I w \<Longrightarrow> I (snd (m_DeletePod io po w))"
    and update_keeps: "I w \<Longrightarrow> I (snd (m_UpdatePod io po w))"
    and pdb_keeps: "I w \<Longrightarrow> I (snd (m_ApplyPDB io d f w))"
    and net_keeps: "I w \<Longrightarrow> I (snd (m_net io req w))"
    and now_keeps: "I w \<Longrightarrow> I (snd (m_now io w))"
    and reported_wf: "I w \<Longrightarrow> ip \<in> ips \<Longrightarrow> fst (cl_GetStatus (m_runner io) ip w) = Inr st \<Longrightarrow> status_wf st"
begin

lemma PostResult_keeps: "I w \<Longrightarrow> I (snd (PostResult ul (m_net io) url ch res ext ns pod info w))"
  by (auto simp: PostResult_def Let_def split: sum.splits if_splits prod.splits) (metis net_keeps snd_conv)+

lemma notify_keeps: "I w \<Longrightarrow> notify io p lct po st w = Returns w' \<Longrightarrow> I w'"
  by (auto simp: notify_def Let_def intro: PostResult_keeps split: if_splits option.splits)

lemma debugging_keeps:
  "I w \<Longrightarrow> maintain_debugging io p now lct po st w = Returns (d, w') \<Longrightarrow> I w'"
  by (auto simp: maintain_debugging_def intro: delete_keeps put_keeps dest: notify_keeps [rotated]
      split: outcome.splits bool.splits option.splits if_splits)

lemma protect_keeps: "I w \<Longrightarrow> protect io p po w = Returns (c, po', w') \<Longrightarrow> I w'"
proof -
  have upd: "I v'" if "I v" "m_UpdatePod io q v = (r, v')" for v q r v' using update_keeps [OF that(1), of q] that(2) by simp
  have app: "I v'" if "I v" "m_ApplyPDB io d f v = (r, v')" for v d f r v'
    using pdb_keeps [OF that(1), of d f] that(2) by simp
  show "I w \<Longrightarrow> protect io p po w = Returns (c, po', w') \<Longrightarrow> I w'"
    by (auto simp: protect_def dest: upd [rotated] app [rotated] split: if_splits prod.splits option.splits sum.splits)
qed

lemma unlink_keeps: "I w \<Longrightarrow> I (snd (snd (unlink io po n w)))"
  using update_keeps [of w] by (simp add: unlink_def Let_def split: prod.splits sum.splits) (metis snd_conv)

lemma maintain_pod_keeps:
  assumes "I w" "maintain_pod io p now lct rl po n w = Returns (po', n', w')"
  shows "I w'"
proof -
  obtain res w1 where st: "cl_GetStatus (m_runner io) (po_PodIP po) w = (res, w1)" by fastforce
  with status_keeps [OF assms(1), of "po_PodIP po"] have "I w1" by simp
  with assms st show ?thesis
    by (auto simp: maintain_pod_def Let_def intro: delete_keeps dest: debugging_keeps [rotated] protect_keeps [rotated]
        split: if_splits sum.splits outcome.splits bool.splits prod.splits)
      (metis debugging_keeps protect_keeps unlink_keeps snd_conv)+
qed

lemma maintain_pod_no_panic:
  assumes "I w" "po_PodIP po \<in> ips" "Labels (po_meta po) \<noteq> None"
  shows "maintain_pod io p now lct rl po n w \<noteq> Panics"
proof (cases "cl_GetStatus (m_runner io) (po_PodIP po) w")
  case (Pair res w1)
  show ?thesis
  proof (cases res)
    case (Inr st)
    with Pair have wf: "status_wf st" using reported_wf [OF assms(1,2)] by simp
    show ?thesis
      using Pair Inr
      by (auto simp: maintain_pod_def Let_def debugging_no_panic [OF wf] protect_no_panic [OF assms(3)]
          split: outcome.splits bool.splits prod.splits)
  qed (simp add: maintain_pod_def Pair)
qed

lemma maintain_loop_returns:
  assumes "I w" "\<forall>po\<in>set pods. po_PodIP po \<in> ips \<and> Labels (po_meta po) \<noteq> None"
  shows "\<exists>pods' w'. maintain_loop io p now lct rl pods n w = Returns (pods', w') \<and> I w'"
  using assms
proof (induction pods arbitrary: n w)
  case (Cons po pods)
  have "maintain_pod io p now lct rl po n w \<noteq> Panics"
    by (rule maintain_pod_no_panic) (use Cons.prems in simp_all)
  then obtain po' n' w' where pod: "maintain_pod io p now lct rl po n w = Returns (po', n', w')"
    by (metis outcome.exhaust prod_cases3)
  with Cons.IH [OF maintain_pod_keeps [OF Cons.prems(1) pod], of n'] Cons.prems(2) show ?case by auto
qed simp

lemma maintain_returns:
  assumes "I w" "\<forall>po\<in>set pods. po_PodIP po \<in> ips \<and> Labels (po_meta po) \<noteq> None"
  shows "\<exists>pods' p' w'. maintainRunnerPods io p rl pods w = Returns (pods', p', w') \<and> I w'"
  using maintain_loop_returns [OF now_keeps [OF assms(1)] assms(2),
      where p = "p\<lparr>p_lastCheckTime := fst (m_now io w)\<rparr>" and now = "fst (m_now io w)" and lct = "p_lastCheckTime p"
        and rl = rl and n = "numRemovable (p\<lparr>p_lastCheckTime := fst (m_now io w)\<rparr>) pods"]
  by (auto simp: maintainRunnerPods_def Let_def case_prod_beta)

end


subsection \<open>Runners at GitHub\<close>

lemma deleteOfflineRunners_each:
  "deleteOfflineRunners p rs pods w =
     remove_each (ghc_RemoveRunner (p_githubClient p) (p_owner p) (p_repo p))
       (filter (\<lambda>r. \<not> r_Online r \<and> \<not> podExists (r_Name r) pods) rs) w"
  by (induction rs arbitrary: w) (auto split: prod.splits option.splits)

lemma podExists_iff: "podExists n pods \<longleftrightarrow> n \<in> (\<lambda>po. Name (po_meta po)) ` set pods"
  by (auto simp: podExists_def list_ex_iff)

subsection \<open>A world for the witnesses\<close>

text \<open>Every call succeeds, every pod reports the status \<open>st\<close>, the clock shows a fixed time.\<close>

definition static_client :: "status \<Rightarrow> unit client" where
  "static_client st = \<lparr>cl_PutDeletionTime = (\<lambda>ip t w. (None, w)), cl_GetStatus = (\<lambda>ip w. (Inr st, w))\<rparr>"

definition static_io :: "status \<Rightarrow> unit manager_io" where
  "static_io st =
     \<lparr>m_ListPods = (\<lambda>ns sel w. (Inr [], w)), m_DeletePod = (\<lambda>po w. (None, w)),
      m_UpdatePod = (\<lambda>po w. (Inr po, w)), m_ApplyPDB = (\<lambda>d f w. (None, w)), m_lib = plain_lib,
      m_urls = sample_urls, m_net = (\<lambda>req w. (Inr (plain_response StatusOK []), w)),
      m_runner = static_client st, m_now = (\<lambda>w. (90000 * Hour, w))\<rparr>"

definition no_github :: "'w gh_client" where
  "no_github = \<lparr>ghc_CreateRegistrationToken = (\<lambda>ow r w. (Inl (ApiError []), w)),
     ghc_ListRunners = (\<lambda>ow r ls w. Some (Inr [], w)), ghc_RemoveRunner = (\<lambda>ow r i w. (None, w))\<rparr>"

definition sample_process :: "'w manage_process" where
  "sample_process =
     \<lparr>p_githubClient = no_github, p_serverURL = ''http://agent'', p_rpNamespace = ''ns'', p_rpName = ''pool'',
      p_owner = ''cybozu'', p_repo = ''meows'', p_replicas = 1, p_maxRunnerPods = 3,
      p_needSlackNotification = True, p_slackChannel = ''ci'', p_slackAgentServiceName = ''agent'',
      p_extendDuration = 20 * Minute, p_recreateDeadline = 24 * Hour, p_denyDisruption = True,
      p_lastCheckTime = 89999 * Hour, p_running = True, p_prevRunnerNames = []\<rparr>"

definition labelled_po :: "string \<Rightarrow> kpod" where
  "labelled_po name =
     \<lparr>po_meta = empty_meta\<lparr>Name := name, Namespace := ''ns'',
        Labels := Some [(DefaultDeploymentUniqueLabelKey, ''abc'')], CreationTimestamp := 90000 * Hour\<rparr>,
      po_Phase = PodRunning, po_PodIP = ''10.0.0.1'', po_rest = JNull\<rparr>"

definition stale_status :: status where
  "stale_status = empty_status\<lparr>State := RunnerPodStateStale\<rparr>"

definition running_status :: status where
  "running_status = empty_status\<lparr>State := RunnerPodStateRunning\<rparr>"

definition busy_runner :: "string \<Rightarrow> gh_runner" where
  "busy_runner n = \<lparr>r_ID = 1, r_Name = n, r_Online = True, r_Busy = True, r_Labels = [''ns/pool'']\<rparr>"

lemma busy_round:
  "\<exists>pods' log. maintainRunnerPods (traced (static_io running_status)) sample_process [busy_runner ''pod-1'']
     [labelled_po ''pod-1''] ((), []) =
       Returns (pods', sample_process\<lparr>p_lastCheckTime := 90000 * Hour\<rparr>, (), log) \<and>
     length (unlinked {''pod-1''} log) = 1"
  by (simp add: maintainRunnerPods_def maintain_pod_def traced_simps traced_UpdatePod static_io_def
      static_client_def labelled_po_def running_status_def Let_def runnerBusy_def busy_runner_def
      protect_def unlink_def sample_process_def gm_index_def gm_get_def gm_put_def gm_delete_def
      set_labels_def numRemovable_def numUnlabeledPods_def unlabeled_def word_sle_eq)

subsection \<open>Properties\<close>

text \<open>
  C3. In the iteration for a running pod that answers, the pod is deleted exactly when its status
  makes it deletable: nothing else is deleted, and no pod that should go is kept.
\<close>

theorem maintain_pod_deletes_exactly:
  assumes "maintain_pod (traced io) p now lct rl po n (w, []) = Returns (po', n', w', log)"
    and "po_Phase po = PodRunning" and "cl_GetStatus (m_runner io) (po_PodIP po) w = (Inr st, w1)"
  shows "deletions log = (if deletable p now rl po st then [po] else [])"
  using maintain_pod_deletes [OF assms] by simp

theorem maintain_pod_deletes_exactly_witness:
  "\<exists>po' n' w' log. maintain_pod (traced (static_io running_status)) sample_process (90025 * Hour) 0
     [] (labelled_po ''pod-1'') 0 ((), []) = Returns (po', n', w', log) \<and> deletions log = [labelled_po ''pod-1'']"
proof -
  obtain po' n' w' log where r: "maintain_pod (traced (static_io running_status)) sample_process
      (90025 * Hour) 0 [] (labelled_po ''pod-1'') 0 ((), []) = Returns (po', n', w', log)"
    by (simp add: maintain_pod_def traced_simps static_io_def static_client_def labelled_po_def
        running_status_def Let_def runnerBusy_def pastDeadline_def time_before_def sample_process_def
        duration_defs)
  have "deletable (sample_process :: (unit \<times> kcall list) manage_process) (90025 * Hour) []
      (labelled_po ''pod-1'') running_status"
    by (simp add: deletable_def running_status_def labelled_po_def sample_process_def runnerBusy_def
        duration_defs)
  with maintain_pod_deletes_exactly [OF r, of running_status "()"] r show ?thesis
    by (auto simp: labelled_po_def static_io_def static_client_def)
qed

text \<open>
  C4. A round respects the maximum number of pods: with non-negative numbers that fit, the pods that
  had left the replica set before the round, those it takes out, and the replicas that the
  deployment keeps are together at most the maximum, unless the round takes out none. In particular
  nothing is taken out when the maximum is 0.
\<close>

theorem unlink_respects_maximum:
  assumes "maintainRunnerPods (traced io) p rl pods (w, []) = Returns (pods', p', w', log)"
    and "update_echo io" and "counts_fit p pods" and "distinct (map (\<lambda>po. Name (po_meta po)) pods)"
  defines "S \<equiv> (\<lambda>po. Name (po_meta po)) ` set (filter (\<lambda>po. \<not> unlabeled po) pods)"
  shows "unlinked S log = [] \<or>
    int (length (filter unlabeled pods)) + int (length (unlinked S log)) + sint (p_replicas p) \<le>
      sint (p_maxRunnerPods p)"
proof -
  let ?p = "p\<lparr>p_lastCheckTime := fst (m_now io w)\<rparr>"
  have loop: "maintain_loop (traced io) ?p (fst (m_now io w)) (p_lastCheckTime p) rl pods (numRemovable ?p pods)
      (snd (m_now io w), []) = Returns (pods', w', log)"
    using assms(1) by (auto simp: maintainRunnerPods_def traced_simps Let_def split: outcome.splits)
  have "\<not> unlabeled po" if "po \<in> set pods" "Name (po_meta po) \<in> S" for po
    using that assms(4) by (auto simp: S_def distinct_map inj_on_def)
  from maintain_loop_unlinked [OF loop assms(2) this] have bound:
    "int (length (unlinked S log)) \<le> max 0 (sint (numRemovable ?p pods))" by auto
  have exact: "sint (numRemovable ?p pods) =
      sint (p_maxRunnerPods p) - sint (p_replicas p) - int (length (filter unlabeled pods))"
    using numRemovable_exact [of ?p pods] assms(3) by (simp add: counts_fit_def)
  show ?thesis
  proof (cases "unlinked S log")
    case (Cons a us)
    then have "0 < int (length (unlinked S log))" by simp
    then show ?thesis using bound exact by linarith
  qed simp
qed

theorem unlink_respects_maximum_witness:
  "\<exists>pods' p' w' log. maintainRunnerPods (traced (static_io running_status)) sample_process
     [busy_runner ''pod-1''] [labelled_po ''pod-1''] ((), []) = Returns (pods', p', w', log) \<and>
     length (unlinked {''pod-1''} log) = 1 \<and> int (length (unlinked {''pod-1''} log)) + 1 \<le> 3"
proof -
  obtain pods' log where r: "maintainRunnerPods (traced (static_io running_status)) sample_process
      [busy_runner ''pod-1''] [labelled_po ''pod-1''] ((), []) =
      Returns (pods', sample_process\<lparr>p_lastCheckTime := 90000 * Hour\<rparr>, (), log)"
    and one: "length (unlinked {''pod-1''} log) = 1"
    using busy_round by blast
  have "update_echo (static_io running_status)" by (simp add: update_echo_def static_io_def)
  moreover have "counts_fit (sample_process :: (unit \<times> kcall list) manage_process) [labelled_po ''pod-1'']"
    by (simp add: counts_fit_def sample_process_def)
  moreover have "\<not> unlabeled (labelled_po ''pod-1'')" by (simp add: unlabeled_def labelled_po_def gm_get_def)
  ultimately have "unlinked {''pod-1''} log = [] \<or>
      int 0 + int (length (unlinked {''pod-1''} log)) + sint (1 :: int32) \<le> sint (3 :: int32)"
    using unlink_respects_maximum [OF r] by (simp add: labelled_po_def sample_process_def)
  with r one show ?thesis by auto
qed

text \<open>
  A round does not panic on what runner pods report: when every status that is returned is
  well-formed, in particular has a finish time when it is debugging, and the listed pods have labels,
  \<open>maintainRunnerPods\<close> returns.
\<close>

lemma maintain_no_panic:
  assumes "\<And>po w st w'. po \<in> set pods \<Longrightarrow> cl_GetStatus (m_runner io) (po_PodIP po) w = (Inr st, w') \<Longrightarrow> status_wf st"
    and "\<And>po. po \<in> set pods \<Longrightarrow> Labels (po_meta po) \<noteq> None"
  shows "\<exists>pods' p' w'. maintainRunnerPods io p rl pods w = Returns (pods', p', w')"
proof -
  have "manager_world io (\<lambda>w. True) (po_PodIP ` set pods)"
    by unfold_locales (use assms(1) in \<open>auto simp: prod_eq_iff\<close>)
  from manager_world.maintain_returns [OF this, where w = w and pods = pods] assms(2) show ?thesis by blast
qed

text \<open>
  C30. After a listing the metrics of a pool say what was listed: the online series and the busy series exist for
  exactly the runners that GitHub lists now, with the values of the listing, whatever was listed before, the
  gauge of replicas shows the number of the spec, and the series of other pools and the retry counters keep their
  values.
\<close>

theorem updateMetrics_exports_current:
  assumes "metrics_synced p m" and "updateMetrics p rs m = (p', m')" and "distinct (map r_Name rs)"
  shows "metrics_synced p' m' \<and> exported m' (rpNamespacedName p) = (set (map r_Name rs), set (map r_Name rs)) \<and>
    runnerPoolReplicas m' (rpNamespacedName p) = Some (sint (p_replicas p)) \<and>
    RunnerPoolSecretRetryCount m' = RunnerPoolSecretRetryCount m \<and>
    (\<forall>k. k \<noteq> rpNamespacedName p \<longrightarrow> pool_series m' k = pool_series m k) \<and>
    (\<forall>r\<in>set rs. runnerOnlineVec m' (rpNamespacedName p, r_Name r) = Some (if r_Online r then 1 else 0) \<and>
       runnerBusyVec m' (rpNamespacedName p, r_Name r) = Some (if r_Busy r then 1 else 0))"
proof -
  note lab = updateMetrics_labelled [OF assms(1,2)]
  have "metrics_wf m" "metrics_wf m'" using assms(1) lab(1) by (simp_all add: metrics_synced_def)
  with lab updateMetrics_values [OF assms(2) _ assms(3)] updateMetrics_others [OF assms(2)] show ?thesis
    by (simp add: exported_labelled)
qed

definition listed_before :: controller_metrics where
  "listed_before = UpdateRunnerMetrics ''ns/pool'' ''old'' True True InitControllerMetrics"

theorem updateMetrics_exports_current_witness:
  "exported (snd (updateMetrics (sample_process\<lparr>p_prevRunnerNames := [''old'']\<rparr> :: unit manage_process)
       [busy_runner ''pod-1''] listed_before)) ''ns/pool'' = ({''pod-1''}, {''pod-1''})"
proof -
  let ?p = "sample_process\<lparr>p_prevRunnerNames := [''old'']\<rparr> :: unit manage_process"
  have k: "rpNamespacedName ?p = ''ns/pool''" by (simp add: rpNamespacedName_def sample_process_def)
  have "metrics_wf listed_before"
    unfolding listed_before_def by (rule metrics_wf_UpdateRunnerMetrics [OF metrics_wf_init])
  moreover have "labelled listed_before ''ns/pool'' = {''old''}"
    by (simp add: listed_before_def labelled_UpdateRunnerMetrics) (simp add: labelled_def InitControllerMetrics_def)
  ultimately have synced: "metrics_synced ?p listed_before" by (simp add: metrics_synced_def k)
  obtain p' m' where u: "updateMetrics ?p [busy_runner ''pod-1''] listed_before = (p', m')" by fastforce
  from updateMetrics_exports_current [OF synced u] u show ?thesis by (simp add: k) (simp add: busy_runner_def)
qed

text \<open>
  C17. Offline runners are removed exactly: against GitHub, listing the runners and then removing the
  offline ones succeeds, and the runners registered afterwards are those from before without the
  runners of this pool that are offline and have no pod; runners of other pools, online runners and
  runners with a pod stay.
\<close>

theorem deleteOfflineRunners_exact:
  assumes "p_githubClient p = clientWrapper server_api" and "server_inv w"
    and "fetchRunners p w = Some (Inr rs, w1)"
  shows "\<exists>w2. deleteOfflineRunners p rs pods w1 = (None, w2) \<and> server_inv w2 \<and>
    map convert (w2 (p_owner p) (p_repo p)) =
      filter (\<lambda>r. \<not> (hasLabels r [rpNamespacedName p] \<and> \<not> r_Online r \<and>
                     r_Name r \<notin> (\<lambda>po. Name (po_meta po)) ` set pods))
        (map convert (w (p_owner p) (p_repo p)))"
proof -
  have "ListRunners server_api (p_owner p) (p_repo p) [rpNamespacedName p] w = Some (Inr rs, w1)"
    using assms(1,3) by (simp add: fetchRunners_def clientWrapper_def)
  from real_gh.list_then_remove_each [OF assms(2) this,
      of "\<lambda>r. \<not> r_Online r \<and> r_Name r \<notin> (\<lambda>po. Name (po_meta po)) ` set pods"]
  show ?thesis
    by (simp add: deleteOfflineRunners_each podExists_iff assms(1) clientWrapper_def)
qed

definition offline_server :: gh_server where
  "offline_server owner repo =
     (if owner = ''cybozu'' \<and> repo = ''meows''
      then [(sample_api_runner 1)\<lparr>ar_Status := Some ''offline''\<rparr>, sample_api_runner 2] else [])"

definition server_process :: "gh_server manage_process" where
  "server_process = sample_process\<lparr>p_githubClient := clientWrapper server_api\<rparr>"

lemma offline_server_inv: "server_inv offline_server"
  by (simp add: server_inv_def offline_server_def sample_api_runner_def get_or_def)

lemma offline_fetch: "\<exists>rs. fetchRunners server_process offline_server = Some (Inr rs, offline_server)"
  by (simp add: fetchRunners_def server_process_def clientWrapper_def server_ListRunners)

theorem deleteOfflineRunners_exact_witness:
  "\<exists>rs w2. fetchRunners server_process offline_server = Some (Inr rs, offline_server) \<and>
     deleteOfflineRunners server_process rs [] offline_server = (None, w2) \<and>
     map r_ID (map convert (w2 ''cybozu'' ''meows'')) = [2]"
proof -
  obtain rs where rs: "fetchRunners server_process offline_server = Some (Inr rs, offline_server)"
    using offline_fetch by blast
  have gh: "p_githubClient server_process = clientWrapper server_api" by (simp add: server_process_def)
  have v: "map convert (offline_server (p_owner server_process) (p_repo server_process)) =
      [convert ((sample_api_runner 1)\<lparr>ar_Status := Some ''offline''\<rparr>), convert (sample_api_runner 2)]"
    by (simp add: offline_server_def server_process_def sample_process_def)
  from deleteOfflineRunners_exact [OF gh offline_server_inv rs, of "[]"] rs show ?thesis
    unfolding v
    by (auto simp: convert_def sample_api_runner_def get_or_def statusOnline_def hasLabels_def
        rpNamespacedName_def server_process_def sample_process_def)
qed

text \<open>
  C18. When the process of a pool ends, nothing of the pool is left behind: every runner registered
  with the label of the pool is removed and no other one, none of the metrics that the process keeps for the pool
  (the online and the busy series of its runners, the gauge of replicas) is exported any more, and the series of
  other pools and the retry counters keep their values.
\<close>

theorem finish_process_cleans:
  assumes "p_githubClient p = clientWrapper server_api" and "server_inv w" and "metrics_wf m"
  shows "\<exists>m' w'. finish_process p m w = Some (m', w') \<and>
    map convert (w' (p_owner p) (p_repo p)) =
      filter (\<lambda>r. rpNamespacedName p \<notin> set (r_Labels r)) (map convert (w (p_owner p) (p_repo p))) \<and>
    exported m' (rpNamespacedName p) = ({}, {}) \<and> runnerPoolReplicas m' (rpNamespacedName p) = None \<and>
    RunnerPoolSecretRetryCount m' = RunnerPoolSecretRetryCount m \<and>
    (\<forall>k. k \<noteq> rpNamespacedName p \<longrightarrow> pool_series m' k = pool_series m k)"
proof -
  let ?k = "rpNamespacedName p"
  obtain rs where rs: "ListRunners server_api (p_owner p) (p_repo p) [?k] w = Some (Inr rs, w)"
    using real_gh.list_view [OF assms(2)] by blast
  from real_gh.list_then_remove_each [OF assms(2) rs, of "\<lambda>r. True"] obtain w' where
    w': "remove_each (RemoveRunner server_api (p_owner p) (p_repo p)) rs w = (None, w')"
      "map convert (w' (p_owner p) (p_repo p)) =
         filter (\<lambda>r. ?k \<notin> set (r_Labels r)) (map convert (w (p_owner p) (p_repo p)))"
    by (auto simp: hasLabels_def)
  have fin: "finish_process p m w = Some (deleteMetrics p m, w')"
    using assms(1) rs w'(1) by (simp add: finish_process_def deleteAllRunners_def clientWrapper_def)
  have "metrics_wf (deleteMetrics p m)"
    using assms(3) by (simp add: deleteMetrics_def metrics_wf_DeleteAllRunnerMetrics)
  moreover have "labelled (deleteMetrics p m) = (labelled m)(?k := {})"
    by (simp add: deleteMetrics_def frame_simps labelled_DeleteAllRunnerMetrics)
  moreover have "runnerPoolReplicas (deleteMetrics p m) ?k = None"
    by (simp add: deleteMetrics_def DeleteRunnerPoolMetrics_def)
  moreover have "RunnerPoolSecretRetryCount (deleteMetrics p m) = RunnerPoolSecretRetryCount m"
    by (simp add: deleteMetrics_def DeleteRunnerPoolMetrics_def DeleteAllRunnerMetrics_def split: option.splits)
  moreover have "k \<noteq> ?k \<Longrightarrow> pool_series (deleteMetrics p m) k = pool_series m k" for k
    by (rule deleteMetrics_others)
  ultimately show ?thesis using fin w'(2) assms(3) by (simp add: exported_labelled)
qed

theorem finish_process_cleans_witness:
  "\<exists>m' w'. finish_process server_process InitControllerMetrics offline_server = Some (m', w') \<and>
     w' ''cybozu'' ''meows'' = []"
proof -
  have gh: "p_githubClient server_process = clientWrapper server_api" by (simp add: server_process_def)
  have v: "map convert (offline_server (p_owner server_process) (p_repo server_process)) =
      [convert ((sample_api_runner 1)\<lparr>ar_Status := Some ''offline''\<rparr>), convert (sample_api_runner 2)]"
    by (simp add: offline_server_def server_process_def sample_process_def)
  from finish_process_cleans [OF gh offline_server_inv metrics_wf_init] show ?thesis
    unfolding v
    by (auto simp: convert_def sample_api_runner_def get_or_def
        rpNamespacedName_def server_process_def sample_process_def)
qed

end
