(* ===== verification/Cluster.thy ===== *)
theory Cluster
  imports Manage_Safety
begin

section \<open>The controller, the runner pods and the Slack agent together\<close>

text \<open>
  A round of the runner manager in a cluster whose hosts are runner pods: \<open>cluster_io\<close> is the outside
  world of a process in which the client of the runner pods goes over the network of \<open>Runner_Client\<close> to
  the handlers of \<open>Runner_Pod\<close>, and the Kubernetes API, the Slack agent and the clock are any. The Slack
  agent acts on the same pods. Deleting a pod at the API does not stop its process at once, so the network
  keeps it. The theorems say which pods a round deletes by the answers that the pods gave in it, when a button of
  Slack leads to a deletion, and that a round on runner pods returns.
\<close>

subsection \<open>The world of a round\<close>

definition on_pods :: "pod_net network \<Rightarrow> (pod_net \<times> 'k) network" where
  "on_pods net req w = (case net req (fst w) of (res, pods) \<Rightarrow> (res, pods, snd w))"

definition beside :: "('k \<Rightarrow> 'a \<times> 'k) \<Rightarrow> pod_net \<times> 'k \<Rightarrow> 'a \<times> pod_net \<times> 'k" where
  "beside f w = (case f (snd w) of (a, k) \<Rightarrow> (a, fst w, k))"

definition cluster_io :: "'k manager_io \<Rightarrow> (pod_net \<times> 'k) manager_io" where
  "cluster_io io =
     \<lparr>m_ListPods = (\<lambda>ns sel. beside (m_ListPods io ns sel)), m_DeletePod = (\<lambda>po. beside (m_DeletePod io po)),
      m_UpdatePod = (\<lambda>po. beside (m_UpdatePod io po)), m_ApplyPDB = (\<lambda>d f. beside (m_ApplyPDB io d f)),
      m_lib = m_lib io, m_urls = m_urls io, m_net = (\<lambda>req. beside (m_net io req)),
      m_runner = NewClient (on_pods pod_network), m_now = beside (m_now io)\<rparr>"

lemma beside_pods [simp]: "fst (snd (beside f w)) = fst w"
  by (simp add: beside_def case_prod_beta)

lemma on_pods_client:
  "GetStatus (on_pods net) ip w = (fst (GetStatus net ip (fst w)), snd (GetStatus net ip (fst w)), snd w)"
  "PutDeletionTime (on_pods net) ip t w =
     (fst (PutDeletionTime net ip t (fst w)), snd (PutDeletionTime net ip t (fst w)), snd w)"
  by (auto simp: GetStatus_def PutDeletionTime_def on_pods_def split: prod.splits sum.splits option.splits)

subsection \<open>What a round can do to the pods\<close>

text \<open>Two networks with the same pods, their deletion times apart.\<close>

definition same_pods :: "pod_net \<Rightarrow> pod_net \<Rightarrow> bool" where
  "same_pods a b \<longleftrightarrow>
     (\<lambda>ip. map_option (\<lambda>r. r\<lparr>deletionTime := None\<rparr>) (a ip)) = (\<lambda>ip. map_option (\<lambda>r. r\<lparr>deletionTime := None\<rparr>) (b ip))"

definition all_wf :: "pod_net \<Rightarrow> bool" where
  "all_wf a \<longleftrightarrow> (\<forall>ip r. a ip = Some r \<longrightarrow> status_wf (runner_status r))"

lemma status_wf_forget: "status_wf (runner_status (r\<lparr>deletionTime := None\<rparr>)) = status_wf (runner_status r)"
  by (rule status_wf_deletionTime)

lemma all_wf_same:
  assumes "same_pods a b" "all_wf a"
  shows "all_wf b"
  unfolding all_wf_def
proof (intro allI impI)
  fix ip r assume "b ip = Some r"
  then obtain q where "a ip = Some q" "q\<lparr>deletionTime := None\<rparr> = r\<lparr>deletionTime := None\<rparr>"
    using fun_cong [OF assms(1) [unfolded same_pods_def], of ip] by auto
  with assms(2) show "status_wf (runner_status r)" by (metis all_wf_def status_wf_forget)
qed

lemma mux_forget: "(snd (runner_mux req r))\<lparr>deletionTime := None\<rparr> = r\<lparr>deletionTime := None\<rparr>"
  by (subst runner_mux_frame) simp

lemma pod_network_same:
  assumes "pod_network req a = (res, b)"
  shows "same_pods a b"
proof (cases "a (url_host (req_url req))")
  case None
  with assms show ?thesis by (simp add: pod_network_def same_pods_def)
next
  case (Some r)
  with assms have "b = a(url_host (req_url req) \<mapsto> snd (runner_mux req r))"
    by (auto simp: pod_network_def split: prod.splits)
  with Some mux_forget [of req r] show ?thesis by (simp add: same_pods_def fun_eq_iff)
qed

lemma client_same:
  "same_pods a (snd (GetStatus pod_network ip a))" "same_pods a (snd (PutDeletionTime pod_network ip t a))"
proof -
  have refl: "same_pods a a" by (simp add: same_pods_def)
  show "same_pods a (snd (GetStatus pod_network ip a))"
    by (auto simp: GetStatus_def dest: pod_network_same split: prod.splits sum.splits option.splits)
  show "same_pods a (snd (PutDeletionTime pod_network ip t a))"
    using refl by (auto simp: PutDeletionTime_def dest: pod_network_same split: prod.splits sum.splits)
qed

text \<open>Whatever the address, a status that arrives is one that a pod sent, and sending keeps it.\<close>

lemma received_wf:
  assumes "all_wf a" "GetStatus pod_network ip a = (Inr st, b)"
  shows "status_wf st"
proof -
  let ?req = "\<lparr>req_method = MethodGet, req_url = getStatusURL ip, req_content_type = [], req_body = []\<rparr>"
  from assms(2) obtain res where net: "pod_network ?req a = (Inr res, b)" "res_code res = StatusOK"
    "unmarshal_status (res_body res) = Some st"
    by (auto simp: GetStatus_def split: prod.splits sum.splits if_splits option.splits)
  then obtain r where r: "a (url_host (getStatusURL ip)) = Some r" "fst (runner_mux ?req r) = res"
    by (auto simp: pod_network_def split: option.splits prod.splits)
  then have wf: "status_wf (runner_status r)" using assms(1) by (simp add: all_wf_def)
  have empty: "unmarshal_status [] = None" by code_simp
  have "MethodGet \<noteq> MethodPut" by (simp add: MethodGet_def MethodPut_def)
  with r(2) net(2,3) empty have "marshal_status (runner_status r) = Some (res_body res)"
    by (auto simp: runner_mux_def statusHandler_def deletionTimeHandler_def plain_response_def Let_def
        StatusOK_def StatusMethodNotAllowed_def StatusInternalServerError_def StatusNotFound_def
        split: if_splits option.splits)
  moreover from this wf have "status_sendable (runner_status r)"
    by (auto simp: marshal_status_def status_sendable_def status_wf_def split: if_splits)
  ultimately have "st = runner_status r" using unmarshal_marshal_status net(3) by fastforce
  with wf show ?thesis by simp
qed

subsection \<open>The contract of a round, kept by the cluster\<close>

definition cluster_inv :: "pod_net \<Rightarrow> pod_net \<times> 'k \<Rightarrow> bool" where
  "cluster_inv pods0 w \<longleftrightarrow> all_wf pods0 \<and> same_pods pods0 (fst w)"

lemma cluster_inv_next:
  "cluster_inv pods0 w \<Longrightarrow> same_pods (fst w) (fst w') \<Longrightarrow> cluster_inv pods0 w'"
  by (simp add: cluster_inv_def same_pods_def)

interpretation cluster: manager_world "cluster_io io" "cluster_inv pods0" UNIV for io pods0
proof
  fix w :: "pod_net \<times> 'a" and ip st
  assume inv: "cluster_inv pods0 w"
  show "cluster_inv pods0 (snd (cl_GetStatus (m_runner (cluster_io io)) ip w))" for ip
    by (rule cluster_inv_next [OF inv]) (simp add: cluster_io_def NewClient_def on_pods_client client_same)
  show "cluster_inv pods0 (snd (cl_PutDeletionTime (m_runner (cluster_io io)) ip t w))" for ip t
    by (rule cluster_inv_next [OF inv]) (simp add: cluster_io_def NewClient_def on_pods_client client_same)
  show "status_wf st" if "fst (cl_GetStatus (m_runner (cluster_io io)) ip w) = Inr st" for ip st
    using that inv received_wf [OF all_wf_same, of pods0 "fst w" ip st]
    by (simp add: cluster_io_def NewClient_def on_pods_client cluster_inv_def) (metis prod.collapse)
qed (auto simp: cluster_io_def cluster_inv_def)

text \<open>The log of the calls does not change the contract.\<close>

lemma traced_world: "manager_world io I ips \<Longrightarrow> manager_world (traced io) (\<lambda>w. I (fst w)) ips"
  by (auto simp: manager_world_def traced_def traced_client_def case_prod_beta split: sum.splits)

interpretation logged: manager_world "traced (cluster_io io)" "\<lambda>w. cluster_inv pods0 (fst w)" UNIV for io pods0
  by (rule traced_world) (rule cluster.manager_world_axioms)

lemma runner_pod_wf:
  assumes "NewRunner env addr rdir wdir vdir = Inr r0" "pod_reachable os l (new_pod r0 w) q"
  shows "status_wf (runner_status (rn q))"
  using pod_reachable_inv [OF assms(2) pod_inv_new [OF NewRunner_fresh [OF assms(1)]]] by (simp add: pod_inv_def)

text \<open>What one look at a pod does: it returns, and deletes the pod exactly when its status says so.\<close>

definition look_deletes ::
    "'k manager_io \<Rightarrow> ((pod_net \<times> 'k) \<times> kcall list) manage_process \<Rightarrow> time \<Rightarrow> time \<Rightarrow> gh_runner list \<Rightarrow> kpod \<Rightarrow> int32 \<Rightarrow>
       pod_net \<times> 'k \<Rightarrow> bool \<Rightarrow> bool" where
  "look_deletes io p now lct rl po n w b \<longleftrightarrow>
     (\<exists>po' n' w' log. maintain_pod (traced (cluster_io io)) p now lct rl po n (w, []) = Returns (po', n', w', log) \<and>
        deletions log = (if b then [po] else []))"

lemma look_debugging:
  assumes "all_wf net" "plain_host (po_PodIP po)" "net (po_PodIP po) = Some r" "status_sendable (runner_status r)"
    and "state r = RunnerPodStateDebugging" "deletionTime r = Some t" "po_Phase po = PodRunning"
    and "Labels (po_meta po) \<noteq> None"
  shows "look_deletes io p now lct rl po n (net, k) (t < now)"
proof -
  have "cluster_inv net (net, k)" using assms(1) by (simp add: cluster_inv_def same_pods_def)
  then have "maintain_pod (traced (cluster_io io)) p now lct rl po n ((net, k), []) \<noteq> Panics"
    using assms(8) by (intro logged.maintain_pod_no_panic) simp_all
  then obtain po' n' w' log where
    run: "maintain_pod (traced (cluster_io io)) p now lct rl po n ((net, k), []) = Returns (po', n', w', log)"
    by (metis outcome.exhaust prod_cases4)
  have st: "cl_GetStatus (m_runner (cluster_io io)) (po_PodIP po) (net, k) = (Inr (runner_status r), net, k)"
    by (simp add: cluster_io_def NewClient_def on_pods_client GetStatus_pod [of "po_PodIP po" net r] assms)
  have "RunnerPodStateDebugging \<noteq> RunnerPodStateStale" by (simp add: pod_state_defs)
  then have "deletable p now rl po (runner_status r) = (t < now)"
    using assms(5,6) by (simp add: deletable_def runner_status_def)
  with maintain_pod_deletes [OF run assms(7) st] run show ?thesis by (auto simp: look_deletes_def)
qed

lemma all_wf_upd:
  assumes "all_wf net" "net ip = Some r"
  shows "all_wf (net(ip \<mapsto> r\<lparr>deletionTime := d\<rparr>))"
  using assms by (auto simp: all_wf_def simp del: runner_status_deletionTime)

lemma sendable_upd:
  "status_sendable (runner_status r) \<Longrightarrow> rfc3339_range t \<Longrightarrow> status_sendable (runner_status (r\<lparr>deletionTime := Some t\<rparr>))"
  by (simp add: status_sendable_def time_ptr_ok_def)

text \<open>
  For the witnesses: a cluster of two runner pods, one that runs a job and is older than the deadline, one
  that reports to be stale, and a round over both.
\<close>

definition old_po :: "string \<Rightarrow> string \<Rightarrow> kpod" where
  "old_po name ip =
     \<lparr>po_meta = empty_meta\<lparr>Name := name, Namespace := ''ns'',
        Labels := Some [(DefaultDeploymentUniqueLabelKey, ''abc'')], CreationTimestamp := 0\<rparr>,
      po_Phase = PodRunning, po_PodIP = ip, po_rest = JNull\<rparr>"

definition running_runner :: runner where
  "running_runner = updateState RunnerPodStateRunning sample_runner"

definition stale_runner :: runner where
  "stale_runner = updateState RunnerPodStateStale sample_runner"

definition two_pods :: pod_net where
  "two_pods = [''10.0.0.1'' \<mapsto> running_runner, ''10.0.0.2'' \<mapsto> stale_runner]"

lemma two_pods_status:
  "status_sendable (runner_status running_runner)" "status_sendable (runner_status stale_runner)"
  "State (runner_status running_runner) = RunnerPodStateRunning" "State (runner_status stale_runner) = RunnerPodStateStale"
proof -
  have "runner_status sample_runner = empty_status\<lparr>State := state sample_runner\<rparr>"
    using NewRunner_fresh [OF sample_runner_ok] by (simp add: fresh_runner_def runner_status_def empty_status_def)
  then show "status_sendable (runner_status running_runner)" "status_sendable (runner_status stale_runner)"
    by (simp_all add: status_sendable_def time_ptr_ok_def job_info_ptr_ok_def running_runner_def stale_runner_def updateState_def
        runner_status_def empty_status_def)
  show "State (runner_status running_runner) = RunnerPodStateRunning" "State (runner_status stale_runner) = RunnerPodStateStale"
    by (simp_all add: running_runner_def stale_runner_def updateState_def runner_status_def)
qed

lemma two_pods_answer:
  "GetStatus pod_network ''10.0.0.1'' two_pods = (Inr (runner_status running_runner), two_pods)"
  "GetStatus pod_network ''10.0.0.2'' two_pods = (Inr (runner_status stale_runner), two_pods)"
  by (rule GetStatus_pod; simp add: two_pods_def plain_host_def two_pods_status)+

lemma two_pods_round:
  "\<exists>pods' w' log. maintainRunnerPods (traced (cluster_io (static_io stale_status))) sample_process
     [busy_runner ''pod-1''] [old_po ''pod-1'' ''10.0.0.1'', old_po ''pod-2'' ''10.0.0.2''] ((two_pods, ()), []) =
       Returns (pods', sample_process\<lparr>p_lastCheckTime := 90000 * Hour\<rparr>, w', log) \<and>
     status_answers log = [(''10.0.0.1'', Inr (runner_status running_runner)), (''10.0.0.2'', Inr (runner_status stale_runner))]"
  by (simp add: maintainRunnerPods_def maintain_pod_def traced_simps traced_UpdatePod cluster_io_def NewClient_def
      on_pods_client beside_def two_pods_answer two_pods_status static_io_def old_po_def Let_def runnerBusy_def
      busy_runner_def protect_def unlink_def sample_process_def gm_index_def gm_get_def gm_put_def gm_delete_def
      set_labels_def numRemovable_def numUnlabeledPods_def unlabeled_def word_sle_eq pod_state_defs pastDeadline_def)

subsection \<open>Properties\<close>

text \<open>
  C1. A running job is never killed: when the runner of a pod is busy at GitHub, a round deletes the pod, however
  old it is, only if the pod itself answered in this very round that it is stale or that its job is over. The
  answers are those in the log of the round.
\<close>

theorem busy_pod_kept:
  assumes "maintainRunnerPods (traced io) p rl pods (w, []) = Returns (pods', p', w', log)"
    and "runnerBusy rl (Name (po_meta po))"
    and "\<And>st. (po_PodIP po, Inr st) \<in> set (status_answers log) \<Longrightarrow>
           State st \<notin> {RunnerPodStateStale, RunnerPodStateDebugging}"
  shows "po \<notin> set (deletions log)"
proof
  assume "po \<in> set (deletions log)"
  with maintain_log(1,2) [OF assms(1)] obtain st where
    "(po_PodIP po, Inr st) \<in> set (status_answers log)" "deletable p' (p_lastCheckTime p') rl po st"
    using goes_answered by metis
  with assms(2,3) show False by (auto simp: deletable_def)
qed

theorem busy_pod_kept_witness:
  "\<exists>pods' p' w' log. maintainRunnerPods (traced (cluster_io (static_io stale_status))) sample_process
     [busy_runner ''pod-1''] [old_po ''pod-1'' ''10.0.0.1'', old_po ''pod-2'' ''10.0.0.2''] ((two_pods, ()), []) =
       Returns (pods', p', w', log) \<and> old_po ''pod-1'' ''10.0.0.1'' \<notin> set (deletions log)"
proof -
  obtain pods' w' log where r: "maintainRunnerPods (traced (cluster_io (static_io stale_status))) sample_process
      [busy_runner ''pod-1''] [old_po ''pod-1'' ''10.0.0.1'', old_po ''pod-2'' ''10.0.0.2''] ((two_pods, ()), []) =
        Returns (pods', sample_process\<lparr>p_lastCheckTime := 90000 * Hour\<rparr>, w', log)"
    and a: "status_answers log =
      [(''10.0.0.1'', Inr (runner_status running_runner)), (''10.0.0.2'', Inr (runner_status stale_runner))]"
    using two_pods_round by blast
  have "old_po ''pod-1'' ''10.0.0.1'' \<notin> set (deletions log)"
    by (rule busy_pod_kept [OF r])
      (auto simp: a old_po_def runnerBusy_def busy_runner_def two_pods_status pod_state_defs)
  with r show ?thesis by blast
qed

text \<open>
  C2. A round deletes exactly what may go. It asks each listed pod in the phase Running once, in the order of
  the list, and deletes those, in that order and each once, whose answer in this round makes them deletable:
  stale; or debugging with the deletion time or the extension over, or not extended at all; or without a
  finished job, past the recreation deadline and not busy. A pod that does not answer is kept. Each deletion
  comes after the answer of that pod and before the answer of any other.
\<close>

theorem maintain_deletes_by_answer:
  assumes "maintainRunnerPods (traced io) p rl pods (w, []) = Returns (pods', p', w', log)"
  shows "map fst (status_answers log) = map po_PodIP (asked pods) \<and>
    deletions log = map fst (filter (goes p' (p_lastCheckTime p') rl) (zip (asked pods) (status_answers log))) \<and>
    (\<forall>l1 po l2. log = l1 @ CDelete po # l2 \<longrightarrow>
       (\<exists>before st. status_answers l1 = before @ [(po_PodIP po, Inr st)] \<and> deletable p' (p_lastCheckTime p') rl po st))"
  using maintain_log [OF assms] by (simp add: on_answer_def)

theorem maintain_deletes_by_answer_witness:
  "\<exists>pods' p' w' log. maintainRunnerPods (traced (cluster_io (static_io stale_status))) sample_process
     [busy_runner ''pod-1''] [old_po ''pod-1'' ''10.0.0.1'', old_po ''pod-2'' ''10.0.0.2''] ((two_pods, ()), []) =
       Returns (pods', p', w', log) \<and> deletions log = [old_po ''pod-2'' ''10.0.0.2'']"
proof -
  obtain pods' w' log where r: "maintainRunnerPods (traced (cluster_io (static_io stale_status))) sample_process
      [busy_runner ''pod-1''] [old_po ''pod-1'' ''10.0.0.1'', old_po ''pod-2'' ''10.0.0.2''] ((two_pods, ()), []) =
        Returns (pods', sample_process\<lparr>p_lastCheckTime := 90000 * Hour\<rparr>, w', log)"
    and a: "status_answers log =
      [(''10.0.0.1'', Inr (runner_status running_runner)), (''10.0.0.2'', Inr (runner_status stale_runner))]"
    using two_pods_round by blast
  have "deletions log = [old_po ''pod-2'' ''10.0.0.2'']"
    using maintain_deletes_by_answer [OF r]
    by (simp add: a asked_def goes_def deletable_def two_pods_status pod_state_defs runnerBusy_def busy_runner_def
        old_po_def)
  with r show ?thesis by blast
qed

text \<open>
  C15. A round cannot crash the controller on what runner pods say: when every pod of the network is in a
  state that a runner pod can reach, and the listed pods have labels, a round of the runner manager returns
  whatever the pods, the Kubernetes API, the Slack agent and GitHub answer, and it changes nothing in any
  pod but its deletion time.
\<close>

theorem round_returns_on_runner_pods:
  assumes "\<forall>ip r. net ip = Some r \<longrightarrow>
      (\<exists>r0 q. NewRunner (env ip) (addr ip) rdir wdir vdir = Inr r0 \<and>
        pod_reachable (os ip) (l ip) (new_pod r0 (w0 ip)) q \<and> r = rn q)"
    and "\<forall>po\<in>set pods. Labels (po_meta po) \<noteq> None"
  shows "\<exists>pods' p' net' k'. maintainRunnerPods (cluster_io io) p rl pods (net, k) = Returns (pods', p', net', k') \<and>
    same_pods net net'"
proof -
  have "all_wf net" unfolding all_wf_def
  proof (intro allI impI)
    fix ip r assume "net ip = Some r"
    with assms(1) obtain r0 q where "NewRunner (env ip) (addr ip) rdir wdir vdir = Inr r0"
      "pod_reachable (os ip) (l ip) (new_pod r0 (w0 ip)) q" "r = rn q" by blast
    then show "status_wf (runner_status r)" using runner_pod_wf by simp
  qed
  then have inv: "cluster_inv net (net, k)" by (simp add: cluster_inv_def same_pods_def)
  from cluster.maintain_returns [OF inv, where pods = pods and p = p and rl = rl and io = io] assms(2) show ?thesis by (auto simp: cluster_inv_def)
qed

theorem round_returns_on_runner_pods_witness:
  "\<exists>pods' p' net' k'. maintainRunnerPods (cluster_io (static_io stale_status)) sample_process [] [labelled_po ''pod-1'']
       ([''10.0.0.1'' \<mapsto> sample_runner], ()) = Returns (pods', p', net', k') \<and>
     same_pods [''10.0.0.1'' \<mapsto> sample_runner] net'"
proof -
  have "pod_reachable still_os (NewListener ''/runner'') (new_pod sample_runner ()) (new_pod sample_runner ())" by (rule pod_start)
  moreover have "sample_runner = rn (new_pod sample_runner ())" by (simp add: new_pod_def)
  ultimately have "\<exists>r0 q. NewRunner sample_environ '':8080'' ''/runner'' ''/work'' ''/var'' = Inr r0 \<and>
      pod_reachable still_os (NewListener ''/runner'') (new_pod r0 ()) q \<and> sample_runner = rn q"
    using sample_runner_ok by blast
  then show ?thesis
    by (intro round_returns_on_runner_pods [where env = "\<lambda>ip. sample_environ" and addr = "\<lambda>ip. '':8080''" and rdir = "''/runner''"
        and wdir = "''/work''" and vdir = "''/var''" and os = "\<lambda>ip. still_os" and l = "\<lambda>ip. NewListener ''/runner''" and
        ?w0.0 = "\<lambda>ip. ()"])
      (auto simp: labelled_po_def split: if_splits)
qed

text \<open>
  C7. The buttons of the Slack message decide when the controller deletes the pod of a finished job: after
  the delete button, the next look of the runner manager at the pod deletes it; after the extend button, a
  look deletes it if and only if it happens after the extended deletion time, which is two hours later
  than before but at most six hours from the press. Neither needs anything but the status that the pod
  reports, and both presses succeed.
\<close>

theorem buttons_decide_deletion:
  assumes "agent_on_pods aio ch" and "\<not> devMood s" and "ag_GetPod aio ns pod net = (Inr po, net)"
    and "plain_host (po_PodIP po)" and "po_Phase po = PodRunning" and "Labels (po_meta po) \<noteq> None"
    and "all_wf net" and "net (po_PodIP po) = Some r" and "status_sendable (runner_status r)"
    and "state r = RunnerPodStateDebugging"
  shows "(\<exists>net'. deletePod aio s ch ns pod net = Returns (None, net') \<and>
      look_deletes io p now lct rl po n (net', k) (zero_time < now)) \<and>
    (deletionTime r = Some dt \<and> rfc3339_range (extended_time dt t) \<and> fst (ag_now aio net) = t \<longrightarrow>
      (\<exists>net'. extendPod aio s ch ns pod net = Returns (None, net') \<and>
        look_deletes io p now lct rl po n (net', k) (min (dt + 2 * Hour) (t + 6 * Hour) < now)))"
proof (intro conjI impI)
  have look: "look_deletes io p now lct rl po n (net(po_PodIP po \<mapsto> r\<lparr>deletionTime := Some d\<rparr>), k) (d < now)"
    if "rfc3339_range d" for d
    by (rule look_debugging [where r = "r\<lparr>deletionTime := Some d\<rparr>", OF all_wf_upd [OF assms(7,8)] assms(4)])
      (use assms that sendable_upd [OF assms(9) that] in simp_all)
  have "rfc3339_range zero_time" by (rule rfc3339_rangeI) (simp_all add: Second_def)
  with look [of zero_time] deletePod_pods [of aio ch s ns pod net po r] assms
  show "\<exists>net'. deletePod aio s ch ns pod net = Returns (None, net') \<and>
      look_deletes io p now lct rl po n (net', k) (zero_time < now)"
    by (intro exI [of _ "net(po_PodIP po \<mapsto> r\<lparr>deletionTime := Some zero_time\<rparr>)"]) simp
  assume a: "deletionTime r = Some dt \<and> rfc3339_range (extended_time dt t) \<and> fst (ag_now aio net) = t"
  with look [of "extended_time dt t"] extendPod_pods [of aio ch s ns pod net po r dt] assms
  show "\<exists>net'. extendPod aio s ch ns pod net = Returns (None, net') \<and>
        look_deletes io p now lct rl po n (net', k) (min (dt + 2 * Hour) (t + 6 * Hour) < now)"
    by (simp add: extended_time_min)
qed

theorem buttons_decide_deletion_witness:
  "\<exists>net'. extendPod (quiet_io (labelled_po ''pod-1'')) sample_agent ''ci'' ''ns'' ''pod-1'' [''10.0.0.1'' \<mapsto> extended_runner] =
       Returns (None, net') \<and>
     look_deletes (static_io stale_status) sample_process (1000 * Second + 7 * Hour) 0 [] (labelled_po ''pod-1'') 0 (net', ()) True"
proof -
  let ?po = "labelled_po ''pod-1''" and ?net = "[''10.0.0.1'' \<mapsto> extended_runner]"
  have "agent_on_pods (quiet_io ?po) ''ci''" by (simp add: agent_on_pods_def quiet_io_def)
  moreover have "status_wf (runner_status extended_runner)" "state extended_runner = RunnerPodStateDebugging"
    unfolding extended_runner_def debugging_runner_def
    by (simp_all only: status_wf_deletionTime updateToDebuggingState_wf) simp
  then have "all_wf ?net" "state extended_runner = RunnerPodStateDebugging" by (auto simp: all_wf_def)
  moreover have "rfc3339_range (extended_time (9000 * Hour) (1000 * Second))"
    by (rule rfc3339_rangeI) (simp_all add: extended_time_min duration_defs)
  moreover have "po_PodIP ?po = ''10.0.0.1''" "po_Phase ?po = PodRunning" "Labels (po_meta ?po) \<noteq> None"
    by (simp_all add: labelled_po_def)
  ultimately have "\<exists>net'. extendPod (quiet_io ?po) sample_agent ''ci'' ''ns'' ''pod-1'' ?net = Returns (None, net') \<and>
      look_deletes (static_io stale_status) sample_process (1000 * Second + 7 * Hour) 0 [] ?po 0 (net', ())
        (min (9000 * Hour + 2 * Hour) (1000 * Second + 6 * Hour) < 1000 * Second + 7 * Hour)"
    using extended_runner_sendable
    by (intro conjunct2 [OF buttons_decide_deletion [where r = extended_runner], rule_format])
      (simp_all add: sample_agent_def quiet_io_def plain_host_def extended_runner_def)
  then show ?thesis by (simp add: duration_defs)
qed

end
