(* ===== verification/Secret_Updater.thy ===== *)
theory Secret_Updater
  imports Manage_Process
begin

section \<open>controllers/secret_updater.go: the registration token of a pool\<close>

text \<open>
  For every RunnerPool a goroutine keeps the secret with the registration token fresh: it wakes up,
  reads the secret, and when the token expires within five minutes asks GitHub for a new one and
  patches the secret. Modelled: \<open>mergeMap\<close> (of \<open>runnerpool_controller.go\<close>, used here too), the
  process and one turn of its loop (\<open>updater_step\<close>), which returns the time to wait. The Kubernetes
  client, the GitHub client and the clock are parameters.
\<close>

subsection \<open>mergeMap\<close>

definition mergeMap :: "gomap \<Rightarrow> gomap \<Rightarrow> gomap" where
  "mergeMap m1 m2 =
     (let m = put_all (gm_entries m2) (put_all (gm_entries m1) [])
      in if m = [] then None else Some m)"

lemma gm_get_eq: "gm_get m = map_of (gm_entries m)"
  by (simp add: fun_eq_iff gm_get_def)

lemma gm_get_mergeMap: "gm_wf m1 \<Longrightarrow> gm_wf m2 \<Longrightarrow> gm_get (mergeMap m1 m2) = gm_get m1 ++ gm_get m2"
proof -
  assume wf: "gm_wf m1" "gm_wf m2"
  let ?m = "put_all (gm_entries m2) (put_all (gm_entries m1) [])"
  have "map_of ?m = gm_get m1 ++ gm_get m2"
    using wf by (simp add: map_of_put_all gm_wf_def gm_get_eq)
  then show ?thesis by (auto simp: mergeMap_def Let_def gm_get_eq)
qed

lemma gm_wf_mergeMap [simp]: "gm_wf (mergeMap m1 m2)"
  by (simp add: mergeMap_def Let_def gm_wf_def distinct_put_all)

subsection \<open>The process\<close>

record 'w secret_io =
  s_GetSecret :: "string \<Rightarrow> string \<Rightarrow> 'w \<Rightarrow> (kube_error + secret) \<times> 'w"
  s_PatchSecret :: "secret \<Rightarrow> secret \<Rightarrow> 'w \<Rightarrow> kube_error option \<times> 'w"
  s_now :: "'w \<Rightarrow> time \<times> 'w"

record 'w updater =
  u_githubClient :: "'w gh_client"
  u_rpNamespace :: string
  u_rpName :: string
  u_secretName :: string
  u_owner :: string
  u_repo :: string
  u_running :: bool

text \<open>Creating the process creates the series of its retry counter.\<close>

definition newUpdateProcess ::
    "'w gh_client \<Rightarrow> runner_pool \<Rightarrow> controller_metrics \<Rightarrow> ('w updater \<times> controller_metrics) outcome" where
  "newUpdateProcess gh rp m =
     (case GetRepository rp of
        None \<Rightarrow> Panics
      | Some repo \<Rightarrow>
          (let key = namespaced_name (Namespace (rp_meta rp)) (Name (rp_meta rp))
           in Returns (\<lparr>u_githubClient = gh, u_rpNamespace = Namespace (rp_meta rp),
                        u_rpName = Name (rp_meta rp), u_secretName = GetRunnerSecretName rp,
                        u_owner = GetOwner rp, u_repo = repo, u_running = False\<rparr>,
                       m\<lparr>RunnerPoolSecretRetryCount := (RunnerPoolSecretRetryCount m)(key \<mapsto>
                          (case RunnerPoolSecretRetryCount m key of None \<Rightarrow> 0 | Some n \<Rightarrow> n))\<rparr>)))"

definition getSecret :: "'w secret_io \<Rightarrow> 'w updater \<Rightarrow> 'w \<Rightarrow> (kube_error + secret) \<times> 'w" where
  "getSecret io u w = s_GetSecret io (u_rpNamespace u) (u_secretName u) w"

definition needUpdate :: "secret \<Rightarrow> time \<Rightarrow> bool \<times> time" where
  "needUpdate s now =
     (case gm_get (Annotations (sec_meta s)) RunnerSecretExpiresAtAnnotationKey of
        None \<Rightarrow> (True, zero_time)
      | Some expiresAtStr \<Rightarrow>
          (case parseRFC3339 expiresAtStr of
             None \<Rightarrow> (True, zero_time)
           | Some expiresAt \<Rightarrow>
               (let updateTime = expiresAt - 5 * Minute
                in if time_after now updateTime then (True, zero_time) else (False, updateTime))))"

definition token_secret :: "secret \<Rightarrow> registration_token \<Rightarrow> secret" where
  "token_secret s tok =
     s\<lparr>sec_meta := (sec_meta s)\<lparr>Annotations := mergeMap (Annotations (sec_meta s))
         (Some [(RunnerSecretExpiresAtAnnotationKey, formatRFC3339 (ExpiresAt tok))])\<rparr>,
       sec_StringData := Some [(RunnerTokenFileName, Token tok)]\<rparr>"

datatype update_error = TokenFailed gh_error | PatchFailed kube_error

definition updateSecret ::
    "'w secret_io \<Rightarrow> 'w updater \<Rightarrow> secret \<Rightarrow> 'w \<Rightarrow> (update_error + time) \<times> 'w" where
  "updateSecret io u s w =
     (case ghc_CreateRegistrationToken (u_githubClient u) (u_owner u) (u_repo u) w of
        (Inl e, w1) \<Rightarrow> (Inl (TokenFailed e), w1)
      | (Inr tok, w1) \<Rightarrow>
          (case s_PatchSecret io s (token_secret s tok) w1 of
             (Some e, w2) \<Rightarrow> (Inl (PatchFailed e), w2)
           | (None, w2) \<Rightarrow> (Inr (ExpiresAt tok), w2)))"

definition updater_key :: "'w updater \<Rightarrow> string" where
  "updater_key u = namespaced_name (u_rpNamespace u) (u_rpName u)"

text \<open>One turn of the loop of \<open>run\<close> after the wait: the next time to wait.\<close>

definition updater_step ::
    "'w secret_io \<Rightarrow> 'w updater \<Rightarrow> controller_metrics \<Rightarrow> 'w \<Rightarrow> duration \<times> controller_metrics \<times> 'w" where
  "updater_step io u m w =
     (case getSecret io u w of
        (Inl KNotFound, w1) \<Rightarrow> (Second, m, w1)
      | (Inl (KOther e), w1) \<Rightarrow> (Minute, IncSecretRetryCount (updater_key u) m, w1)
      | (Inr s, w1) \<Rightarrow>
          (let (now, w2) = s_now io w1; (need, updateTime) = needUpdate s now
           in if \<not> need then (let (now', w3) = s_now io w2 in (updateTime - now', m, w3))
              else (case updateSecret io u s w2 of
                      (Inl e, w3) \<Rightarrow> (Minute, IncSecretRetryCount (updater_key u) m, w3)
                    | (Inr expiresAt, w3) \<Rightarrow> (Second, m, w3))))"

text \<open>\<open>run\<close>: a wait and a turn, again and again; waiting is part of the outside world.\<close>

primrec updater_run ::
    "'w secret_io \<Rightarrow> (duration \<Rightarrow> 'w \<Rightarrow> 'w) \<Rightarrow> 'w updater \<Rightarrow> nat \<Rightarrow> duration \<Rightarrow> controller_metrics \<Rightarrow> 'w \<Rightarrow>
       duration \<times> controller_metrics \<times> 'w" where
  "updater_run io sleep u 0 waitTime m w = (waitTime, m, w)"
| "updater_run io sleep u (Suc n) waitTime m w =
     (let (waitTime', m', w') = updater_step io u m (sleep waitTime w)
      in updater_run io sleep u n waitTime' m' w')"

definition finish_updater :: "'w updater \<Rightarrow> controller_metrics \<Rightarrow> controller_metrics" where
  "finish_updater u m = DeleteSecretRetryCount (updater_key u) m"

subsection \<open>Lemmas\<close>

text \<open>The expiry that the annotation of a secret states.\<close>

definition expiry :: "secret \<Rightarrow> time option" where
  "expiry s = Option.bind (gm_get (Annotations (sec_meta s)) RunnerSecretExpiresAtAnnotationKey) parseRFC3339"

lemma gm_wf_singleton [simp]: "gm_wf (Some [(k, v)])"
  by (simp add: gm_wf_def)

lemma token_secret_annotations:
  assumes "gm_wf (Annotations (sec_meta s))"
  shows "gm_get (Annotations (sec_meta (token_secret s tok))) =
    (gm_get (Annotations (sec_meta s)))(RunnerSecretExpiresAtAnnotationKey \<mapsto> formatRFC3339 (ExpiresAt tok))"
  using assms by (simp add: token_secret_def gm_get_mergeMap) (simp add: gm_get_eq)

lemma needUpdate_token_secret:
  assumes "gm_wf (Annotations (sec_meta s))" "rfc3339_range (ExpiresAt tok)"
  shows "needUpdate (token_secret s tok) now =
    (let ut = ExpiresAt tok - ExpiresAt tok mod Second - 5 * Minute
     in if ut < now then (True, zero_time) else (False, ut))"
  using assms by (simp add: needUpdate_def token_secret_annotations parse_formatRFC3339 time_after_def)

lemma needUpdate_expiry_iff:
  "needUpdate s now = (case expiry s of
     None \<Rightarrow> (True, zero_time)
   | Some e \<Rightarrow> if now \<le> e - 5 * Minute then (False, e - 5 * Minute) else (True, zero_time))"
  by (auto simp: needUpdate_def expiry_def time_after_def Let_def split: option.splits)

text \<open>
  What the API server stores when it admits a secret \<open>s\<close>: \<open>StringData\<close> is write-only, its entries go into
  \<open>Data\<close>, where they win, and it is never stored itself; the annotations are stored as they are. Of the rest of
  the object (the resource version, say) nothing is said. \<open>admit_secret\<close> is such a server, for the witnesses.
\<close>

definition secret_wf :: "secret \<Rightarrow> bool" where
  "secret_wf s \<longleftrightarrow> gm_wf (Annotations (sec_meta s)) \<and> gm_wf (sec_Data s) \<and> gm_wf (sec_StringData s)"

definition stored_as :: "secret \<Rightarrow> secret \<Rightarrow> bool" where
  "stored_as s t \<longleftrightarrow> secret_wf t \<and> sec_StringData t = None \<and>
     gm_get (Annotations (sec_meta t)) = gm_get (Annotations (sec_meta s)) \<and>
     gm_get (sec_Data t) = gm_get (sec_Data s) ++ gm_get (sec_StringData s)"

definition admit_secret :: "secret \<Rightarrow> secret" where
  "admit_secret s = s\<lparr>sec_Data := mergeMap (sec_Data s) (sec_StringData s), sec_StringData := None\<rparr>"

lemma stored_as_admit: "secret_wf s \<Longrightarrow> stored_as s (admit_secret s)"
  by (simp add: stored_as_def admit_secret_def secret_wf_def gm_get_mergeMap) (simp add: gm_wf_def)

lemma secret_wf_token_secret: "secret_wf s \<Longrightarrow> secret_wf (token_secret s tok)"
  by (simp add: secret_wf_def token_secret_def)

lemma expiry_stored_as: "stored_as s t \<Longrightarrow> expiry t = expiry s"
  by (simp add: stored_as_def expiry_def)

lemma expiry_token_secret:
  "secret_wf s \<Longrightarrow> rfc3339_range (ExpiresAt tok) \<Longrightarrow>
     expiry (token_secret s tok) = Some (ExpiresAt tok - ExpiresAt tok mod Second)"
  by (simp add: secret_wf_def expiry_def token_secret_annotations parse_formatRFC3339)

lemma stored_token:
  assumes "secret_wf s" "stored_as (token_secret s tok) t"
  shows "gm_get (sec_Data t) = (gm_get (sec_Data s))(RunnerTokenFileName \<mapsto> Token tok)"
    "gm_get (Annotations (sec_meta t)) =
       (gm_get (Annotations (sec_meta s)))(RunnerSecretExpiresAtAnnotationKey \<mapsto> formatRFC3339 (ExpiresAt tok))"
  using assms by (simp_all add: stored_as_def secret_wf_def token_secret_annotations)
    (simp add: token_secret_def gm_get_eq)

text \<open>A working API server: it returns the secret it has and admits every patch to it.\<close>

definition secret_store :: "'w secret_io \<Rightarrow> 'w updater \<Rightarrow> ('w \<Rightarrow> secret) \<Rightarrow> bool" where
  "secret_store io u stored \<longleftrightarrow>
     (\<forall>w. getSecret io u w = (Inr (stored w), w) \<and> secret_wf (stored w) \<and> sec_StringData (stored w) = None) \<and>
     (\<forall>w s'. secret_wf s' \<longrightarrow> fst (s_PatchSecret io (stored w) s' w) = None \<and>
        stored_as s' (stored (snd (s_PatchSecret io (stored w) s' w)))) \<and>
     (\<forall>w. snd (s_now io w) = w)"

text \<open>A working GitHub in the world \<open>w\<close>: it returns the token and changes nothing the cluster sees.\<close>

definition gives_token :: "'w updater \<Rightarrow> ('w \<Rightarrow> secret) \<Rightarrow> 'w \<Rightarrow> registration_token \<Rightarrow> bool" where
  "gives_token u stored w tok \<longleftrightarrow>
     (case ghc_CreateRegistrationToken (u_githubClient u) (u_owner u) (u_repo u) w of
        (r, w1) \<Rightarrow> r = Inr tok \<and> stored w1 = stored w)"

lemma updater_step_stores:
  assumes "secret_store io u stored" "gives_token u stored w tok"
    and "s' = stored (snd (snd (updater_step io u m w)))"
  shows "if fst (needUpdate (stored w) (fst (s_now io w)))
    then stored_as (token_secret (stored w) tok) s' else s' = stored w"
proof -
  obtain w1 where gh: "ghc_CreateRegistrationToken (u_githubClient u) (u_owner u) (u_repo u) w = (Inr tok, w1)"
    "stored w1 = stored w"
    using assms(2) by (auto simp: gives_token_def)
  have get: "getSecret io u w = (Inr (stored w), w)" and "snd (s_now io w) = w" and wf: "secret_wf (stored w)"
    using assms(1) by (auto simp: secret_store_def)
  then obtain t where now: "s_now io w = (t, w)" by (metis prod.collapse)
  obtain w2 where patch: "s_PatchSecret io (stored w) (token_secret (stored w) tok) w1 = (None, w2)"
    "stored_as (token_secret (stored w) tok) (stored w2)"
    using assms(1) gh(2) secret_wf_token_secret [OF wf] by (metis prod.collapse secret_store_def)
  have upd: "updateSecret io u (stored w) w = (Inr (ExpiresAt tok), w2)"
    by (simp add: updateSecret_def gh patch(1))
  obtain need ut where nu: "needUpdate (stored w) t = (need, ut)" by fastforce
  show ?thesis
    by (cases need; simp add: assms(3) updater_step_def get now nu upd patch(2))
qed

subsection \<open>Properties\<close>

text \<open>
  \<open>mergeMap\<close> is the union of two maps in which the second wins, and it is nil exactly when both
  are empty.
\<close>

lemma mergeMap_union:
  assumes "gm_wf m1" and "gm_wf m2"
  shows "gm_get (mergeMap m1 m2) = gm_get m1 ++ gm_get m2 \<and>
    (mergeMap m1 m2 = None \<longleftrightarrow> gm_entries m1 = [] \<and> gm_entries m2 = [])"
proof -
  have "map_of (put_all (gm_entries m2) (put_all (gm_entries m1) [])) = gm_get m1 ++ gm_get m2"
    using assms by (simp add: map_of_put_all gm_wf_def gm_get_eq)
  then have "put_all (gm_entries m2) (put_all (gm_entries m1) []) = [] \<longleftrightarrow> gm_get m1 ++ gm_get m2 = Map.empty"
    by (metis map_of_eq_empty_iff)
  with gm_get_mergeMap [OF assms] show ?thesis
    by (simp add: mergeMap_def Let_def) (metis gm_get_eq map_add_None map_of_eq_empty_iff ext)
qed


text \<open>
  A world for the witnesses: a secret and a clock that only waiting moves; GitHub gives tokens for an hour. What
  is no stored secret counts as an empty one.
\<close>

definition empty_secret :: secret where
  "empty_secret = \<lparr>sec_meta = empty_meta, sec_Data = None, sec_StringData = None, sec_rest = JNull\<rparr>"

definition clocked_stored :: "secret \<times> time \<Rightarrow> secret" where
  "clocked_stored w = (if secret_wf (fst w) \<and> sec_StringData (fst w) = None then fst w else empty_secret)"

definition clocked_io :: "(secret \<times> time) secret_io" where
  "clocked_io =
     \<lparr>s_GetSecret = (\<lambda>ns n w. (Inr (clocked_stored w), w)),
      s_PatchSecret = (\<lambda>s s' w. if secret_wf s' then (None, admit_secret s', snd w) else (Some (KOther []), w)),
      s_now = (\<lambda>w. (snd w, w))\<rparr>"

definition clocked_updater :: "(secret \<times> time) updater" where
  "clocked_updater =
     \<lparr>u_githubClient = \<lparr>ghc_CreateRegistrationToken = (\<lambda>ow r w.
          if 0 \<le> snd w \<and> rfc3339_range (snd w + Hour) then (Inr \<lparr>Token = utoa (nat (snd w + Hour)), ExpiresAt = snd w + Hour\<rparr>, w)
          else (Inl (ApiError []), w)),
        ghc_ListRunners = (\<lambda>ow r ls w. Some (Inr [], w)), ghc_RemoveRunner = (\<lambda>ow r i w. (None, w))\<rparr>,
      u_rpNamespace = ''ns'', u_rpName = ''pool'', u_secretName = ''runner-token-pool'',
      u_owner = ''cybozu'', u_repo = ''meows'', u_running = True\<rparr>"

lemma clocked_simps:
  "getSecret clocked_io u w = (Inr (clocked_stored w), w)" "s_now clocked_io w = (snd w, w)"
  "s_PatchSecret clocked_io s s' w = (if secret_wf s' then (None, admit_secret s', snd w) else (Some (KOther []), w))"
  "ghc_CreateRegistrationToken (u_githubClient clocked_updater) ow r w =
     (if 0 \<le> snd w \<and> rfc3339_range (snd w + Hour) then (Inr \<lparr>Token = utoa (nat (snd w + Hour)), ExpiresAt = snd w + Hour\<rparr>, w)
      else (Inl (ApiError []), w))"
  by (simp_all add: getSecret_def clocked_io_def clocked_updater_def)

lemma clocked_stored_wf: "secret_wf (clocked_stored w)" "sec_StringData (clocked_stored w) = None"
  by (simp_all add: clocked_stored_def empty_secret_def empty_meta_def secret_wf_def gm_wf_def)

lemma clocked_admits: "secret_wf s \<Longrightarrow> stored_as s (clocked_stored (admit_secret s, t))"
  using stored_as_admit [of s] by (simp add: clocked_stored_def stored_as_def)

lemma clocked_store: "secret_store clocked_io clocked_updater clocked_stored"
  by (simp add: secret_store_def clocked_simps clocked_stored_wf clocked_admits)


text \<open>
  The updater never sleeps through the refresh: the wait that a turn returns is one second after
  a refresh or a missing secret, one minute after an error, which is counted in the metric, and
  otherwise ends exactly five minutes before the annotated expiry.
\<close>

lemma updater_step_wait:
  assumes "updater_step io u m w = (waitTime, m', w')"
  shows "waitTime = Second \<and> m' = m \<or> waitTime = Minute \<and> m' = IncSecretRetryCount (updater_key u) m \<or>
    (\<exists>s w1 w2 a e. getSecret io u w = (Inr s, w1) \<and>
       gm_get (Annotations (sec_meta s)) RunnerSecretExpiresAtAnnotationKey = Some a \<and>
       parseRFC3339 a = Some e \<and> fst (s_now io w1) \<le> e - 5 * Minute \<and>
       waitTime = e - 5 * Minute - fst (s_now io w2) \<and> m' = m)"
proof (cases "getSecret io u w")
  case (Pair r w1)
  show ?thesis
  proof (cases r)
    case (Inl e)
    with assms Pair show ?thesis by (cases e) (auto simp: updater_step_def)
  next
    case (Inr s)
    obtain t w2 where now: "s_now io w1 = (t, w2)" by fastforce
    obtain need ut where nu: "needUpdate s t = (need, ut)" by fastforce
    show ?thesis
    proof (cases need)
      case True
      with assms Pair Inr now nu show ?thesis
        by (auto simp: updater_step_def split: prod.splits sum.splits)
    next
      case False
      then obtain a e where "gm_get (Annotations (sec_meta s)) RunnerSecretExpiresAtAnnotationKey = Some a"
        "parseRFC3339 a = Some e" "t \<le> e - 5 * Minute" "ut = e - 5 * Minute"
        using nu by (auto simp: needUpdate_def time_after_def Let_def split: option.splits if_splits)
      moreover have "waitTime = ut - fst (s_now io w2)" "m' = m"
        using assms Pair Inr now nu False by (auto simp: updater_step_def case_prod_beta)
      ultimately show ?thesis using Pair Inr now by auto
    qed
  qed
qed

end
