(* ===== verification/Process_Managers.thy ===== *)
theory Process_Managers
  imports Manage_Safety Secret_Updater
begin

section \<open>The runner manager and the secret updater: one process per pool\<close>

text \<open>
  \<open>runnerManager\<close> and \<open>secretUpdater\<close> each keep a map from the name of a pool to its process, under a
  mutex. Their states are the records \<open>rm_state\<close> and \<open>su_state\<close>, which hold the metrics and the outside
  world too; an operation that does not return (a panic, or a client that never answers) is \<open>None\<close>.
  Both satisfy the contract of the locale \<open>process_manager\<close>, on which the reconciler relies.
\<close>

datatype manager_error =
    AlreadyStopped
  | FactoryFailed gh_error
  | AgentURL string
  | WaitFailed string

type_synonym 'w factory = "client_credential \<Rightarrow> gh_error + 'w gh_client"

definition pool_key :: "runner_pool \<Rightarrow> string" where
  "pool_key rp = namespaced_name (Namespace (rp_meta rp)) (Name (rp_meta rp))"

subsection \<open>runnerManager\<close>

record 'w rm_state =
  rm_stopped :: bool
  rm_processes :: "(string \<times> 'w manage_process) list"
  rm_metrics :: controller_metrics
  rm_world :: 'w

definition NewRunnerManager :: "controller_metrics \<Rightarrow> 'w \<Rightarrow> 'w rm_state" where
  "NewRunnerManager m w = \<lparr>rm_stopped = False, rm_processes = [], rm_metrics = m, rm_world = w\<rparr>"

definition start_process :: "'w manage_process \<Rightarrow> 'w manage_process" where
  "start_process p = p\<lparr>p_running := True\<rparr>"

definition rm_StartOrUpdate ::
    "'w factory \<Rightarrow> 'w manager_io \<Rightarrow> runner_pool \<times> client_credential \<Rightarrow> 'w rm_state \<Rightarrow>
       (manager_error option \<times> 'w rm_state) option" where
  "rm_StartOrUpdate fac io a s =
     (let (rp, cred) = a; key = pool_key rp
      in if rm_stopped s then Some (Some AlreadyStopped, s)
         else case map_of (rm_processes s) key of
           None \<Rightarrow>
             (case fac cred of
                Inl e \<Rightarrow> Some (Some (FactoryFailed e), s)
              | Inr gh \<Rightarrow>
                  (let (now, w1) = m_now io (rm_world s)
                   in case newManageProcess (m_urls io) gh rp now of
                        Panics \<Rightarrow> None
                      | Returns (Inl e) \<Rightarrow> Some (Some (AgentURL e), s)
                      | Returns (Inr p) \<Rightarrow>
                          Some (None, s\<lparr>rm_processes := AList.update key (start_process p) (rm_processes s),
                                        rm_world := w1\<rparr>)))
         | Some p \<Rightarrow>
             (case update_process (m_urls io) rp p of
                (e, p') \<Rightarrow>
                  Some (map_option AgentURL e, s\<lparr>rm_processes := AList.update key p' (rm_processes s)\<rparr>)))"

text \<open>
  \<open>stop\<close> cancels the goroutine and waits for it: the goroutine then cleans up. \<open>wait\<close> is the result of
  waiting for the environment of the process.
\<close>

definition stop_process ::
    "(string \<Rightarrow> string option) \<Rightarrow> 'w manage_process \<Rightarrow> controller_metrics \<Rightarrow> 'w \<Rightarrow>
       (string option \<times> 'w manage_process \<times> controller_metrics \<times> 'w) option" where
  "stop_process wait p m w =
     (if p_running p
      then (case finish_process p m w of
              None \<Rightarrow> None
            | Some (m', w') \<Rightarrow> Some (wait (rpNamespacedName p), p\<lparr>p_running := False\<rparr>, m', w'))
      else Some (None, p, m, w))"

definition rm_Stop ::
    "(string \<Rightarrow> string option) \<Rightarrow> runner_pool \<times> client_credential \<Rightarrow> 'w rm_state \<Rightarrow>
       (manager_error option \<times> 'w rm_state) option" where
  "rm_Stop wait a s =
     (let key = pool_key (fst a)
      in case map_of (rm_processes s) key of
           None \<Rightarrow> Some (None, s)
         | Some p \<Rightarrow>
             (case stop_process wait p (rm_metrics s) (rm_world s) of
                None \<Rightarrow> None
              | Some (Some e, p', m', w') \<Rightarrow>
                  Some (Some (WaitFailed e),
                        s\<lparr>rm_processes := AList.update key p' (rm_processes s), rm_metrics := m', rm_world := w'\<rparr>)
              | Some (None, p', m', w') \<Rightarrow>
                  Some (None,
                        s\<lparr>rm_processes := AList.delete key (rm_processes s), rm_metrics := m', rm_world := w'\<rparr>)))"

primrec stop_each ::
    "(string \<Rightarrow> string option) \<Rightarrow> (string \<times> 'w manage_process) list \<Rightarrow> controller_metrics \<Rightarrow> 'w \<Rightarrow>
       (controller_metrics \<times> 'w) option" where
  "stop_each wait [] m w = Some (m, w)"
| "stop_each wait (kp # kps) m w =
     (case stop_process wait (snd kp) m w of
        None \<Rightarrow> None
      | Some (e, p', m', w') \<Rightarrow> stop_each wait kps m' w')"

definition rm_StopAll :: "(string \<Rightarrow> string option) \<Rightarrow> 'w rm_state \<Rightarrow> 'w rm_state option" where
  "rm_StopAll wait s =
     (case stop_each wait (rm_processes s) (rm_metrics s) (rm_world s) of
        None \<Rightarrow> None
      | Some (m', w') \<Rightarrow> Some \<lparr>rm_stopped = True, rm_processes = [], rm_metrics = m', rm_world = w'\<rparr>)"

subsection \<open>secretUpdater\<close>

record 'w su_state =
  su_stopped :: bool
  su_processes :: "(string \<times> 'w updater) list"
  su_metrics :: controller_metrics
  su_world :: 'w

definition NewSecretUpdater :: "controller_metrics \<Rightarrow> 'w \<Rightarrow> 'w su_state" where
  "NewSecretUpdater m w = \<lparr>su_stopped = False, su_processes = [], su_metrics = m, su_world = w\<rparr>"

definition start_updater :: "'w updater \<Rightarrow> 'w updater" where
  "start_updater u = u\<lparr>u_running := True\<rparr>"

definition su_Start ::
    "'w factory \<Rightarrow> runner_pool \<times> client_credential \<Rightarrow> 'w su_state \<Rightarrow>
       (manager_error option \<times> 'w su_state) option" where
  "su_Start fac a s =
     (let (rp, cred) = a; key = pool_key rp
      in if su_stopped s then Some (Some AlreadyStopped, s)
         else case map_of (su_processes s) key of
           None \<Rightarrow>
             (case fac cred of
                Inl e \<Rightarrow> Some (Some (FactoryFailed e), s)
              | Inr gh \<Rightarrow>
                  (case newUpdateProcess gh rp (su_metrics s) of
                     Panics \<Rightarrow> None
                   | Returns (u, m') \<Rightarrow>
                       Some (None, s\<lparr>su_processes := AList.update key (start_updater u) (su_processes s),
                                     su_metrics := m'\<rparr>)))
         | Some u \<Rightarrow> Some (None, s))"

definition stop_updater ::
    "(string \<Rightarrow> string option) \<Rightarrow> 'w updater \<Rightarrow> controller_metrics \<Rightarrow>
       string option \<times> 'w updater \<times> controller_metrics" where
  "stop_updater wait u m =
     (if u_running u then (wait (updater_key u), u\<lparr>u_running := False\<rparr>, finish_updater u m)
      else (None, u, m))"

definition su_Stop ::
    "(string \<Rightarrow> string option) \<Rightarrow> runner_pool \<times> client_credential \<Rightarrow> 'w su_state \<Rightarrow>
       (manager_error option \<times> 'w su_state) option" where
  "su_Stop wait a s =
     (let key = pool_key (fst a)
      in case map_of (su_processes s) key of
           None \<Rightarrow> Some (None, s)
         | Some u \<Rightarrow>
             (case stop_updater wait u (su_metrics s) of
                (Some e, u', m') \<Rightarrow>
                  Some (Some (WaitFailed e), s\<lparr>su_processes := AList.update key u' (su_processes s), su_metrics := m'\<rparr>)
              | (None, u', m') \<Rightarrow>
                  Some (None, s\<lparr>su_processes := AList.delete key (su_processes s), su_metrics := m'\<rparr>)))"

definition su_StopAll :: "(string \<Rightarrow> string option) \<Rightarrow> 'w su_state \<Rightarrow> 'w su_state option" where
  "su_StopAll wait s =
     Some (s\<lparr>su_stopped := True, su_processes := [],
             su_metrics := fold (\<lambda>ku m. snd (snd (stop_updater wait (snd ku) m))) (su_processes s) (su_metrics s)\<rparr>)"

subsection \<open>The contract\<close>

datatype 'a manager_op = OpStart 'a | OpStop 'a | OpStopAll

text \<open>
  A sequence of operations, in the order in which they get the mutex; the result of each, an error or none, is
  part of the outcome.
\<close>

fun exec_op ::
    "('a \<Rightarrow> 's \<Rightarrow> ('e option \<times> 's) option) \<Rightarrow> ('a \<Rightarrow> 's \<Rightarrow> ('e option \<times> 's) option) \<Rightarrow> ('s \<Rightarrow> 's option) \<Rightarrow>
       'a manager_op \<Rightarrow> 's \<Rightarrow> ('e option \<times> 's) option" where
  "exec_op start stop stopAll (OpStart a) s = start a s"
| "exec_op start stop stopAll (OpStop a) s = stop a s"
| "exec_op start stop stopAll OpStopAll s = map_option (Pair None) (stopAll s)"

primrec exec_ops ::
    "('a \<Rightarrow> 's \<Rightarrow> ('e option \<times> 's) option) \<Rightarrow> ('a \<Rightarrow> 's \<Rightarrow> ('e option \<times> 's) option) \<Rightarrow> ('s \<Rightarrow> 's option) \<Rightarrow>
       'a manager_op list \<Rightarrow> 's \<Rightarrow> ('e option list \<times> 's) option" where
  "exec_ops start stop stopAll [] s = Some ([], s)"
| "exec_ops start stop stopAll (op # ops) s =
     (case exec_op start stop stopAll op s of
        None \<Rightarrow> None
      | Some (e, s') \<Rightarrow> map_option (\<lambda>(es, s''). (e # es, s'')) (exec_ops start stop stopAll ops s'))"

text \<open>
  What a manager promises, without clients, clocks and metrics: a set of pools with a process, and a
  flag that says that the manager was stopped for good. \<open>spec_step op s ok s'\<close> is one call with its
  success: a start may fail and then changes nothing, and must fail once the manager is stopped; a
  stop can fail only for a pool that has a process; stopping everything always works.
\<close>

type_synonym manager_abs = "string set \<times> bool"

inductive spec_step :: "string manager_op \<Rightarrow> manager_abs \<Rightarrow> bool \<Rightarrow> manager_abs \<Rightarrow> bool" where
  spec_start: "spec_step (OpStart k) (R, False) True (insert k R, False)"
| spec_start_fails: "spec_step (OpStart k) (R, b) False (R, b)"
| spec_stop: "spec_step (OpStop k) (R, b) True (R - {k}, b)"
| spec_stop_fails: "k \<in> R \<Longrightarrow> spec_step (OpStop k) (R, b) False (R, b)"
| spec_stopAll: "spec_step OpStopAll (R, b) True ({}, True)"

inductive_simps spec_step_simps [simp]:
  "spec_step (OpStart k) s ok s'"
  "spec_step (OpStop k) s ok s'"
  "spec_step OpStopAll s ok s'"

inductive spec_run :: "string manager_op list \<Rightarrow> manager_abs \<Rightarrow> bool list \<Rightarrow> manager_abs \<Rightarrow> bool" where
  spec_run_Nil: "spec_run [] s [] s"
| spec_run_Cons: "spec_step op s ok s' \<Longrightarrow> spec_run ops s' oks s'' \<Longrightarrow> spec_run (op # ops) s (ok # oks) s''"

inductive_simps spec_run_simps [simp]:
  "spec_run [] s oks s'"
  "spec_run (op # ops) s oks s'"

locale process_manager =
  fixes start stop :: "'a \<Rightarrow> 's \<Rightarrow> ('e option \<times> 's) option"
    and stopAll :: "'s \<Rightarrow> 's option"
    and key :: "'a \<Rightarrow> string"
    and running :: "'s \<Rightarrow> string set"
    and stopped :: "'s \<Rightarrow> bool"
  assumes start_stopped: "stopped s \<Longrightarrow> \<exists>e. start a s = Some (Some e, s)"
    and start_ok: "start a s = Some (None, s') \<Longrightarrow>
      running s' = insert (key a) (running s) \<and> \<not> stopped s'"
    and start_err: "start a s = Some (Some e, s') \<Longrightarrow> running s' = running s \<and> stopped s' = stopped s"
    and stop_ok: "stop a s = Some (None, s') \<Longrightarrow>
      running s' = running s - {key a} \<and> stopped s' = stopped s"
    and stop_err: "stop a s = Some (Some e, s') \<Longrightarrow>
      running s' = running s \<and> stopped s' = stopped s \<and> (\<exists>s''. stop a s' = Some (None, s''))"
    and stop_absent: "key a \<notin> running s \<Longrightarrow> stop a s = Some (None, s)"
    and stopAll_all: "stopAll s = Some s' \<Longrightarrow> running s' = {} \<and> stopped s'"
begin

lemma start_refines:
  assumes "start a s = Some (e, s')"
  shows "spec_step (OpStart (key a)) (running s, stopped s) (e = None) (running s', stopped s')"
proof (cases e)
  case None
  have "\<not> stopped s" using start_stopped [of s a] assms None by auto
  with None assms start_ok [of a s s'] show ?thesis by simp
next
  case (Some x)
  with assms start_err [of a s x s'] show ?thesis by simp
qed

lemma stop_refines:
  assumes "stop a s = Some (e, s')"
  shows "spec_step (OpStop (key a)) (running s, stopped s) (e = None) (running s', stopped s')"
proof (cases e)
  case None
  with assms stop_ok [of a s s'] show ?thesis by simp
next
  case (Some x)
  moreover have "key a \<in> running s" using assms Some stop_absent [of a s] by auto
  ultimately show ?thesis using assms stop_err [of a s x s'] by simp
qed

lemma exec_op_refines:
  assumes "exec_op start stop stopAll op s = Some (e, s')"
  shows "spec_step (map_manager_op key op) (running s, stopped s) (e = None) (running s', stopped s')"
proof (cases op)
  case (OpStart a)
  with assms start_refines show ?thesis by simp
next
  case (OpStop a)
  with assms stop_refines show ?thesis by simp
next
  case OpStopAll
  with assms stopAll_all show ?thesis by auto
qed

lemma exec_refines:
  "exec_ops start stop stopAll ops s = Some (es, s') \<Longrightarrow>
     spec_run (map (map_manager_op key) ops) (running s, stopped s) (map (\<lambda>e. e = None) es) (running s', stopped s')"
proof (induction ops arbitrary: s es)
  case (Cons op ops)
  from Cons.prems obtain e s1 es1 where "exec_op start stop stopAll op s = Some (e, s1)"
    "exec_ops start stop stopAll ops s1 = Some (es1, s')" "es = e # es1"
    by (auto split: option.splits)
  with Cons.IH exec_op_refines show ?case by fastforce
qed simp

lemma stopped_forever:
  assumes "stopped s" "running s = {}" "exec_ops start stop stopAll ops s = Some (es, s')"
  shows "stopped s' \<and> running s' = {}"
  using assms
proof (induction ops arbitrary: s es)
  case (Cons op ops)
  from Cons.prems(3) obtain e s1 es1 where step: "exec_op start stop stopAll op s = Some (e, s1)"
    and rest: "exec_ops start stop stopAll ops s1 = Some (es1, s')"
    by (auto split: option.splits)
  have "stopped s1 \<and> running s1 = {}"
  proof (cases op)
    case (OpStart a)
    with step Cons.prems start_stopped [of s a] show ?thesis by auto
  next
    case (OpStop a)
    with step Cons.prems stop_absent [of a s] show ?thesis by auto
  next
    case OpStopAll
    with step stopAll_all [of s] show ?thesis by auto
  qed
  with Cons.IH rest show ?case by blast
qed simp

lemma stopAll_final:
  assumes "stopAll s = Some s1" "exec_ops start stop stopAll ops s1 = Some (es, s2)"
  shows "stopped s2 \<and> running s2 = {} \<and> (\<exists>e. start a s2 = Some (Some e, s2))"
  using stopped_forever [OF _ _ assms(2)] stopAll_all [OF assms(1)] start_stopped [of s2 a] by simp

lemma stop_twice:
  assumes "stop a s = Some (e, s1)"
  shows "\<exists>s2. stop a s1 = Some (None, s2)"
proof (cases e)
  case None
  then have "key a \<notin> running s1" using stop_ok [of a s s1] assms by simp
  then show ?thesis using stop_absent by blast
next
  case (Some x)
  then show ?thesis using stop_err [of a s x s1] assms by simp
qed

lemma start_idempotent:
  assumes "start a s = Some (None, s1)" "start a s1 = Some (e, s2)"
  shows "running s2 = running s1 \<and> key a \<in> running s2"
proof (cases e)
  case None
  then show ?thesis using start_ok [of a s s1] start_ok [of a s1 s2] assms by auto
next
  case (Some x)
  then show ?thesis using start_ok [of a s s1] start_err [of a s1 x s2] assms by auto
qed

end

lemma dom_alist_update: "fst ` set (AList.update k v al) = insert k (fst ` set al)"
  using AList.dom_update [of k v al] by (simp add: dom_map_of_conv_image_fst)

lemma dom_alist_delete: "fst ` set (AList.delete k al) = fst ` set al - {k}"
  by (auto simp: AList.delete_eq)

lemma map_of_key_None: "map_of al k = None \<longleftrightarrow> k \<notin> fst ` set al"
  by (rule map_of_eq_None_iff)

lemma map_of_key_Some: "map_of al k = Some v \<Longrightarrow> insert k (fst ` set al) = fst ` set al"
  by (metis dom_map_of_conv_image_fst domI insert_absorb)

lemmas manager_simps = dom_alist_update dom_alist_delete map_of_key_None Let_def

lemma stop_process_running:
  "stop_process wait p m w = Some (Some e, p', m', w') \<Longrightarrow>
     stop_process wait p' m' w' = Some (None, p', m', w')"
  by (auto simp: stop_process_def split: if_splits option.splits)

interpretation rm: process_manager "rm_StartOrUpdate fac io" "rm_Stop wait" "rm_StopAll wait"
  "\<lambda>a. pool_key (fst a)" "\<lambda>s. fst ` set (rm_processes s)" rm_stopped
  for fac io wait
proof
  show "\<exists>e. rm_StartOrUpdate fac io a s = Some (Some e, s)" if "rm_stopped s" for a s
    using that by (simp add: rm_StartOrUpdate_def case_prod_beta Let_def)
  show "fst ` set (rm_processes s') = insert (pool_key (fst a)) (fst ` set (rm_processes s)) \<and> \<not> rm_stopped s'"
    if "rm_StartOrUpdate fac io a s = Some (None, s')" for a s s'
    using that
    by (auto simp: rm_StartOrUpdate_def case_prod_beta manager_simps
        del: equalityI split: if_splits option.splits sum.splits outcome.splits)
  show "fst ` set (rm_processes s') = fst ` set (rm_processes s) \<and> rm_stopped s' = rm_stopped s"
    if "rm_StartOrUpdate fac io a s = Some (Some e, s')" for a s e s'
    using that
    by (auto simp: rm_StartOrUpdate_def case_prod_beta manager_simps
        dest: map_of_key_Some del: equalityI split: if_splits option.splits sum.splits outcome.splits)
  show "fst ` set (rm_processes s') = fst ` set (rm_processes s) - {pool_key (fst a)} \<and> rm_stopped s' = rm_stopped s"
    if "rm_Stop wait a s = Some (None, s')" for a s s'
    using that by (auto simp: rm_Stop_def manager_simps del: equalityI split: option.splits)
  show "fst ` set (rm_processes s') = fst ` set (rm_processes s) \<and> rm_stopped s' = rm_stopped s \<and>
      (\<exists>s''. rm_Stop wait a s' = Some (None, s''))"
    if "rm_Stop wait a s = Some (Some e, s')" for a s e s'
  proof -
    from that obtain p x p' m' w' where p: "map_of (rm_processes s) (pool_key (fst a)) = Some p"
      and stop: "stop_process wait p (rm_metrics s) (rm_world s) = Some (Some x, p', m', w')"
      and s': "s' = s\<lparr>rm_processes := AList.update (pool_key (fst a)) p' (rm_processes s), rm_metrics := m', rm_world := w'\<rparr>"
      by (auto simp: rm_Stop_def Let_def split: option.splits)
    show ?thesis
      using stop_process_running [OF stop] map_of_key_Some [OF p]
      by (simp add: s' rm_Stop_def manager_simps AList.update_conv)
  qed
  show "rm_Stop wait a s = Some (None, s)" if "pool_key (fst a) \<notin> fst ` set (rm_processes s)" for a s
    using that by (simp add: rm_Stop_def Let_def flip: map_of_key_None)
  show "fst ` set (rm_processes s') = {} \<and> rm_stopped s'" if "rm_StopAll wait s = Some s'" for s s'
    using that by (auto simp: rm_StopAll_def split: option.splits)
qed

interpretation su: process_manager "su_Start fac" "su_Stop wait" "su_StopAll wait"
  "\<lambda>a. pool_key (fst a)" "\<lambda>s. fst ` set (su_processes s)" su_stopped
  for fac wait
proof
  show "\<exists>e. su_Start fac a s = Some (Some e, s)" if "su_stopped s" for a s
    using that by (simp add: su_Start_def case_prod_beta Let_def)
  show "fst ` set (su_processes s') = insert (pool_key (fst a)) (fst ` set (su_processes s)) \<and> \<not> su_stopped s'"
    if "su_Start fac a s = Some (None, s')" for a s s'
    using that
    by (auto simp: su_Start_def case_prod_beta manager_simps
        dest: map_of_key_Some del: equalityI split: if_splits option.splits sum.splits outcome.splits)
  show "fst ` set (su_processes s') = fst ` set (su_processes s) \<and> su_stopped s' = su_stopped s"
    if "su_Start fac a s = Some (Some e, s')" for a s e s'
    using that
    by (auto simp: su_Start_def case_prod_beta Let_def del: equalityI split: if_splits option.splits sum.splits outcome.splits)
  show "fst ` set (su_processes s') = fst ` set (su_processes s) - {pool_key (fst a)} \<and> su_stopped s' = su_stopped s"
    if "su_Stop wait a s = Some (None, s')" for a s s'
    using that by (auto simp: su_Stop_def manager_simps del: equalityI split: option.splits prod.splits)
  show "fst ` set (su_processes s') = fst ` set (su_processes s) \<and> su_stopped s' = su_stopped s \<and>
      (\<exists>s''. su_Stop wait a s' = Some (None, s''))"
    if "su_Stop wait a s = Some (Some e, s')" for a s e s'
    using that
    by (auto simp: su_Stop_def stop_updater_def manager_simps AList.update_conv dest: map_of_key_Some
        del: equalityI split: option.splits prod.splits if_splits)
  show "su_Stop wait a s = Some (None, s)" if "pool_key (fst a) \<notin> fst ` set (su_processes s)" for a s
    using that by (simp add: su_Stop_def Let_def flip: map_of_key_None)
  show "fst ` set (su_processes s') = {} \<and> su_stopped s'" if "su_StopAll wait s = Some s'" for s s'
    using that by (auto simp: su_StopAll_def)
qed


subsection \<open>An update is as good as a restart\<close>

lemma UpdateServerURL_ok:
  "UpdateServerURL ul n cur = (None, url) \<Longrightarrow> NewAgentClient ul n = Inr url"
  by (auto simp: NewAgentClient_def UpdateServerURL_def split: sum.splits if_splits prod.splits)

lemma newManageProcess_fields:
  "newManageProcess ul gh rp t = Returns (Inr p) \<Longrightarrow>
     NewAgentClient ul (agent_name rp) = Inr (p_serverURL p) \<and> p_slackAgentServiceName p = agent_name rp \<and>
     p_githubClient p = gh \<and> p_rpNamespace p = Namespace (rp_meta rp) \<and> p_rpName p = Name (rp_meta rp) \<and>
     p_owner p = GetOwner rp \<and> GetRepository rp = Some (p_repo p)"
  by (auto simp: newManageProcess_def split: sum.splits option.splits)

text \<open>The URL of the agent client is that of the service the process remembers, also when an update fails.\<close>

definition url_ok :: "url_lib \<Rightarrow> 'w manage_process \<Rightarrow> bool" where
  "url_ok ul p \<longleftrightarrow> NewAgentClient ul (p_slackAgentServiceName p) = Inr (p_serverURL p)"

lemma UpdateServerURL_err: "UpdateServerURL ul n cur = (Some e, url) \<Longrightarrow> url = cur"
  by (auto simp: UpdateServerURL_def split: sum.splits if_splits prod.splits)

lemma url_ok_new: "newManageProcess ul gh rp t = Returns (Inr p) \<Longrightarrow> url_ok ul (start_process p)"
  by (auto simp: newManageProcess_def url_ok_def start_process_def split: sum.splits option.splits)

lemma url_ok_update: "update_process ul rp p = (e, p') \<Longrightarrow> url_ok ul p \<Longrightarrow> url_ok ul p'"
  by (auto simp: update_process_def url_ok_def Let_def dest: UpdateServerURL_ok UpdateServerURL_err
      split: if_splits prod.splits option.splits)

text \<open>What neither an update nor a round changes.\<close>

definition same_identity :: "'w manage_process \<Rightarrow> 'w manage_process \<Rightarrow> bool" where
  "same_identity p q \<longleftrightarrow>
     p_githubClient q = p_githubClient p \<and> p_rpNamespace q = p_rpNamespace p \<and> p_rpName q = p_rpName p \<and>
     p_owner q = p_owner p \<and> p_repo q = p_repo p \<and> p_running q = p_running p"

lemma update_process_identity:
  "update_process ul rp p = (e, p') \<Longrightarrow>
     same_identity p p' \<and> p_lastCheckTime p' = p_lastCheckTime p \<and> p_prevRunnerNames p' = p_prevRunnerNames p"
  by (auto simp: update_process_def same_identity_def Let_def split: if_splits prod.splits option.splits)

lemma runOnce_process:
  assumes "runOnce io p m w = Some (Returns (e, p', m', w'))"
  shows "\<exists>t ns. p' = p\<lparr>p_lastCheckTime := t, p_prevRunnerNames := ns\<rparr>"
proof -
  consider "p' = p" | ns t where "p' = p\<lparr>p_prevRunnerNames := ns, p_lastCheckTime := t\<rparr>"
    using assms
    by (auto simp: runOnce_def updateMetrics_def maintainRunnerPods_def Let_def
        split: prod.splits sum.splits option.splits outcome.splits)
  then show ?thesis
  proof cases
    case 1
    then show ?thesis by (intro exI [of _ "p_lastCheckTime p"] exI [of _ "p_prevRunnerNames p"]) simp
  next
    case 2
    then show ?thesis by (intro exI [of _ t] exI [of _ ns]) simp
  qed
qed

text \<open>
  The life of a process of the pool that was created as \<open>rp0\<close>: it is started for a version of the pool, and then
  its rounds and its updates to other versions follow in any order; an update may fail.
\<close>

definition version_of :: "runner_pool \<Rightarrow> runner_pool \<Rightarrow> bool" where
  "version_of rp0 rp \<longleftrightarrow> pool_history rp0 rp \<and> Name (rp_meta rp) = Name (rp_meta rp0) \<and>
     Namespace (rp_meta rp) = Namespace (rp_meta rp0)"

inductive process_life :: "'w manager_io \<Rightarrow> 'w gh_client \<Rightarrow> runner_pool \<Rightarrow> 'w manage_process \<Rightarrow> bool" for io gh rp0 where
  life_start: "version_of rp0 rp \<Longrightarrow> newManageProcess (m_urls io) gh rp t = Returns (Inr p) \<Longrightarrow>
     process_life io gh rp0 (start_process p)"
| life_update: "process_life io gh rp0 p \<Longrightarrow> version_of rp0 rp \<Longrightarrow> update_process (m_urls io) rp p = (e, p') \<Longrightarrow>
     process_life io gh rp0 p'"
| life_round: "process_life io gh rp0 p \<Longrightarrow> runOnce io p m w = Some (Returns (e, p', m', w')) \<Longrightarrow>
     process_life io gh rp0 p'"

lemma version_owner: "version_of rp0 rp \<Longrightarrow> GetOwner rp = GetOwner rp0 \<and> GetRepository rp = GetRepository rp0"
  by (auto simp: version_of_def dest!: pool_history_ok intro: owner_repository_cong)

lemma process_life_ok:
  "process_life io gh rp0 p \<Longrightarrow>
     url_ok (m_urls io) p \<and> p_running p \<and> p_githubClient p = gh \<and> p_rpNamespace p = Namespace (rp_meta rp0) \<and>
     p_rpName p = Name (rp_meta rp0) \<and> p_owner p = GetOwner rp0 \<and> GetRepository rp0 = Some (p_repo p)"
proof (induction rule: process_life.induct)
  case (life_start rp t p)
  with newManageProcess_fields [OF life_start(2)] url_ok_new [OF life_start(2)] version_owner [OF life_start(1)]
  show ?case by (simp add: start_process_def version_of_def)
next
  case (life_update p rp e p')
  with update_process_identity [OF life_update(3)] url_ok_update [OF life_update(3)] show ?case
    by (simp add: same_identity_def)
next
  case (life_round p m w e p' m' w')
  with runOnce_process [OF life_round(2)] show ?case by (auto simp: url_ok_def)
qed

lemma update_process_fields:
  assumes "update_process ul rp p = (None, p')" "NewAgentClient ul (p_slackAgentServiceName p) = Inr (p_serverURL p)"
  shows "NewAgentClient ul (agent_name rp) = Inr (p_serverURL p')" "p_slackAgentServiceName p' = agent_name rp"
    "p_githubClient p' = p_githubClient p" "p_rpNamespace p' = p_rpNamespace p" "p_rpName p' = p_rpName p"
    "p_owner p' = p_owner p" "p_repo p' = p_repo p" "p_replicas p' = sp_Replicas (Spec rp)"
    "p_maxRunnerPods p' = sp_MaxRunnerPods (Spec rp)"
    "p_needSlackNotification p' = Enable (Slack (sp_Notification (Spec rp)))"
    "p_slackChannel p' = Channel (Slack (sp_Notification (Spec rp)))"
    "p_extendDuration p' = parseDuration_or_zero (ExtendDuration (sp_Notification (Spec rp)))"
    "p_recreateDeadline p' = parseDuration_or_zero (sp_RecreateDeadline (Spec rp))"
    "p_denyDisruption p' = sp_DenyDisruption (Spec rp)"
  using assms
  by (auto simp: update_process_def Let_def dest: UpdateServerURL_ok split: if_splits prod.splits option.splits)

subsection \<open>Properties\<close>

text \<open>
  Stopping a manager is final: after \<open>StopAll\<close>, whatever sequence of calls follows, no process exists and
  starting one is refused.
\<close>

lemma rm_StopAll_final:
  assumes "rm_StopAll wait s = Some s1"
    and "exec_ops (rm_StartOrUpdate fac io) (rm_Stop wait) (rm_StopAll wait) ops s1 = Some (es, s2)"
  shows "rm_stopped s2 \<and> rm_processes s2 = [] \<and>
    (\<exists>e. rm_StartOrUpdate fac io (rp, cred) s2 = Some (Some e, s2))"
  using rm.stopAll_final [OF assms, of "(rp, cred)"] by simp

lemma su_StopAll_final:
  assumes "su_StopAll wait s = Some s1"
    and "exec_ops (su_Start fac) (su_Stop wait) (su_StopAll wait) ops s1 = Some (es, s2)"
  shows "su_stopped s2 \<and> su_processes s2 = [] \<and> (\<exists>e. su_Start fac (rp, cred) s2 = Some (Some e, s2))"
  using su.stopAll_final [OF assms, of "(rp, cred)"] by simp

definition sample_cred :: client_credential where
  "sample_cred = \<lparr>PersonalAccessToken = ''pat'', AppID = 0, AppInstallationID = 0, PrivateKey = [], PrivateKeyPath = []\<rparr>"

text \<open>
  C29. Both managers implement the same abstract manager: whatever sequence of calls of start, stop and stop-all
  a manager executes, the set of pools that have a process, the stopped flag and the success of each call evolve
  as the abstract specification allows. So a start that succeeds leaves a process for its pool and succeeds only
  while the manager is open, a stop that succeeds leaves none for its pool, a call that fails leaves the
  pools with a process and the flag as they were, and no call but stop-all touches the process of another pool.
\<close>

theorem managers_refine_spec:
  assumes "exec_ops (rm_StartOrUpdate fac io) (rm_Stop wait) (rm_StopAll wait) ops s = Some (es, s')"
    and "exec_ops (su_Start fac') (su_Stop wait') (su_StopAll wait') ops' t = Some (fs, t')"
  shows "spec_run (map (map_manager_op (\<lambda>a. pool_key (fst a))) ops)
      (fst ` set (rm_processes s), rm_stopped s) (map (\<lambda>e. e = None) es) (fst ` set (rm_processes s'), rm_stopped s') \<and>
    spec_run (map (map_manager_op (\<lambda>a. pool_key (fst a))) ops')
      (fst ` set (su_processes t), su_stopped t) (map (\<lambda>e. e = None) fs) (fst ` set (su_processes t'), su_stopped t')"
  using rm.exec_refines [OF assms(1)] su.exec_refines [OF assms(2)] by simp

text \<open>
  A run for the witness: the pool is started, the stop fails because waiting reports an error, the next stop
  succeeds, all are stopped, and a start is refused.
\<close>

definition sample_ops :: "(runner_pool \<times> client_credential) manager_op list" where
  "sample_ops =
     (let a = (sample_pool, sample_cred) in [OpStart a, OpStop a, OpStop a, OpStopAll, OpStart a])"

lemma sample_ops_rm:
  "\<exists>s'. exec_ops (rm_StartOrUpdate (\<lambda>cred. Inr no_github) (static_io stale_status)) (rm_Stop (\<lambda>k. Some ''canceled''))
     (rm_StopAll (\<lambda>k. Some ''canceled'')) sample_ops (NewRunnerManager InitControllerMetrics ()) =
       Some ([None, Some (WaitFailed ''canceled''), None, None, Some AlreadyStopped], s')"
proof -
  have "\<exists>p. newManageProcess sample_urls (no_github :: unit gh_client) sample_pool (90000 * Hour) = Returns (Inr p) \<and>
      p_githubClient p = no_github"
    using sample_spec_ok spec_ok_GetRepository [of sample_pool]
    by (auto simp: newManageProcess_def NewAgentClient_def UpdateServerURL_def sample_urls_def sample_pool_def)
  then obtain p where p: "newManageProcess sample_urls (no_github :: unit gh_client) sample_pool (90000 * Hour) = Returns (Inr p)"
    "p_githubClient p = no_github" by blast
  have io: "m_now (static_io stale_status) () = (90000 * Hour, ())" "m_urls (static_io stale_status) = sample_urls"
    by (simp_all add: static_io_def)
  have del: "deleteAllRunners q () = Some (None, ())" if "p_githubClient q = no_github" for q :: "unit manage_process"
    using that by (simp add: deleteAllRunners_def no_github_def)
  show ?thesis
    by (simp add: sample_ops_def rm_StartOrUpdate_def rm_Stop_def rm_StopAll_def NewRunnerManager_def Let_def io p del
        start_process_def stop_process_def finish_process_def)
qed

lemma sample_ops_su:
  "\<exists>t'. exec_ops (su_Start (\<lambda>cred. Inr no_github)) (su_Stop (\<lambda>k. Some ''canceled'')) (su_StopAll (\<lambda>k. Some ''canceled''))
     sample_ops (NewSecretUpdater InitControllerMetrics ()) =
       Some ([None, Some (WaitFailed ''canceled''), None, None, Some AlreadyStopped], t')"
proof -
  obtain repo where "GetRepository sample_pool = Some repo"
    using sample_spec_ok spec_ok_GetRepository [of sample_pool] by (auto simp: sample_pool_def)
  then show ?thesis
    by (simp add: sample_ops_def su_Start_def su_Stop_def su_StopAll_def NewSecretUpdater_def Let_def newUpdateProcess_def
        start_updater_def stop_updater_def)
qed

theorem managers_refine_spec_witness:
  "\<exists>s' t'. spec_run [OpStart ''ns/pool'', OpStop ''ns/pool'', OpStop ''ns/pool'', OpStopAll, OpStart ''ns/pool''] ({}, False)
      [True, False, True, True, False] (fst ` set (rm_processes (s' :: unit rm_state)), rm_stopped s') \<and>
    spec_run [OpStart ''ns/pool'', OpStop ''ns/pool'', OpStop ''ns/pool'', OpStopAll, OpStart ''ns/pool''] ({}, False)
      [True, False, True, True, False] (fst ` set (su_processes (t' :: unit su_state)), su_stopped t')"
proof -
  have key: "pool_key sample_pool = ''ns/pool''"
    by (simp add: pool_key_def namespaced_name_def sample_pool_def)
  obtain s' where s: "exec_ops (rm_StartOrUpdate (\<lambda>cred. Inr no_github) (static_io stale_status)) (rm_Stop (\<lambda>k. Some ''canceled''))
     (rm_StopAll (\<lambda>k. Some ''canceled'')) sample_ops (NewRunnerManager InitControllerMetrics ()) =
       Some ([None, Some (WaitFailed ''canceled''), None, None, Some AlreadyStopped], s')" using sample_ops_rm by blast
  obtain t' where t: "exec_ops (su_Start (\<lambda>cred. Inr no_github)) (su_Stop (\<lambda>k. Some ''canceled'')) (su_StopAll (\<lambda>k. Some ''canceled''))
     sample_ops (NewSecretUpdater InitControllerMetrics ()) =
       Some ([None, Some (WaitFailed ''canceled''), None, None, Some AlreadyStopped], t')" using sample_ops_su by blast
  show ?thesis
    by (intro exI [of _ s'] exI [of _ t'])
      (use managers_refine_spec [OF s t] in
        \<open>simp add: sample_ops_def Let_def key NewRunnerManager_def NewSecretUpdater_def del: spec_run_simps spec_step_simps\<close>)
qed

text \<open>
  A \<open>Stop\<close> that failed can be repeated: when the first \<open>Stop\<close> of a pool returns, with or without an
  error, the next one succeeds, and then the pool has no process.
\<close>

lemma rm_Stop_retry:
  assumes "rm_Stop wait (rp, cred) s = Some (e, s1)"
  shows "\<exists>s2. rm_Stop wait (rp, cred) s1 = Some (None, s2) \<and> pool_key rp \<notin> fst ` set (rm_processes s2)"
  using rm.stop_twice [OF assms] rm.stop_ok [of wait "(rp, cred)" s1] by auto

lemma rm_Stop_retry_example:
  "\<exists>s1 s2. rm_Stop (\<lambda>k. Some ''canceled'') (sample_pool, sample_cred)
       (NewRunnerManager InitControllerMetrics ()\<lparr>rm_processes := [(''ns/pool'', sample_process)]\<rparr>) =
         Some (Some (WaitFailed ''canceled''), s1) \<and>
     rm_Stop (\<lambda>k. Some ''canceled'') (sample_pool, sample_cred) s1 = Some (None, s2)"
proof -
  have "\<exists>s1. rm_Stop (\<lambda>k. Some ''canceled'') (sample_pool, sample_cred)
      (NewRunnerManager InitControllerMetrics ()\<lparr>rm_processes := [(''ns/pool'', sample_process)]\<rparr>) =
        Some (Some (WaitFailed ''canceled''), s1)"
    by (simp add: rm_Stop_def NewRunnerManager_def pool_key_def namespaced_name_def sample_pool_def
        stop_process_def sample_process_def finish_process_def deleteAllRunners_def no_github_def Let_def)
  with rm_Stop_retry show ?thesis by blast
qed

text \<open>
  C28. Updating a running process is as good as restarting it, the credential apart. Take a process at any point of
  its life, after any rounds and any updates to versions of its pool, failed ones included. When \<open>update\<close> to a
  version of the pool succeeds, a process could be started for that version, and the updated process is that fresh
  process in every part of its configuration, owner, repository and agent URL included, and running like it; it
  keeps its time of the last check, the runners it remembers, and the GitHub client it was started with,
  also when the credential of the pool would now give another one.
\<close>

theorem update_like_restart:
  assumes "process_life io gh rp0 p" and "version_of rp0 rp" and "update_process (m_urls io) rp p = (None, p')"
  shows "\<exists>q. newManageProcess (m_urls io) gh' rp t = Returns (Inr q) \<and>
    p' = (start_process q)\<lparr>p_githubClient := gh, p_lastCheckTime := p_lastCheckTime p,
           p_prevRunnerNames := p_prevRunnerNames p\<rparr>"
proof -
  note l = process_life_ok [OF assms(1)] and v = version_owner [OF assms(2)]
  have url: "NewAgentClient (m_urls io) (p_slackAgentServiceName p) = Inr (p_serverURL p)" using l by (simp add: url_ok_def)
  note u = update_process_fields [OF assms(3) url] and i = update_process_identity [OF assms(3)]
  have "GetRepository rp = Some (p_repo p)" using l v by simp
  then show ?thesis
    using l u i v assms(2)
    by (simp add: newManageProcess_def version_of_def start_process_def same_identity_def)
qed

definition other_github :: "'w gh_client" where
  "other_github = no_github\<lparr>ghc_RemoveRunner := (\<lambda>ow r i w. (Some (ApiError []), w))\<rparr>"

theorem update_like_restart_witness:
  "\<exists>p p' q. newManageProcess sample_urls (no_github :: unit gh_client) sample_pool 0 = Returns (Inr p) \<and>
     update_process sample_urls sample_pool (start_process p) = (None, p') \<and>
     newManageProcess sample_urls (other_github :: unit gh_client) sample_pool 7 = Returns (Inr q) \<and>
     p_replicas p' = p_replicas q \<and> p_githubClient p' = no_github"
proof -
  have io: "m_urls (static_io stale_status) = sample_urls" by (simp add: static_io_def)
  have new: "\<exists>p. newManageProcess sample_urls (no_github :: unit gh_client) sample_pool 0 = Returns (Inr p)"
    using sample_spec_ok spec_ok_GetRepository [of sample_pool]
    by (auto simp: newManageProcess_def NewAgentClient_def UpdateServerURL_def sample_urls_def sample_pool_def)
  then obtain p where p: "newManageProcess sample_urls (no_github :: unit gh_client) sample_pool 0 = Returns (Inr p)"
    by blast
  have upd: "\<exists>p'. update_process sample_urls sample_pool (start_process p) = (None, p')"
    using newManageProcess_fields [OF p] by (simp add: update_process_def start_process_def Let_def)
  then obtain p' where p': "update_process sample_urls sample_pool (start_process p) = (None, p')" by blast
  have v: "version_of sample_pool sample_pool"
    unfolding version_of_def using sample_spec_ok by (simp add: created ValidateCreate_None sample_pool_def)
  have life: "process_life (static_io stale_status) no_github sample_pool (start_process p)"
    using life_start [OF v, where io = "static_io stale_status" and gh = no_github and t = 0 and p = p] by (simp add: io p)
  from update_like_restart [OF life v, unfolded io, OF p', of other_github 7] obtain q where
    q: "newManageProcess sample_urls (other_github :: unit gh_client) sample_pool 7 = Returns (Inr q)"
      "p' = (start_process q)\<lparr>p_githubClient := no_github, p_lastCheckTime := p_lastCheckTime (start_process p),
             p_prevRunnerNames := p_prevRunnerNames (start_process p)\<rparr>" by blast
  then have "p_replicas p' = p_replicas q \<and> p_githubClient p' = no_github" by (simp add: start_process_def)
  with p p' q(1) show ?thesis by blast
qed

end
