(* ===== verification/Reconciler.thy ===== *)
theory Reconciler
  imports Process_Managers
begin

section \<open>controllers/runnerpool_controller.go: the reconciler\<close>

text \<open>
  \<open>Reconcile\<close> brings the secret, the deployment and the processes of a RunnerPool in line with its spec,
  and finalizes a pool that is being deleted. Parameters are the Kubernetes client (with \<open>CreateOrUpdate\<close>
  as one call that takes the mutate function), the two managers behind their Go interfaces, the
  library functions on objects and the compiled regular expressions. A call of a manager that does
  not return makes \<open>Reconcile\<close> not return (\<open>None\<close>).
\<close>

record reconciler =
  rc_runnerImage :: string
  rc_organizationRegexp :: "(string \<Rightarrow> bool) option"
  rc_repositoryRegexp :: "(string \<Rightarrow> bool) option"

text \<open>The calls of the Kubernetes client, and beside them those of the two managers.\<close>

record 'w kube_calls =
  k_GetRunnerPool :: "string \<Rightarrow> string \<Rightarrow> 'w \<Rightarrow> (kube_error + runner_pool) \<times> 'w"
  k_UpdateRunnerPool :: "runner_pool \<Rightarrow> 'w \<Rightarrow> kube_error option \<times> 'w"
  k_UpdateStatus :: "runner_pool \<Rightarrow> 'w \<Rightarrow> kube_error option \<times> 'w"
  k_GetSecret :: "string \<Rightarrow> string \<Rightarrow> 'w \<Rightarrow> (kube_error + secret) \<times> 'w"
  k_CreateSecret :: "secret \<Rightarrow> 'w \<Rightarrow> kube_error option \<times> 'w"
  k_ApplyDeployment :: "deployment \<Rightarrow> (deployment \<Rightarrow> string + deployment) \<Rightarrow> 'w \<Rightarrow> kube_error option \<times> 'w"
  k_lib :: kube_lib

record 'w reconciler_io = "'w kube_calls" +
  k_rmStartOrUpdate :: "runner_pool \<times> client_credential \<Rightarrow> 'w \<Rightarrow> (manager_error option \<times> 'w) option"
  k_rmStop :: "runner_pool \<Rightarrow> 'w \<Rightarrow> (manager_error option \<times> 'w) option"
  k_suStart :: "runner_pool \<times> client_credential \<Rightarrow> 'w \<Rightarrow> (manager_error option \<times> 'w) option"
  k_suStop :: "runner_pool \<Rightarrow> 'w \<Rightarrow> (manager_error option \<times> 'w) option"

subsection \<open>Labels, credentials and validation\<close>

definition labelSet :: "runner_pool \<Rightarrow> gomap" where
  "labelSet rp = Some [(AppNameLabelKey, AppName), (AppComponentLabelKey, AppComponentRunner),
     (AppInstanceLabelKey, Name (rp_meta rp))]"

datatype cred_error = MissingKey string | InvalidValue string | CredentialSecret kube_error

definition app_credential :: "int \<Rightarrow> int \<Rightarrow> string \<Rightarrow> client_credential" where
  "app_credential appID insID key =
     \<lparr>PersonalAccessToken = [], AppID = appID, AppInstallationID = insID, PrivateKey = key, PrivateKeyPath = []\<rparr>"

definition readAppKeySecret :: "secret \<Rightarrow> cred_error + client_credential" where
  "readAppKeySecret s =
     (case gm_get (sec_Data s) CredentialSecretDataAppID of
        None \<Rightarrow> Inl (MissingKey CredentialSecretDataAppID)
      | Some appIDstr \<Rightarrow>
          (case atoi appIDstr of
             None \<Rightarrow> Inl (InvalidValue CredentialSecretDataAppID)
           | Some appID \<Rightarrow>
               (case gm_get (sec_Data s) CredentialSecretDataAppInstallationID of
                  None \<Rightarrow> Inl (MissingKey CredentialSecretDataAppInstallationID)
                | Some insIDstr \<Rightarrow>
                    (case atoi insIDstr of
                       None \<Rightarrow> Inl (InvalidValue CredentialSecretDataAppInstallationID)
                     | Some insID \<Rightarrow>
                         (case gm_get (sec_Data s) CredentialSecretDataAppPrivateKey of
                            None \<Rightarrow> Inl (MissingKey CredentialSecretDataAppPrivateKey)
                          | Some key \<Rightarrow> Inr (app_credential appID insID key))))))"

definition getGitHubCredential ::
    "'w reconciler_io \<Rightarrow> runner_pool \<Rightarrow> 'w \<Rightarrow> (cred_error + client_credential) \<times> 'w" where
  "getGitHubCredential io rp w =
     (let secretName = (if sp_CredentialSecretName (Spec rp) \<noteq> [] then sp_CredentialSecretName (Spec rp)
                        else DefaultCredentialSecretName)
      in case k_GetSecret io (Namespace (rp_meta rp)) secretName w of
           (Inl e, w1) \<Rightarrow> (Inl (CredentialSecret e), w1)
         | (Inr s, w1) \<Rightarrow>
             (case gm_get (sec_Data s) CredentialSecretDataPATToken of
                Some pat \<Rightarrow>
                  (Inr \<lparr>PersonalAccessToken = pat, AppID = 0, AppInstallationID = 0, PrivateKey = [],
                        PrivateKeyPath = []\<rparr>, w1)
              | None \<Rightarrow> (readAppKeySecret s, w1)))"

definition validation :: "reconciler \<Rightarrow> runner_pool \<Rightarrow> string option" where
  "validation r rp =
     (if IsOrgLevel rp
      then (case rc_organizationRegexp r of
              Some re \<Rightarrow> if \<not> re (sp_Organization (Spec rp)) then Some ''organization is not match'' else None
            | None \<Rightarrow> None)
      else (case rc_repositoryRegexp r of
              Some re \<Rightarrow> if \<not> re (sp_Repository (Spec rp)) then Some ''repository is not match'' else None
            | None \<Rightarrow> None))"

subsection \<open>The secret\<close>

definition token_secret_of :: "runner_pool \<Rightarrow> secret" where
  "token_secret_of rp =
     \<lparr>sec_meta = empty_meta\<lparr>Name := GetRunnerSecretName rp, Namespace := Namespace (rp_meta rp)\<rparr>,
      sec_Data = None, sec_StringData = None, sec_rest = JNull\<rparr>"

datatype secret_error = SecretKube kube_error | SecretOwner string

definition reconcileSecret ::
    "'w reconciler_io \<Rightarrow> runner_pool \<Rightarrow> 'w \<Rightarrow> (secret_error + bool) \<times> 'w" where
  "reconcileSecret io rp w =
     (case k_GetSecret io (Namespace (rp_meta rp)) (GetRunnerSecretName rp) w of
        (Inr s, w1) \<Rightarrow>
          (Inr (gm_get (Annotations (sec_meta s)) RunnerSecretExpiresAtAnnotationKey \<noteq> None), w1)
      | (Inl (KOther e), w1) \<Rightarrow> (Inl (SecretKube (KOther e)), w1)
      | (Inl KNotFound, w1) \<Rightarrow>
          (case SetControllerReference (k_lib io) (rp_meta rp) (sec_meta (token_secret_of rp)) of
             Inl e \<Rightarrow> (Inl (SecretOwner e), w1)
           | Inr mt \<Rightarrow>
               (case k_CreateSecret io ((token_secret_of rp)\<lparr>sec_meta := mt\<rparr>) w1 of
                  (Some e, w2) \<Rightarrow> (Inl (SecretKube e), w2)
                | (None, w2) \<Rightarrow> (Inr False, w2))))"

subsection \<open>The deployment\<close>

definition findRunnerContainer :: "container list \<Rightarrow> container option" where
  "findRunnerContainer cs = find (\<lambda>c. c_Name c = RunnerContainerName) cs"

definition empty_container :: container where
  "empty_container = \<lparr>c_Name = [], c_Image = [], c_ImagePullPolicy = [], c_SecurityContext = None,
     c_Resources = JNull, c_Ports = [], c_VolumeMounts = [], c_EnvFrom = [], c_Env = [], c_rest = JNull\<rparr>"

definition addRunnerContainerIfNotExists :: "container list \<Rightarrow> container list" where
  "addRunnerContainerIfNotExists cs =
     (case findRunnerContainer cs of
        Some c \<Rightarrow> cs
      | None \<Rightarrow> cs @ [empty_container\<lparr>c_Name := RunnerContainerName\<rparr>])"

text \<open>Assignments through the pointer that \<open>findRunnerContainer\<close> returns change the first match.\<close>

primrec update_runner :: "(container \<Rightarrow> container) \<Rightarrow> container list \<Rightarrow> container list" where
  "update_runner f [] = []"
| "update_runner f (c # cs) = (if c_Name c = RunnerContainerName then f c # cs else c # update_runner f cs)"

definition plain_env :: "string \<Rightarrow> string \<Rightarrow> env_var" where
  "plain_env n v = \<lparr>ev_Name = n, ev_Value = v, ev_ValueFrom = None\<rparr>"

definition field_env :: "string \<Rightarrow> string \<Rightarrow> env_var" where
  "field_env n path = \<lparr>ev_Name = n, ev_Value = [], ev_ValueFrom = Some (FieldRef ''v1'' path)\<rparr>"

definition makeRunnerContainerEnv :: "runner_pool \<Rightarrow> env_var list" where
  "makeRunnerContainerEnv rp =
     [field_env PodNameEnvName ''metadata.name'', field_env PodNamespaceEnvName ''metadata.namespace'',
      plain_env RunnerPoolNameEnvName (Name (rp_meta rp)),
      plain_env RunnerOptionEnvName (print_json (option_json (sp_SetupCommand (Spec rp))))] @
     (if IsOrgLevel rp then [plain_env RunnerOrgEnvName (sp_Organization (Spec rp))]
      else [plain_env RunnerRepoEnvName (sp_Repository (Spec rp))]) @
     rc_Env (RunnerContainer (sp_Template (Spec rp)))"

definition makeRunnerContainerPorts :: "container_port list" where
  "makeRunnerContainerPorts =
     [\<lparr>cp_Protocol = ''TCP'', cp_Name = RunnerMetricsPortName, cp_ContainerPort = RunnerListenPort\<rparr>]"

definition varDir :: string where "varDir = ''var-dir''"
definition workDirName :: string where "workDirName = ''work-dir''"

definition deployment_volumes :: "runner_pool \<Rightarrow> volume list" where
  "deployment_volumes rp =
     Volumes (sp_Template (Spec rp)) @
     [\<lparr>vol_Name = varDir, vol_Source = EmptyDirSource\<rparr>,
      \<lparr>vol_Name = workDirName,
       vol_Source = (case sp_WorkVolume (Spec rp) of None \<Rightarrow> EmptyDirSource | Some v \<Rightarrow> v)\<rparr>,
      \<lparr>vol_Name = GetRunnerSecretName rp, vol_Source = SecretSource (GetRunnerSecretName rp)\<rparr>]"

definition plain_mount :: "string \<Rightarrow> bool \<Rightarrow> string \<Rightarrow> volume_mount" where
  "plain_mount n ro path = \<lparr>vm_Name = n, vm_ReadOnly = ro, vm_MountPath = path, vm_rest = JNull\<rparr>"

definition runner_mounts :: "runner_pool \<Rightarrow> volume_mount list" where
  "runner_mounts rp =
     rc_VolumeMounts (RunnerContainer (sp_Template (Spec rp))) @
     [plain_mount varDir False RunnerVarDirPath, plain_mount workDirName False RunnerWorkDirPath,
      plain_mount (GetRunnerSecretName rp) True (filepath_join [RunnerVarDirPath, SecretsDirName])]"

definition set_runner_container :: "string \<Rightarrow> runner_pool \<Rightarrow> container \<Rightarrow> container" where
  "set_runner_container img rp c =
     (let rc = RunnerContainer (sp_Template (Spec rp))
      in c\<lparr>c_Image := (if rc_Image rc \<noteq> [] then rc_Image rc else img),
           c_ImagePullPolicy := (if rc_ImagePullPolicy rc \<noteq> [] then rc_ImagePullPolicy rc else c_ImagePullPolicy c),
           c_SecurityContext := rc_SecurityContext rc, c_Resources := rc_Resources rc,
           c_Ports := makeRunnerContainerPorts, c_VolumeMounts := runner_mounts rp,
           c_EnvFrom := rc_EnvFrom rc, c_Env := makeRunnerContainerEnv rp\<rparr>)"

definition set_pod_spec :: "string \<Rightarrow> runner_pool \<Rightarrow> pod_spec \<Rightarrow> pod_spec" where
  "set_pod_spec img rp ps =
     (let t = sp_Template (Spec rp)
      in ps\<lparr>ps_ServiceAccountName := ServiceAccountName t, ps_ImagePullSecrets := ImagePullSecrets t,
            ps_AutomountServiceAccountToken :=
              (case AutomountServiceAccountToken t of
                 None \<Rightarrow> ps_AutomountServiceAccountToken ps | Some b \<Rightarrow> Some b),
            ps_Volumes := deployment_volumes rp, ps_NodeSelector := NodeSelector t,
            ps_Tolerations := Tolerations t,
            ps_Containers := update_runner (set_runner_container img rp)
                               (addRunnerContainerIfNotExists (ps_Containers ps))\<rparr>)"

definition mutate_deployment :: "kube_lib \<Rightarrow> string \<Rightarrow> runner_pool \<Rightarrow> deployment \<Rightarrow> string + deployment" where
  "mutate_deployment lib img rp d =
     (let t = sp_Template (Spec rp);
          d1 = d\<lparr>d_meta := (d_meta d)\<lparr>Labels := mergeMap (Labels (d_meta d)) (labelSet rp)\<rparr>,
                 d_Selector := Some (labelSet rp),
                 d_tmpl_Labels := mergeMap (mergeMap (d_tmpl_Labels d) (tmpl_Labels t)) (labelSet rp),
                 d_tmpl_Annotations := mergeMap (d_tmpl_Annotations d) (tmpl_Annotations t),
                 d_Replicas := Some (sp_Replicas (Spec rp)),
                 d_pod_spec := set_pod_spec img rp (d_pod_spec d)\<rparr>
      in case SetControllerReference lib (rp_meta rp) (d_meta d1) of
           Inl e \<Rightarrow> Inl e
         | Inr mt \<Rightarrow> Inr (d1\<lparr>d_meta := mt\<rparr>))"

definition new_deployment :: "runner_pool \<Rightarrow> deployment" where
  "new_deployment rp =
     \<lparr>d_meta = empty_meta\<lparr>Name := GetRunnerDeploymentName rp, Namespace := Namespace (rp_meta rp)\<rparr>,
      d_Selector = None, d_Replicas = None, d_tmpl_Labels = None, d_tmpl_Annotations = None,
      d_pod_spec = \<lparr>ps_ServiceAccountName = [], ps_ImagePullSecrets = [],
        ps_AutomountServiceAccountToken = None, ps_Volumes = [], ps_NodeSelector = None,
        ps_Tolerations = [], ps_Containers = [], ps_rest = JNull\<rparr>, d_rest = JNull\<rparr>"

definition reconcileDeployment ::
    "'w reconciler_io \<Rightarrow> reconciler \<Rightarrow> runner_pool \<Rightarrow> 'w \<Rightarrow> kube_error option \<times> 'w" where
  "reconcileDeployment io r rp w =
     k_ApplyDeployment io (new_deployment rp) (mutate_deployment (k_lib io) (rc_runnerImage r) rp) w"

subsection \<open>Reconcile\<close>

datatype reconcile_error =
    GetPoolFailed kube_error
  | StopFailed manager_error
  | UpdatePoolFailed kube_error
  | ValidationFailed string
  | CredentialFailed cred_error
  | SecretFailed secret_error
  | StartFailed manager_error
  | DeploymentFailed kube_error
  | StatusFailed kube_error

datatype reconcile_result = Done | RequeueAfter duration | Failed reconcile_error

definition without_finalizer :: "kube_lib \<Rightarrow> runner_pool \<Rightarrow> runner_pool" where
  "without_finalizer lib rp =
     rp\<lparr>rp_meta := (rp_meta rp)\<lparr>Finalizers := RemoveFinalizer lib RunnerPoolFinalizer (Finalizers (rp_meta rp))\<rparr>\<rparr>"

definition finalize_pool ::
    "'w reconciler_io \<Rightarrow> runner_pool \<Rightarrow> 'w \<Rightarrow> (reconcile_result \<times> 'w) option" where
  "finalize_pool io rp w =
     (if \<not> ContainsFinalizer (k_lib io) RunnerPoolFinalizer (Finalizers (rp_meta rp)) then Some (Done, w)
      else case k_rmStop io rp w of
        None \<Rightarrow> None
      | Some (Some e, w1) \<Rightarrow> Some (Failed (StopFailed e), w1)
      | Some (None, w1) \<Rightarrow>
          (case k_suStop io rp w1 of
             None \<Rightarrow> None
           | Some (Some e, w2) \<Rightarrow> Some (Failed (StopFailed e), w2)
           | Some (None, w2) \<Rightarrow>
               (case k_UpdateRunnerPool io (without_finalizer (k_lib io) rp) w2 of
                  (Some e, w3) \<Rightarrow> Some (Failed (UpdatePoolFailed e), w3)
                | (None, w3) \<Rightarrow> Some (Done, w3))))"

definition apply_pool ::
    "'w reconciler_io \<Rightarrow> reconciler \<Rightarrow> runner_pool \<Rightarrow> 'w \<Rightarrow> (reconcile_result \<times> 'w) option" where
  "apply_pool io r rp w =
     (case validation r rp of
        Some e \<Rightarrow> Some (Failed (ValidationFailed e), w)
      | None \<Rightarrow>
          (case getGitHubCredential io rp w of
             (Inl e, w1) \<Rightarrow> Some (Failed (CredentialFailed e), w1)
           | (Inr cred, w1) \<Rightarrow>
               (case reconcileSecret io rp w1 of
                  (Inl e, w2) \<Rightarrow> Some (Failed (SecretFailed e), w2)
                | (Inr isContinuation, w2) \<Rightarrow>
                    (case k_suStart io (rp, cred) w2 of
                       None \<Rightarrow> None
                     | Some (Some e, w3) \<Rightarrow> Some (Failed (StartFailed e), w3)
                     | Some (None, w3) \<Rightarrow>
                         if \<not> isContinuation then Some (RequeueAfter (10 * Second), w3)
                         else (case reconcileDeployment io r rp w3 of
                                 (Some e, w4) \<Rightarrow> Some (Failed (DeploymentFailed e), w4)
                               | (None, w4) \<Rightarrow>
                                   (case k_rmStartOrUpdate io (rp, cred) w4 of
                                      None \<Rightarrow> None
                                    | Some (Some e, w5) \<Rightarrow> Some (Failed (StartFailed e), w5)
                                    | Some (None, w5) \<Rightarrow>
                                        (case k_UpdateStatus io (rp\<lparr>Bound := True\<rparr>) w5 of
                                           (Some e, w6) \<Rightarrow> Some (Failed (StatusFailed e), w6)
                                         | (None, w6) \<Rightarrow> Some (Done, w6))))))))"

definition Reconcile ::
    "'w reconciler_io \<Rightarrow> reconciler \<Rightarrow> string \<Rightarrow> string \<Rightarrow> 'w \<Rightarrow> (reconcile_result \<times> 'w) option" where
  "Reconcile io r namespace name w =
     (case k_GetRunnerPool io namespace name w of
        (Inl KNotFound, w1) \<Rightarrow> Some (Done, w1)
      | (Inl (KOther e), w1) \<Rightarrow> Some (Failed (GetPoolFailed (KOther e)), w1)
      | (Inr rp, w1) \<Rightarrow>
          if DeletionTimestamp (rp_meta rp) \<noteq> None then finalize_pool io rp w1
          else apply_pool io r rp w1)"


subsection \<open>The order of the effects\<close>

text \<open>The calls of \<open>Reconcile\<close> that change something, with their success, recorded in a log.\<close>

datatype revent =
    EStopRM bool
  | EStopSU bool
  | EUpdatePool runner_pool bool
  | ECreateSecret secret bool
  | EStartSU bool
  | EApply bool
  | EStartRM bool
  | EStatus runner_pool bool

definition log_call ::
    "(bool \<Rightarrow> revent) \<Rightarrow> ('w \<Rightarrow> 'e option \<times> 'w) \<Rightarrow> 'w \<times> revent list \<Rightarrow> 'e option \<times> 'w \<times> revent list" where
  "log_call ev f s = (case f (fst s) of (e, w') \<Rightarrow> (e, w', snd s @ [ev (e = None)]))"

definition log_manager ::
    "(bool \<Rightarrow> revent) \<Rightarrow> ('w \<Rightarrow> ('e option \<times> 'w) option) \<Rightarrow> 'w \<times> revent list \<Rightarrow>
       ('e option \<times> 'w \<times> revent list) option" where
  "log_manager ev f s =
     (case f (fst s) of None \<Rightarrow> None | Some (e, w') \<Rightarrow> Some (e, w', snd s @ [ev (e = None)]))"

definition log_get :: "('w \<Rightarrow> 'a \<times> 'w) \<Rightarrow> 'w \<times> revent list \<Rightarrow> 'a \<times> 'w \<times> revent list" where
  "log_get f s = (case f (fst s) of (a, w') \<Rightarrow> (a, w', snd s))"

definition logged :: "'w reconciler_io \<Rightarrow> ('w \<times> revent list) reconciler_io" where
  "logged io =
     \<lparr>k_GetRunnerPool = (\<lambda>ns n. log_get (k_GetRunnerPool io ns n)),
      k_UpdateRunnerPool = (\<lambda>rp. log_call (EUpdatePool rp) (k_UpdateRunnerPool io rp)),
      k_UpdateStatus = (\<lambda>rp. log_call (EStatus rp) (k_UpdateStatus io rp)),
      k_GetSecret = (\<lambda>ns n. log_get (k_GetSecret io ns n)),
      k_CreateSecret = (\<lambda>s. log_call (ECreateSecret s) (k_CreateSecret io s)),
      k_ApplyDeployment = (\<lambda>d f. log_call EApply (k_ApplyDeployment io d f)),
      k_lib = k_lib io,
      k_rmStartOrUpdate = (\<lambda>a. log_manager EStartRM (k_rmStartOrUpdate io a)),
      k_rmStop = (\<lambda>rp. log_manager EStopRM (k_rmStop io rp)),
      k_suStart = (\<lambda>a. log_manager EStartSU (k_suStart io a)),
      k_suStop = (\<lambda>rp. log_manager EStopSU (k_suStop io rp))\<rparr>"

lemma logged_simps [simp]:
  "k_GetRunnerPool (logged io) ns n = log_get (k_GetRunnerPool io ns n)"
  "k_UpdateRunnerPool (logged io) rp = log_call (EUpdatePool rp) (k_UpdateRunnerPool io rp)"
  "k_UpdateStatus (logged io) rp = log_call (EStatus rp) (k_UpdateStatus io rp)"
  "k_GetSecret (logged io) ns n = log_get (k_GetSecret io ns n)"
  "k_CreateSecret (logged io) sc = log_call (ECreateSecret sc) (k_CreateSecret io sc)"
  "k_ApplyDeployment (logged io) d f = log_call EApply (k_ApplyDeployment io d f)"
  "k_lib (logged io) = k_lib io"
  "k_rmStartOrUpdate (logged io) a = log_manager EStartRM (k_rmStartOrUpdate io a)"
  "k_rmStop (logged io) rp = log_manager EStopRM (k_rmStop io rp)"
  "k_suStart (logged io) a = log_manager EStartSU (k_suStart io a)"
  "k_suStop (logged io) rp = log_manager EStopSU (k_suStop io rp)"
  by (simp_all add: logged_def)

lemmas log_defs = log_call_def log_manager_def log_get_def

lemma finalize_pool_log:
  assumes "finalize_pool (logged io) rp (w, []) = Some (res, w', l)"
  shows "l = [] \<and> res = Done \<and> \<not> ContainsFinalizer (k_lib io) RunnerPoolFinalizer (Finalizers (rp_meta rp)) \<or>
    (\<exists>e. l = [EStopRM False] \<and> res = Failed (StopFailed e)) \<or>
    (\<exists>e. l = [EStopRM True, EStopSU False] \<and> res = Failed (StopFailed e)) \<or>
    (\<exists>ok. l = [EStopRM True, EStopSU True, EUpdatePool (without_finalizer (k_lib io) rp) ok] \<and>
       (ok \<longleftrightarrow> res = Done))"
  using assms
  by (auto simp: finalize_pool_def log_defs split: if_splits option.splits prod.splits)

lemma getGitHubCredential_log:
  "getGitHubCredential (logged io) rp (w, l) = (r, w', l') \<Longrightarrow> l' = l"
  by (auto simp: getGitHubCredential_def log_defs Let_def split: prod.splits sum.splits option.splits)

text \<open>The secret is there with its annotation (the result is true) or not; it may have been created.\<close>

lemma reconcileSecret_log:
  assumes "reconcileSecret (logged io) rp (w, l) = (r, w', l')"
  shows "(\<exists>sc ok. l' = l @ [ECreateSecret sc ok] \<and> r \<noteq> Inr True) \<or> l' = l"
    and "r = Inr True \<Longrightarrow> l' = l \<and>
      (\<exists>s. fst (k_GetSecret io (Namespace (rp_meta rp)) (GetRunnerSecretName rp) w) = Inr s \<and>
         gm_get (Annotations (sec_meta s)) RunnerSecretExpiresAtAnnotationKey \<noteq> None)"
  using assms
  by (auto simp: reconcileSecret_def log_defs split: prod.splits sum.splits kube_error.splits option.splits)

text \<open>The log of \<open>apply_pool\<close> once the credential and the secret are there.\<close>

lemma apply_pool_log:
  assumes "apply_pool (logged io) r rp (w, []) = Some (res, w', l)"
  shows "(\<exists>sc ok. l \<in> {[ECreateSecret sc ok], [ECreateSecret sc ok, EStartSU True], [ECreateSecret sc ok, EStartSU False]}) \<or>
    l \<in> {[], [EStartSU False], [EStartSU True]} \<or>
    (\<exists>ok. (l = [EStartSU True, EApply False] \<or> l = [EStartSU True, EApply True, EStartRM False] \<or>
        l = [EStartSU True, EApply True, EStartRM True, EStatus (rp\<lparr>Bound := True\<rparr>) ok] \<and> (ok \<longleftrightarrow> res = Done)) \<and>
     (\<exists>cred w1 s. getGitHubCredential io rp w = (Inr cred, w1) \<and>
        fst (k_GetSecret io (Namespace (rp_meta rp)) (GetRunnerSecretName rp) w1) = Inr s \<and>
        gm_get (Annotations (sec_meta s)) RunnerSecretExpiresAtAnnotationKey \<noteq> None))"
proof -
  have "fst (getGitHubCredential (logged io) rp (w, [])) = fst (getGitHubCredential io rp w)"
    "snd (getGitHubCredential (logged io) rp (w, [])) = (snd (getGitHubCredential io rp w), [])"
    by (auto simp: getGitHubCredential_def log_defs Let_def split: prod.splits sum.splits option.splits)
  then have cred: "getGitHubCredential (logged io) rp (w, []) =
      (fst (getGitHubCredential io rp w), snd (getGitHubCredential io rp w), [])"
    by (metis prod.collapse)
  show ?thesis
  proof (cases "validation r rp = None \<and> (\<exists>c. fst (getGitHubCredential io rp w) = Inr c)")
    case False
    then have "l = []" using assms cred by (auto simp: apply_pool_def split: option.splits sum.splits)
    then show ?thesis by simp
  next
    case True
    then obtain c w1 where c: "getGitHubCredential io rp w = (Inr c, w1)" by (metis prod.collapse)
    obtain sr w2 l2 where sec: "reconcileSecret (logged io) rp (w1, []) = (sr, w2, l2)"
      by (metis prod.collapse)
    note log = reconcileSecret_log [OF sec]
    show ?thesis
    proof (cases "sr = Inr True")
      case cont: True
      with log(2) obtain s where s: "l2 = []"
        "fst (k_GetSecret io (Namespace (rp_meta rp)) (GetRunnerSecretName rp) w1) = Inr s"
        "gm_get (Annotations (sec_meta s)) RunnerSecretExpiresAtAnnotationKey \<noteq> None" by auto
      then show ?thesis
        using assms True cred c sec cont
        by (simp add: apply_pool_def reconcileDeployment_def log_defs
            split: option.splits prod.splits if_splits) auto
    next
      case False
      then show ?thesis
        using assms True cred c sec log(1)
        by (auto simp: apply_pool_def log_defs split: option.splits prod.splits sum.splits)
    qed
  qed
qed


subsection \<open>Merging again changes nothing\<close>

lemma keys_put_all: "fst ` set es \<subseteq> fst ` set m \<Longrightarrow> map fst (put_all es m) = map fst m"
proof (induction es arbitrary: m)
  case (Cons e es)
  have "map fst (AList.update (fst e) (snd e) m) = map fst m"
    using Cons.prems by (simp add: AList.update_keys)
  moreover from this have "fst ` set (AList.update (fst e) (snd e) m) = fst ` set m"
    by (metis list.set_map)
  ultimately show ?case using Cons by (simp add: put_all_def case_prod_beta)
qed (simp add: put_all_def)

lemma alist_eqI:
  assumes "map fst xs = map fst ys" "distinct (map fst xs)" "map_of xs = map_of ys"
  shows "xs = ys"
proof (rule nth_equalityI)
  show len: "length xs = length ys" using assms(1) by (metis length_map)
  fix i assume i: "i < length xs"
  have f: "fst (xs ! i) = fst (ys ! i)" using assms(1) i len by (metis nth_map)
  have "map_of xs (fst (xs ! i)) = Some (snd (xs ! i))" "map_of ys (fst (ys ! i)) = Some (snd (ys ! i))"
    using assms(1,2) i len by (simp_all add: map_of_eq_Some_iff)
  with f assms(3) show "xs ! i = ys ! i" by (simp add: prod_eq_iff)
qed

lemma put_all_same:
  assumes "distinct (map fst m)" "distinct (map fst es)" "map_of es \<subseteq>\<^sub>m map_of m"
  shows "put_all es m = m"
proof (rule alist_eqI)
  have "dom (map_of es) \<subseteq> dom (map_of m)" using assms(3) by (rule map_le_implies_dom_le)
  then have "fst ` set es \<subseteq> fst ` set m" by (simp add: dom_map_of_conv_image_fst)
  then show "map fst (put_all es m) = map fst m" by (rule keys_put_all)
  show "distinct (map fst (put_all es m))" using assms(1) by (rule distinct_put_all)
  have "map_of m ++ map_of es = map_of m"
    using assms(3) by (auto simp: fun_eq_iff map_add_def map_le_def dom_def split: option.splits)
  then show "map_of (put_all es m) = map_of m" using assms(2) by (simp add: map_of_put_all)
qed

lemma put_all_empty_iff: "put_all es m = [] \<longleftrightarrow> es = [] \<and> m = []"
proof (induction es arbitrary: m)
  case (Cons e es)
  have "AList.update k v xs \<noteq> []" for k v and xs :: "(string \<times> string) list"
    by (cases xs) (auto split: prod.splits)
  with Cons show ?case by (simp add: put_all_def case_prod_beta)
qed (simp add: put_all_def)

lemma entries_mergeMap:
  "gm_wf m1 \<Longrightarrow> gm_entries (mergeMap m1 m2) = put_all (gm_entries m2) (gm_entries m1)"
  by (simp add: mergeMap_def Let_def gm_wf_def put_all_Nil)

lemma mergeMap_cong_entries:
  "gm_wf m1 \<Longrightarrow> gm_wf m1' \<Longrightarrow>
     put_all (gm_entries m2) (gm_entries m1) = put_all (gm_entries m2') (gm_entries m1') \<Longrightarrow>
     mergeMap m1 m2 = mergeMap m1' m2'"
  by (simp add: mergeMap_def Let_def gm_wf_def put_all_Nil)

lemma mergeMap_again:
  assumes "gm_wf m1" "gm_wf m2"
  shows "mergeMap (mergeMap m1 m2) m2 = mergeMap m1 m2"
proof (rule mergeMap_cong_entries [OF gm_wf_mergeMap assms(1)])
  let ?e = "put_all (gm_entries m2) (gm_entries m1)"
  have "map_of ?e = gm_get m1 ++ gm_get m2" using assms by (simp add: map_of_put_all gm_wf_def gm_get_eq)
  then have "map_of (gm_entries m2) \<subseteq>\<^sub>m map_of ?e" by (simp add: gm_get_eq)
  then have "put_all (gm_entries m2) ?e = ?e"
    using assms by (intro put_all_same) (simp_all add: distinct_put_all gm_wf_def)
  then show "put_all (gm_entries m2) (gm_entries (mergeMap m1 m2)) = put_all (gm_entries m2) (gm_entries m1)"
    by (simp add: entries_mergeMap assms)
qed

lemma mergeMap_again2:
  assumes "gm_wf m" "gm_wf a" "gm_wf b"
  shows "mergeMap (mergeMap (mergeMap (mergeMap m a) b) a) b = mergeMap (mergeMap m a) b"
proof (rule mergeMap_cong_entries [OF gm_wf_mergeMap gm_wf_mergeMap])
  let ?t = "put_all (gm_entries b) (put_all (gm_entries a) (gm_entries m))"
  have d: "distinct (map fst ?t)" using assms by (simp add: distinct_put_all gm_wf_def)
  have t: "map_of ?t = gm_get m ++ gm_get a ++ gm_get b"
    using assms by (simp add: map_of_put_all gm_wf_def gm_get_eq)
  let ?u = "put_all (gm_entries b) (put_all (gm_entries a) ?t)"
  have doms: "fst ` set (gm_entries a) \<subseteq> fst ` set ?t" "fst ` set (gm_entries b) \<subseteq> fst ` set ?t"
    by (auto simp: t gm_get_eq simp flip: dom_map_of_conv_image_fst)
  have ka: "map fst (put_all (gm_entries a) ?t) = map fst ?t" by (rule keys_put_all [OF doms(1)])
  then have "fst ` set (gm_entries b) \<subseteq> fst ` set (put_all (gm_entries a) ?t)"
    using doms(2) by (metis list.set_map)
  from keys_put_all [OF this] ka have "map fst ?u = map fst ?t" by simp
  moreover have "map_of ?u = map_of ?t"
    using assms by (auto simp: map_of_put_all [of "gm_entries b"] map_of_put_all [of "gm_entries a"] t gm_wf_def
        gm_get_eq fun_eq_iff map_add_def split: option.splits)
  ultimately have "?u = ?t" using d by (intro alist_eqI) simp_all
  then show "put_all (gm_entries b) (gm_entries (mergeMap (mergeMap (mergeMap m a) b) a)) =
      put_all (gm_entries b) (gm_entries (mergeMap m a))"
    by (simp add: entries_mergeMap assms)
qed


subsection \<open>The deployment, reconciled again\<close>

lemma update_runner_again:
  assumes "\<And>c. f (f c) = f c" "\<And>c. c_Name (f c) = c_Name c"
  shows "update_runner f (update_runner f cs) = update_runner f cs"
  by (induction cs) (simp_all add: assms)

lemma find_update_runner:
  assumes "\<And>c. c_Name (f c) = c_Name c"
  shows "findRunnerContainer (update_runner f cs) = map_option f (findRunnerContainer cs)"
  unfolding findRunnerContainer_def by (induction cs) (simp_all add: assms)

lemma find_snoc: "find P xs = None \<Longrightarrow> find P (xs @ [x]) = (if P x then Some x else None)"
  by (induction xs) (auto split: if_splits)

lemma find_addRunner: "\<exists>c. findRunnerContainer (addRunnerContainerIfNotExists cs) = Some c"
proof (cases "findRunnerContainer cs")
  case None
  then show ?thesis
    unfolding addRunnerContainerIfNotExists_def findRunnerContainer_def
    by (simp add: find_snoc)
qed (simp add: addRunnerContainerIfNotExists_def)

lemma addRunner_present: "findRunnerContainer cs = Some c \<Longrightarrow> addRunnerContainerIfNotExists cs = cs"
  by (simp add: addRunnerContainerIfNotExists_def)

lemma set_runner_container_again:
  "set_runner_container img rp (set_runner_container img rp c) = set_runner_container img rp c"
  "c_Name (set_runner_container img rp c) = c_Name c"
  by (simp_all add: set_runner_container_def Let_def)

lemma containers_again:
  "update_runner (set_runner_container img rp) (addRunnerContainerIfNotExists
      (update_runner (set_runner_container img rp) (addRunnerContainerIfNotExists cs))) =
   update_runner (set_runner_container img rp) (addRunnerContainerIfNotExists cs)"
proof -
  let ?f = "set_runner_container img rp"
  obtain c where "findRunnerContainer (addRunnerContainerIfNotExists cs) = Some c" using find_addRunner by blast
  then have "findRunnerContainer (update_runner ?f (addRunnerContainerIfNotExists cs)) = Some (?f c)"
    by (simp add: find_update_runner set_runner_container_again)
  from addRunner_present [OF this] show ?thesis
    by (simp add: update_runner_again set_runner_container_again)
qed

lemma set_pod_spec_again: "set_pod_spec img rp (set_pod_spec img rp ps) = set_pod_spec img rp ps"
  by (simp add: set_pod_spec_def Let_def containers_again split: option.split)

lemma labelSet_wf [simp]: "gm_wf (labelSet rp)"
  by (simp add: labelSet_def gm_wf_def label_key_defs)

definition deployment_wf :: "deployment \<Rightarrow> bool" where
  "deployment_wf d \<longleftrightarrow> gm_wf (Labels (d_meta d)) \<and> gm_wf (d_tmpl_Labels d) \<and> gm_wf (d_tmpl_Annotations d)"

definition template_wf :: "runner_pool \<Rightarrow> bool" where
  "template_wf rp \<longleftrightarrow>
     gm_wf (tmpl_Labels (sp_Template (Spec rp))) \<and> gm_wf (tmpl_Annotations (sp_Template (Spec rp)))"

lemma mutate_deployment_fields:
  assumes "mutate_deployment lib img rp d = Inr d'" "controller_ref_laws lib"
  shows "d_tmpl_Labels d' = mergeMap (mergeMap (d_tmpl_Labels d) (tmpl_Labels (sp_Template (Spec rp)))) (labelSet rp)"
    "d_Selector d' = Some (labelSet rp)" "d_pod_spec d' = set_pod_spec img rp (d_pod_spec d)"
    "Labels (d_meta d') = mergeMap (Labels (d_meta d)) (labelSet rp)"
    "d_Replicas d' = Some (sp_Replicas (Spec rp))"
proof -
  let ?m = "(d_meta d)\<lparr>Labels := mergeMap (Labels (d_meta d)) (labelSet rp)\<rparr>"
  obtain mt where mt: "SetControllerReference lib (rp_meta rp) ?m = Inr mt"
    using assms(1) by (auto simp: mutate_deployment_def Let_def split: sum.splits)
  then have m: "mt = ?m\<lparr>OwnerReferences := OwnerReferences mt\<rparr>"
    using assms(2) unfolding controller_ref_laws_def by blast
  from arg_cong [OF m, of Labels] have "Labels mt = mergeMap (Labels (d_meta d)) (labelSet rp)" by simp
  then show "d_tmpl_Labels d' = mergeMap (mergeMap (d_tmpl_Labels d) (tmpl_Labels (sp_Template (Spec rp)))) (labelSet rp)"
    "d_Selector d' = Some (labelSet rp)" "d_pod_spec d' = set_pod_spec img rp (d_pod_spec d)"
    "Labels (d_meta d') = mergeMap (Labels (d_meta d)) (labelSet rp)"
    "d_Replicas d' = Some (sp_Replicas (Spec rp))"
    using assms(1) mt by (auto simp: mutate_deployment_def Let_def)
qed

lemma mutate_deployment_again:
  assumes "mutate_deployment lib img rp d = Inr d'" "controller_ref_laws lib" "deployment_wf d" "template_wf rp"
  shows "mutate_deployment lib img rp d' = Inr d'"
proof -
  note f = mutate_deployment_fields [OF assms(1,2)]
  let ?m = "(d_meta d)\<lparr>Labels := mergeMap (Labels (d_meta d)) (labelSet rp)\<rparr>"
  obtain mt where mt: "SetControllerReference lib (rp_meta rp) ?m = Inr mt"
    and d': "d' = d\<lparr>d_meta := mt, d_Selector := Some (labelSet rp),
       d_tmpl_Labels := mergeMap (mergeMap (d_tmpl_Labels d) (tmpl_Labels (sp_Template (Spec rp)))) (labelSet rp),
       d_tmpl_Annotations := mergeMap (d_tmpl_Annotations d) (tmpl_Annotations (sp_Template (Spec rp))),
       d_Replicas := Some (sp_Replicas (Spec rp)), d_pod_spec := set_pod_spec img rp (d_pod_spec d)\<rparr>"
    using assms(1) by (auto simp: mutate_deployment_def Let_def split: sum.splits)
  have again: "SetControllerReference lib (rp_meta rp) mt = Inr mt"
    using assms(2) mt unfolding controller_ref_laws_def by blast
  have lab: "Labels mt = mergeMap (Labels (d_meta d)) (labelSet rp)" using f(4) d' by simp
  have "mt\<lparr>Labels := mergeMap (Labels mt) (labelSet rp)\<rparr> = mt"
    using assms(3) lab by (simp add: mergeMap_again deployment_wf_def)
  with again show ?thesis
    using assms(3,4)
    by (simp add: d' mutate_deployment_def Let_def set_pod_spec_again mergeMap_again mergeMap_again2
        deployment_wf_def template_wf_def)
qed

subsection \<open>The environment of the runner container\<close>

text \<open>
  The environment the kubelet gives to a container: the name or the namespace of the pod for a field reference,
  \<open>other\<close> for everything else that is referred to, and for a plain value its expansion: references \<open>$(VAR)\<close> to
  the service variables and to the variables defined earlier in the list are replaced, and \<open>$$\<close> becomes a
  single dollar sign (the description of \<open>value\<close> in \<open>config/crd/bases/meows.cybozu.com_runnerpools.yaml\<close>). The
  expansion is code of Kubernetes and a parameter; of it the theorem uses that a value without a dollar sign
  stays as it is. \<open>dollar_expand\<close> is an expansion as described, for the witness.
\<close>

type_synonym expansion = "(string \<rightharpoonup> string) \<Rightarrow> string \<Rightarrow> string"

definition plain_unchanged :: "expansion \<Rightarrow> bool" where
  "plain_unchanged expand \<longleftrightarrow> (\<forall>known s. CHR ''$'' \<notin> set s \<longrightarrow> expand known s = s)"

fun dollar_expand :: expansion where
  "dollar_expand known [] = []"
| "dollar_expand known (c # cs) =
     (if c \<noteq> CHR ''$'' then c # dollar_expand known cs
      else case cs of
        [] \<Rightarrow> [c]
      | d # ds \<Rightarrow>
          if d = CHR ''$'' then c # dollar_expand known ds
          else if d = CHR ''('' \<and> CHR '')'' \<in> set ds
          then (let name = takeWhile (\<lambda>x. x \<noteq> CHR '')'') ds; rest = drop (Suc (length name)) ds
                in (case known name of None \<Rightarrow> c # d # name @ '')'' | Some v \<Rightarrow> v) @ dollar_expand known rest)
          else c # d # dollar_expand known ds)"

lemma dollar_expand_plain: "plain_unchanged dollar_expand"
proof -
  have "CHR ''$'' \<notin> set s \<Longrightarrow> dollar_expand known s = s" for known s
    by (induction s) auto
  then show ?thesis by (simp add: plain_unchanged_def)
qed

definition env_value :: "(string \<Rightarrow> string) \<Rightarrow> (env_var \<Rightarrow> string) \<Rightarrow> string \<Rightarrow> string \<Rightarrow> env_var \<Rightarrow> string" where
  "env_value expand other name ns e =
     (case ev_ValueFrom e of
        None \<Rightarrow> expand (ev_Value e)
      | Some (FieldRef v path) \<Rightarrow>
          if path = ''metadata.name'' then name else if path = ''metadata.namespace'' then ns else other e
      | Some (OtherValueFrom j) \<Rightarrow> other e)"

fun container_environ ::
    "expansion \<Rightarrow> (string \<rightharpoonup> string) \<Rightarrow> (env_var \<Rightarrow> string) \<Rightarrow> string \<Rightarrow> string \<Rightarrow> env_var list \<Rightarrow> environ" where
  "container_environ expand known other name ns [] = []"
| "container_environ expand known other name ns (e # es) =
     (let v = env_value (expand known) other name ns e
      in (ev_Name e @ ''='' @ v) # container_environ expand (known(ev_Name e \<mapsto> v)) other name ns es)"

text \<open>JSON of strings without a dollar sign has none.\<close>

lemma hex_chr_dollar: "list_all (\<lambda>d. CHR ''$'' \<noteq> hex_chr d) [0..<16]"
  by code_simp

lemma escape_no_dollar:
  assumes "c \<noteq> CHR ''$''"
  shows "CHR ''$'' \<notin> set (escape_chr c)"
proof -
  define n where "n = (of_char c :: nat)"
  have "n < 256" by (simp add: n_def)
  then have "n div 16 < 16" "n mod 16 < 16" by auto
  then have hex: "CHR ''$'' \<noteq> hex_chr (n div 16)" "CHR ''$'' \<noteq> hex_chr (n mod 16)"
    using hex_chr_dollar unfolding list_all_iff set_upt by force+
  show ?thesis
    using assms hex unfolding escape_chr_def Let_def n_def [symmetric] by (simp only: split: if_split) simp
qed

lemma print_str_no_dollar: "CHR ''$'' \<notin> set s \<Longrightarrow> CHR ''$'' \<notin> set (print_str s)"
proof -
  have "CHR ''$'' \<notin> set s \<Longrightarrow> CHR ''$'' \<notin> set (concat (map escape_chr s))"
  proof (induction s)
    case (Cons c s)
    then have "CHR ''$'' \<notin> set (escape_chr c)" by (intro escape_no_dollar) auto
    with Cons show ?case by simp
  qed simp
  then show "CHR ''$'' \<notin> set s \<Longrightarrow> CHR ''$'' \<notin> set (print_str s)" by (simp add: print_str_def)
qed

lemma option_json_no_dollar:
  assumes "\<forall>c\<in>set cmd. CHR ''$'' \<notin> set c"
  shows "CHR ''$'' \<notin> set (print_json (option_json cmd))"
proof -
  have "\<forall>c\<in>set cmd. CHR ''$'' \<notin> set c \<Longrightarrow> CHR ''$'' \<notin> set (print_elems (map JStr cmd))" for cmd
  proof (induction cmd)
    case (Cons c cmd)
    then show ?case by (cases cmd) (auto simp: print_str_no_dollar)
  qed simp
  moreover have "CHR ''$'' \<notin> set (print_str ''setup_command'')" by (rule print_str_no_dollar) simp
  ultimately show ?thesis using assms by (simp add: option_json_def)
qed

lemma env_key_entry: "CHR ''='' \<notin> set n \<Longrightarrow> env_key (n @ ''='' @ v) = n"
  by (simp add: env_key_def takeWhile_append)

lemma getenv_Cons:
  assumes "CHR ''='' \<notin> set n"
  shows "getenv ((n @ ''='' @ v) # es) k = (if n = k then v else getenv es k)"
proof -
  have "dropWhile (\<lambda>c. c \<noteq> CHR ''='') (n @ ''='' @ v) = ''='' @ v"
    using assms by (subst dropWhile_append2) auto
  then show ?thesis using env_key_entry [OF assms, of v] by (auto simp: getenv_def)
qed

lemma getenv_absent: "\<forall>e\<in>set es. env_key e \<noteq> k \<Longrightarrow> getenv es k = []"
proof -
  assume "\<forall>e\<in>set es. env_key e \<noteq> k"
  then have "find (\<lambda>e. CHR ''='' \<in> set e \<and> env_key e = k) es = None" by (simp add: find_None_iff)
  then show ?thesis by (simp add: getenv_def)
qed

lemma env_names_plain:
  "CHR ''='' \<notin> set PodNameEnvName" "CHR ''='' \<notin> set PodNamespaceEnvName" "CHR ''='' \<notin> set RunnerOrgEnvName"
  "CHR ''='' \<notin> set RunnerRepoEnvName" "CHR ''='' \<notin> set RunnerPoolNameEnvName" "CHR ''='' \<notin> set RunnerOptionEnvName"
  by (simp_all add: env_name_defs)

lemma getenv_container:
  "CHR ''='' \<notin> set (ev_Name e) \<Longrightarrow>
     getenv (container_environ expand known other name ns (e # es)) k =
       (let v = env_value (expand known) other name ns e
        in if ev_Name e = k then v else getenv (container_environ expand (known(ev_Name e \<mapsto> v)) other name ns es) k)"
  using getenv_Cons [of "ev_Name e"] by (simp add: Let_def)

lemma getenv_user:
  assumes "\<forall>e\<in>set es. CHR ''='' \<notin> set (ev_Name e) \<and> \<not> reservedEnvNames (ev_Name e)" "reservedEnvNames k"
  shows "getenv (container_environ expand known other name ns es) k = []"
proof (rule getenv_absent)
  show "\<forall>e\<in>set (container_environ expand known other name ns es). env_key e \<noteq> k"
    using assms env_key_entry by (induction es arbitrary: known) (auto simp: Let_def)
qed


subsection \<open>Properties\<close>

text \<open>A cluster for the witnesses: every call succeeds, the secrets are as given.\<close>

definition ready_secret :: secret where
  "ready_secret = empty_secret\<lparr>sec_meta := empty_meta\<lparr>Annotations :=
       Some [(RunnerSecretExpiresAtAnnotationKey, ''2024-01-01T00:00:00Z'')]\<rparr>,
     sec_Data := Some [(CredentialSecretDataPATToken, ''pat'')]\<rparr>"

definition calm_io :: "runner_pool \<Rightarrow> unit reconciler_io" where
  "calm_io rp =
     \<lparr>k_GetRunnerPool = (\<lambda>ns n w. (Inr rp, w)), k_UpdateRunnerPool = (\<lambda>q w. (None, w)),
      k_UpdateStatus = (\<lambda>q w. (None, w)), k_GetSecret = (\<lambda>ns n w. (Inr ready_secret, w)),
      k_CreateSecret = (\<lambda>sc w. (None, w)), k_ApplyDeployment = (\<lambda>d f w. (None, w)), k_lib = plain_lib,
      k_rmStartOrUpdate = (\<lambda>a w. Some (None, w)), k_rmStop = (\<lambda>q w. Some (None, w)),
      k_suStart = (\<lambda>a w. Some (None, w)), k_suStop = (\<lambda>q w. Some (None, w))\<rparr>"

definition open_reconciler :: reconciler where
  "open_reconciler = \<lparr>rc_runnerImage = ''runner:latest'', rc_organizationRegexp = None, rc_repositoryRegexp = None\<rparr>"

definition deleting_pool :: runner_pool where
  "deleting_pool = sample_pool\<lparr>rp_meta := (rp_meta sample_pool)\<lparr>DeletionTimestamp := Some 5,
     Finalizers := [''other'', RunnerPoolFinalizer]\<rparr>\<rparr>"

lemma deleting_round:
  "Reconcile (logged (calm_io deleting_pool)) open_reconciler ''ns'' ''pool'' ((), []) =
     Some (Done, (), [EStopRM True, EStopSU True, EUpdatePool (without_finalizer plain_lib deleting_pool) True])"
  by (simp add: Reconcile_def log_defs calm_io_def finalize_pool_def) (simp add: deleting_pool_def plain_lib_def)

lemma bound_round:
  "Reconcile (logged (calm_io sample_pool)) open_reconciler ''ns'' ''pool'' ((), []) =
     Some (Done, (), [EStartSU True, EApply True, EStartRM True, EStatus (sample_pool\<lparr>Bound := True\<rparr>) True])"
proof -
  have del: "DeletionTimestamp (rp_meta sample_pool) = None" by (simp add: sample_pool_def empty_meta_def)
  have val: "validation open_reconciler sample_pool = None"
    by (simp add: validation_def open_reconciler_def)
  obtain c where cred: "getGitHubCredential (logged (calm_io sample_pool)) sample_pool ((), []) = (Inr c, (), [])"
    by (simp add: getGitHubCredential_def log_get_def Let_def calm_io_def) (simp add: ready_secret_def gm_get_def)
  have sec: "reconcileSecret (logged (calm_io sample_pool)) sample_pool ((), []) = (Inr True, (), [])"
    by (simp add: reconcileSecret_def log_get_def calm_io_def) (simp add: ready_secret_def gm_get_def)
  have dep: "reconcileDeployment (logged (calm_io sample_pool)) open_reconciler sample_pool ((), l) =
      (None, (), l @ [EApply True])" for l
    by (simp add: reconcileDeployment_def log_call_def) (simp add: calm_io_def)
  have calls: "k_GetRunnerPool (calm_io sample_pool) ''ns'' ''pool'' () = (Inr sample_pool, ())"
    "k_suStart (calm_io sample_pool) a () = Some (None, ())"
    "k_rmStartOrUpdate (calm_io sample_pool) a () = Some (None, ())"
    "k_UpdateStatus (calm_io sample_pool) q () = (None, ())" for a q
    by (simp_all add: calm_io_def)
  have "Reconcile (logged (calm_io sample_pool)) open_reconciler ''ns'' ''pool'' ((), []) =
      apply_pool (logged (calm_io sample_pool)) open_reconciler sample_pool ((), [])"
    unfolding Reconcile_def logged_simps log_get_def fst_conv snd_conv calls prod.case sum.case del by simp
  also have "\<dots> =
      Some (Done, (), [EStartSU True, EApply True, EStartRM True, EStatus (sample_pool\<lparr>Bound := True\<rparr>) True])"
    unfolding apply_pool_def val cred option.case prod.case sum.case sec logged_simps log_manager_def fst_conv
      snd_conv calls append.simps dep log_call_def by simp
  finally show ?thesis .
qed

text \<open>
  C5. The finalizer of a pool is removed only after both processes of the pool have stopped: a call
  that writes the pool comes third, after a successful \<open>Stop\<close> of the runner manager and one of the
  secret updater, in a round for a pool that is being deleted, and what it writes is the pool without
  this finalizer and with all others. The round reports success exactly when that write succeeded.
\<close>

theorem finalizer_removed_last:
  assumes "Reconcile (logged io) r ns n (w, []) = Some (res, w', log)" and "EUpdatePool q ok \<in> set log"
    and "finalizer_laws (k_lib io)"
  shows "log = [EStopRM True, EStopSU True, EUpdatePool q ok] \<and> (ok \<longleftrightarrow> res = Done) \<and>
    (\<exists>rp w1. k_GetRunnerPool io ns n w = (Inr rp, w1) \<and> DeletionTimestamp (rp_meta rp) \<noteq> None \<and>
       set (Finalizers (rp_meta q)) = set (Finalizers (rp_meta rp)) - {RunnerPoolFinalizer} \<and> Spec q = Spec rp)"
proof -
  obtain rp w1 where rp: "k_GetRunnerPool io ns n w = (Inr rp, w1)"
    using assms(1,2)
    by (cases "k_GetRunnerPool io ns n w") (auto simp: Reconcile_def log_defs split: sum.splits kube_error.splits)
  have del: "DeletionTimestamp (rp_meta rp) \<noteq> None"
  proof
    assume "DeletionTimestamp (rp_meta rp) = None"
    with assms(1) rp have "apply_pool (logged io) r rp (w1, []) = Some (res, w', log)"
      by (simp add: Reconcile_def log_defs)
    from apply_pool_log [OF this] assms(2) show False by auto
  qed
  with assms(1) rp have "finalize_pool (logged io) rp (w1, []) = Some (res, w', log)"
    by (auto simp: Reconcile_def log_defs)
  from finalize_pool_log [OF this] assms(2) have
    log: "log = [EStopRM True, EStopSU True, EUpdatePool q ok]" "ok \<longleftrightarrow> res = Done"
      "q = without_finalizer (k_lib io) rp" by auto
  from assms(3) have "set (Finalizers (rp_meta q)) = set (Finalizers (rp_meta rp)) - {RunnerPoolFinalizer}"
    by (simp add: log(3) without_finalizer_def finalizer_laws_def)
  with log rp del show ?thesis by (auto simp: without_finalizer_def)
qed

theorem finalizer_removed_last_witness:
  "set (Finalizers (rp_meta (without_finalizer plain_lib deleting_pool))) = {''other''}"
proof -
  have "EUpdatePool (without_finalizer plain_lib deleting_pool) True \<in>
      set [EStopRM True, EStopSU True, EUpdatePool (without_finalizer plain_lib deleting_pool) True]" by simp
  moreover have "finalizer_laws (k_lib (calm_io deleting_pool))" by (simp add: calm_io_def plain_lib_laws)
  ultimately obtain rp w1 where "k_GetRunnerPool (calm_io deleting_pool) ''ns'' ''pool'' () = (Inr rp, w1)"
    "set (Finalizers (rp_meta (without_finalizer plain_lib deleting_pool))) =
       set (Finalizers (rp_meta rp)) - {RunnerPoolFinalizer}"
    using finalizer_removed_last [OF deleting_round] by blast
  moreover from this(1) have "rp = deleting_pool" by (simp add: calm_io_def)
  moreover have "set (Finalizers (rp_meta deleting_pool)) = {''other'', RunnerPoolFinalizer}"
    by (simp add: deleting_pool_def insert_commute)
  moreover have "''other'' \<noteq> RunnerPoolFinalizer" by (simp add: RunnerPoolFinalizer_def)
  ultimately show ?thesis by (simp add: insert_Diff_if)
qed

text \<open>
  C6. The deployment is touched only when a registration token is there, and a pool is bound only
  after everything worked: a round that applies the deployment has started the secret updater first
  and has read the secret of the pool with its expiry annotation; a round that writes the status
  writes the pool with \<open>Bound\<close> set, after the secret updater was started, the deployment applied and the
  runner manager started, all with success, and reports success exactly when the write succeeded.
\<close>

theorem bound_only_after_success:
  assumes "Reconcile (logged io) r ns n (w, []) = Some (res, w', log)" and "EApply ok \<in> set log \<or> EStatus q ok \<in> set log"
  shows "\<exists>rp w1 cred w2 sc. k_GetRunnerPool io ns n w = (Inr rp, w1) \<and>
    getGitHubCredential io rp w1 = (Inr cred, w2) \<and>
    fst (k_GetSecret io (Namespace (rp_meta rp)) (GetRunnerSecretName rp) w2) = Inr sc \<and>
    gm_get (Annotations (sec_meta sc)) RunnerSecretExpiresAtAnnotationKey \<noteq> None \<and>
    take 1 log = [EStartSU True] \<and>
    (EStatus q ok \<in> set log \<longrightarrow>
       log = [EStartSU True, EApply True, EStartRM True, EStatus (rp\<lparr>Bound := True\<rparr>) ok] \<and> (ok \<longleftrightarrow> res = Done))"
proof -
  obtain rp w1 where rp: "k_GetRunnerPool io ns n w = (Inr rp, w1)"
    using assms
    by (cases "k_GetRunnerPool io ns n w") (auto simp: Reconcile_def log_defs split: sum.splits kube_error.splits)
  have "DeletionTimestamp (rp_meta rp) = None"
  proof (rule ccontr)
    assume "DeletionTimestamp (rp_meta rp) \<noteq> None"
    with assms(1) rp have "finalize_pool (logged io) rp (w1, []) = Some (res, w', log)"
      by (auto simp: Reconcile_def log_defs)
    from finalize_pool_log [OF this] assms(2) show False by auto
  qed
  with assms(1) rp have "apply_pool (logged io) r rp (w1, []) = Some (res, w', log)"
    by (simp add: Reconcile_def log_defs)
  from apply_pool_log [OF this] assms(2) rp show ?thesis by auto
qed

theorem bound_only_after_success_witness:
  "\<exists>sc. fst (k_GetSecret (calm_io sample_pool) ''ns'' ''runner-token-pool'' ()) = Inr sc \<and>
     gm_get (Annotations (sec_meta sc)) RunnerSecretExpiresAtAnnotationKey \<noteq> None"
  using bound_only_after_success [OF bound_round, of True "sample_pool\<lparr>Bound := True\<rparr>"]
  by (auto simp: calm_io_def)

text \<open>
  C20. Reconciling a deployment is idempotent: what the mutate function made of a deployment it leaves
  exactly as it is, labels, annotations, containers and all, so that an unchanged pool causes no
  update of the deployment.
\<close>

theorem mutate_deployment_idempotent:
  assumes "controller_ref_laws lib" and "deployment_wf d" and "template_wf rp"
    and "mutate_deployment lib img rp d = Inr d'"
  shows "mutate_deployment lib img rp d' = Inr d'"
  using assms by (intro mutate_deployment_again)

lemma new_deployment_mutated: "\<exists>d'. mutate_deployment plain_lib img rp (new_deployment rp) = Inr d'"
  by (simp add: mutate_deployment_def Let_def plain_lib_def new_deployment_def empty_meta_def)

lemma new_deployment_wf: "deployment_wf (new_deployment rp)" "template_wf sample_pool"
  by (simp_all add: deployment_wf_def new_deployment_def empty_meta_def gm_wf_def template_wf_def sample_pool_def
      sample_spec_def sample_template_def)

theorem mutate_deployment_idempotent_witness:
  "\<exists>d'. mutate_deployment plain_lib ''runner:latest'' sample_pool (new_deployment sample_pool) = Inr d' \<and>
     mutate_deployment plain_lib ''runner:latest'' sample_pool d' = Inr d'"
  using mutate_deployment_idempotent [OF plain_lib_laws(2) new_deployment_wf] new_deployment_mutated by blast

text \<open>
  C21. The pods of a deployment are found again: whatever labels the template of the pool sets, the pod
  template of the reconciled deployment carries every label by which the runner manager of this pool
  selects its pods, the same labels are the selector of the deployment, and every label of the
  template that is not one of them is kept.
\<close>

theorem template_selected:
  assumes "controller_ref_laws lib" and "deployment_wf d" and "template_wf rp"
    and "mutate_deployment lib img rp d = Inr d'"
  shows "(\<forall>(k, v)\<in>set (runner_selector (Name (rp_meta rp))). gm_get (d_tmpl_Labels d') k = Some v) \<and>
    d_Selector d' = Some (Some (runner_selector (Name (rp_meta rp)))) \<and>
    (\<forall>k v. gm_get (tmpl_Labels (sp_Template (Spec rp))) k = Some v \<and>
       k \<notin> {AppNameLabelKey, AppComponentLabelKey, AppInstanceLabelKey} \<longrightarrow> gm_get (d_tmpl_Labels d') k = Some v)"
proof -
  note f = mutate_deployment_fields [OF assms(4,1)]
  have wf: "gm_wf (d_tmpl_Labels d)" "gm_wf (tmpl_Labels (sp_Template (Spec rp)))"
    using assms(2,3) by (simp_all add: deployment_wf_def template_wf_def)
  have "gm_get (d_tmpl_Labels d') =
      gm_get (d_tmpl_Labels d) ++ gm_get (tmpl_Labels (sp_Template (Spec rp))) ++ gm_get (labelSet rp)"
    unfolding f(1) using wf by (simp add: gm_get_mergeMap)
  moreover have "labelSet rp = Some (runner_selector (Name (rp_meta rp)))"
    by (simp add: labelSet_def runner_selector_def)
  moreover have "distinct [AppNameLabelKey, AppComponentLabelKey, AppInstanceLabelKey]"
    by (simp add: label_key_defs)
  ultimately show ?thesis
    by (auto simp: f(2) runner_selector_def gm_get_def map_add_def)
qed

theorem template_selected_witness:
  "\<exists>d'. mutate_deployment plain_lib ''runner:latest'' sample_pool (new_deployment sample_pool) = Inr d' \<and>
     gm_get (d_tmpl_Labels d') AppInstanceLabelKey = Some ''pool'' \<and> gm_get (d_tmpl_Labels d') ''team'' = Some ''a''"
proof -
  obtain d' where d': "mutate_deployment plain_lib ''runner:latest'' sample_pool (new_deployment sample_pool) = Inr d'"
    using new_deployment_mutated by blast
  have "gm_get (tmpl_Labels (sp_Template (Spec sample_pool))) ''team'' = Some ''a''"
    "''team'' \<notin> {AppNameLabelKey, AppComponentLabelKey, AppInstanceLabelKey}"
    by (simp_all add: sample_pool_def sample_spec_def sample_template_def gm_get_def label_key_defs)
  with template_selected [OF plain_lib_laws(2) new_deployment_wf d'] have
    "gm_get (d_tmpl_Labels d') ''team'' = Some ''a''"
    "gm_get (d_tmpl_Labels d') AppInstanceLabelKey = Some (Name (rp_meta sample_pool))"
    by (blast, simp add: runner_selector_def)
  with d' show ?thesis by (simp add: sample_pool_def)
qed



text \<open>
  With a dollar sign it can be otherwise: the controller does not escape the setup command, so the runner runs
  another command than the spec names.
\<close>

lemma setup_command_rewritten:
  "map_sum id setupCommand (newRunnerEnvs (container_environ dollar_expand Map.empty (\<lambda>e. []) ''pod-1'' ''ns''
     (makeRunnerContainerEnv (sample_pool\<lparr>Spec := sample_spec\<lparr>sp_SetupCommand := [''echo'', ''$$'', ''$('' @ PodNameEnvName @ '')'']\<rparr>\<rparr>)))) =
     Inr [''echo'', ''$'', ''pod-1'']"
  by code_simp

end
