(* ===== verification/Controller_System.thy ===== *)
theory Controller_System
  imports Reconciler
begin

section \<open>The controller as a whole\<close>

text \<open>
  The reconciler, the runner manager with its processes, the secret updater with its processes and the
  metrics, on one shared state. \<open>controller_io\<close> gives the reconciler the two managers as the code wires
  them in \<open>cmd/controller\<close>; \<open>controller_step\<close> interleaves rounds of the reconciler, ticks of the
  processes, turns of the updaters and changes of the outside world. Mutexes make the calls of the
  managers atomic; a round of a process is taken as one step. \<open>controller_wf\<close> is the invariant of the
  reachable states: every process is stored under the name of its pool, and the series of the metrics
  (online, busy, replicas, retries) are those of the running processes.
\<close>

subsection \<open>State and wiring\<close>

record 'w controller =
  c_rm_stopped :: bool
  c_rm_processes :: "(string \<times> 'w manage_process) list"
  c_su_stopped :: bool
  c_su_processes :: "(string \<times> 'w updater) list"
  c_metrics :: controller_metrics
  c_world :: 'w

definition rm_part :: "'w controller \<Rightarrow> 'w rm_state" where
  "rm_part c = \<lparr>rm_stopped = c_rm_stopped c, rm_processes = c_rm_processes c, rm_metrics = c_metrics c,
     rm_world = c_world c\<rparr>"

definition set_rm :: "'w controller \<Rightarrow> 'w rm_state \<Rightarrow> 'w controller" where
  "set_rm c s = c\<lparr>c_rm_stopped := rm_stopped s, c_rm_processes := rm_processes s, c_metrics := rm_metrics s,
     c_world := rm_world s\<rparr>"

definition su_part :: "'w controller \<Rightarrow> 'w su_state" where
  "su_part c = \<lparr>su_stopped = c_su_stopped c, su_processes = c_su_processes c, su_metrics = c_metrics c,
     su_world = c_world c\<rparr>"

definition set_su :: "'w controller \<Rightarrow> 'w su_state \<Rightarrow> 'w controller" where
  "set_su c s = c\<lparr>c_su_stopped := su_stopped s, c_su_processes := su_processes s, c_metrics := su_metrics s,
     c_world := su_world s\<rparr>"

definition on_rm ::
    "('w rm_state \<Rightarrow> ('e \<times> 'w rm_state) option) \<Rightarrow> 'w controller \<Rightarrow> ('e \<times> 'w controller) option" where
  "on_rm f c = (case f (rm_part c) of None \<Rightarrow> None | Some (e, s) \<Rightarrow> Some (e, set_rm c s))"

definition on_su ::
    "('w su_state \<Rightarrow> ('e \<times> 'w su_state) option) \<Rightarrow> 'w controller \<Rightarrow> ('e \<times> 'w controller) option" where
  "on_su f c = (case f (su_part c) of None \<Rightarrow> None | Some (e, s) \<Rightarrow> Some (e, set_su c s))"

definition on_world :: "('w \<Rightarrow> 'a \<times> 'w) \<Rightarrow> 'w controller \<Rightarrow> 'a \<times> 'w controller" where
  "on_world f c = (case f (c_world c) of (a, w) \<Rightarrow> (a, c\<lparr>c_world := w\<rparr>))"

text \<open>\<open>Stop\<close> takes a pool only; the credential of the model's interface is not read.\<close>

definition no_credential :: client_credential where
  "no_credential = \<lparr>PersonalAccessToken = [], AppID = 0, AppInstallationID = 0, PrivateKey = [], PrivateKeyPath = []\<rparr>"

definition controller_io ::
    "'w kube_calls \<Rightarrow> 'w factory \<Rightarrow> 'w manager_io \<Rightarrow> (string \<Rightarrow> string option) \<Rightarrow> 'w controller reconciler_io" where
  "controller_io kc fac mio wait =
     \<lparr>k_GetRunnerPool = (\<lambda>ns n. on_world (k_GetRunnerPool kc ns n)),
      k_UpdateRunnerPool = (\<lambda>rp. on_world (k_UpdateRunnerPool kc rp)),
      k_UpdateStatus = (\<lambda>rp. on_world (k_UpdateStatus kc rp)),
      k_GetSecret = (\<lambda>ns n. on_world (k_GetSecret kc ns n)),
      k_CreateSecret = (\<lambda>s. on_world (k_CreateSecret kc s)),
      k_ApplyDeployment = (\<lambda>d f. on_world (k_ApplyDeployment kc d f)),
      k_lib = k_lib kc,
      k_rmStartOrUpdate = (\<lambda>a. on_rm (rm_StartOrUpdate fac mio a)),
      k_rmStop = (\<lambda>rp. on_rm (rm_Stop wait (rp, no_credential))),
      k_suStart = (\<lambda>a. on_su (su_Start fac a)),
      k_suStop = (\<lambda>rp. on_su (su_Stop wait (rp, no_credential)))\<rparr>"

lemma controller_io_simps [simp]:
  "k_GetRunnerPool (controller_io kc fac mio wait) ns n = on_world (k_GetRunnerPool kc ns n)"
  "k_UpdateRunnerPool (controller_io kc fac mio wait) rp = on_world (k_UpdateRunnerPool kc rp)"
  "k_UpdateStatus (controller_io kc fac mio wait) rp = on_world (k_UpdateStatus kc rp)"
  "k_GetSecret (controller_io kc fac mio wait) ns n = on_world (k_GetSecret kc ns n)"
  "k_CreateSecret (controller_io kc fac mio wait) sc = on_world (k_CreateSecret kc sc)"
  "k_ApplyDeployment (controller_io kc fac mio wait) d f = on_world (k_ApplyDeployment kc d f)"
  "k_lib (controller_io kc fac mio wait) = k_lib kc"
  "k_rmStartOrUpdate (controller_io kc fac mio wait) a = on_rm (rm_StartOrUpdate fac mio a)"
  "k_rmStop (controller_io kc fac mio wait) rp = on_rm (rm_Stop wait (rp, no_credential))"
  "k_suStart (controller_io kc fac mio wait) a = on_su (su_Start fac a)"
  "k_suStop (controller_io kc fac mio wait) rp = on_su (su_Stop wait (rp, no_credential))"
  by (simp_all add: controller_io_def)

text \<open>
  The deferred calls of the main function: the secret updater was created last and is stopped first.
\<close>

definition stop_controller ::
    "(string \<Rightarrow> string option) \<Rightarrow> 'w controller \<Rightarrow> 'w controller option" where
  "stop_controller wait c =
     (case on_su (\<lambda>s. map_option (Pair ()) (su_StopAll wait s)) c of
        None \<Rightarrow> None
      | Some (_, c1) \<Rightarrow>
          (case on_rm (\<lambda>s. map_option (Pair ()) (rm_StopAll wait s)) c1 of
             None \<Rightarrow> None
           | Some (_, c2) \<Rightarrow> Some c2))"

definition new_controller :: "controller_metrics \<Rightarrow> 'w \<Rightarrow> 'w controller" where
  "new_controller m w =
     set_su (set_rm \<lparr>c_rm_stopped = False, c_rm_processes = [], c_su_stopped = False, c_su_processes = [],
                     c_metrics = m, c_world = w\<rparr> (NewRunnerManager m w)) (NewSecretUpdater m w)"

inductive controller_step ::
    "'w kube_calls \<Rightarrow> 'w factory \<Rightarrow> 'w manager_io \<Rightarrow> 'w secret_io \<Rightarrow> (string \<Rightarrow> string option) \<Rightarrow> reconciler \<Rightarrow>
       'w controller \<Rightarrow> 'w controller \<Rightarrow> bool"
    for kc fac mio sio wait r where
  step_reconcile: "Reconcile (controller_io kc fac mio wait) r ns n c = Some (res, c') \<Longrightarrow>
     controller_step kc fac mio sio wait r c c'"
| step_tick: "map_of (c_rm_processes c) k = Some p \<Longrightarrow> p_running p \<Longrightarrow>
     runOnce mio p (c_metrics c) (c_world c) = Some (Returns (e, p', m', w')) \<Longrightarrow>
     controller_step kc fac mio sio wait r c
       (c\<lparr>c_rm_processes := AList.update k p' (c_rm_processes c), c_metrics := m', c_world := w'\<rparr>)"
| step_turn: "map_of (c_su_processes c) k = Some u \<Longrightarrow> u_running u \<Longrightarrow>
     updater_step sio u (c_metrics c) (c_world c) = (d, m', w') \<Longrightarrow>
     controller_step kc fac mio sio wait r c (c\<lparr>c_metrics := m', c_world := w'\<rparr>)"
| step_world: "controller_step kc fac mio sio wait r c (c\<lparr>c_world := w'\<rparr>)"

inductive controller_steps ::
    "'w kube_calls \<Rightarrow> 'w factory \<Rightarrow> 'w manager_io \<Rightarrow> 'w secret_io \<Rightarrow> (string \<Rightarrow> string option) \<Rightarrow> reconciler \<Rightarrow>
       'w controller \<Rightarrow> 'w controller \<Rightarrow> bool"
    for kc fac mio sio wait r c0 where
  steps_refl: "controller_steps kc fac mio sio wait r c0 c0"
| steps_next: "controller_steps kc fac mio sio wait r c0 c \<Longrightarrow> controller_step kc fac mio sio wait r c c' \<Longrightarrow>
     controller_steps kc fac mio sio wait r c0 c'"


subsection \<open>The books of the managers\<close>

text \<open>
  The runner manager: every process is stored under the name of its pool, the labelled runners of a
  pool are those its running process remembers, a pool without a running process has no series, and one
  with a series of a runner has a gauge of replicas. The secret updater: the retry counter of a pool exists exactly
  while its process runs.
\<close>

definition rm_book :: "(string \<times> 'w manage_process) list \<Rightarrow> controller_metrics \<Rightarrow> bool" where
  "rm_book ps m \<longleftrightarrow>
     distinct (map fst ps) \<and> metrics_wf m \<and> (\<forall>k p. map_of ps k = Some p \<longrightarrow> rpNamespacedName p = k) \<and>
     (\<forall>k. labelled m k = (case map_of ps k of
        Some p \<Rightarrow> if p_running p then set (p_prevRunnerNames p) else {} | None \<Rightarrow> {})) \<and>
     (\<forall>k. runnerPoolReplicas m k \<noteq> None \<longrightarrow> (\<exists>p. map_of ps k = Some p \<and> p_running p)) \<and>
     (\<forall>k. labelled m k \<noteq> {} \<longrightarrow> runnerPoolReplicas m k \<noteq> None)"

definition su_book :: "(string \<times> 'w updater) list \<Rightarrow> controller_metrics \<Rightarrow> bool" where
  "su_book us m \<longleftrightarrow>
     distinct (map fst us) \<and> (\<forall>k u. map_of us k = Some u \<longrightarrow> updater_key u = k) \<and>
     (\<forall>k. RunnerPoolSecretRetryCount m k \<noteq> None \<longleftrightarrow> (\<exists>u. map_of us k = Some u \<and> u_running u))"

definition controller_wf :: "'w controller \<Rightarrow> bool" where
  "controller_wf c \<longleftrightarrow> rm_book (c_rm_processes c) (c_metrics c) \<and> su_book (c_su_processes c) (c_metrics c)"

lemma rm_bookD:
  assumes "rm_book ps m"
  shows "distinct (map fst ps)" "metrics_wf m" "map_of ps k = Some p \<Longrightarrow> rpNamespacedName p = k"
    "map_of ps k = Some p \<Longrightarrow> labelled m k = (if p_running p then set (p_prevRunnerNames p) else {})"
    "map_of ps k = None \<Longrightarrow> labelled m k = {}"
    "map_of ps k = Some p \<Longrightarrow> \<not> p_running p \<Longrightarrow> runnerPoolReplicas m k = None"
    "map_of ps k = None \<Longrightarrow> runnerPoolReplicas m k = None"
    "labelled m k \<noteq> {} \<Longrightarrow> runnerPoolReplicas m k \<noteq> None"
proof -
  note b = assms [unfolded rm_book_def]
  show "labelled m k \<noteq> {} \<Longrightarrow> runnerPoolReplicas m k \<noteq> None" using b by blast
  show "distinct (map fst ps)" "metrics_wf m" using b by blast+
  show "map_of ps k = Some p \<Longrightarrow> rpNamespacedName p = k" using b by blast
  show "map_of ps k = Some p \<Longrightarrow> labelled m k = (if p_running p then set (p_prevRunnerNames p) else {})"
    "map_of ps k = None \<Longrightarrow> labelled m k = {}" using b by simp_all
  show "map_of ps k = Some p \<Longrightarrow> \<not> p_running p \<Longrightarrow> runnerPoolReplicas m k = None"
    "map_of ps k = None \<Longrightarrow> runnerPoolReplicas m k = None" using b by (metis option.inject option.distinct(1))+
qed

lemma metrics_wf_retry [simp]: "metrics_wf (m\<lparr>RunnerPoolSecretRetryCount := x\<rparr>) = metrics_wf m"
  by (simp add: metrics_wf_def labelled_def)

lemma labelled_retry [simp]: "labelled (m\<lparr>RunnerPoolSecretRetryCount := x\<rparr>) = labelled m"
  by (simp add: labelled_def fun_eq_iff)

lemma rm_book_retry: "rm_book ps (m\<lparr>RunnerPoolSecretRetryCount := x\<rparr>) = rm_book ps m"
  by (simp add: rm_book_def)

lemma su_book_cong:
  "RunnerPoolSecretRetryCount m' = RunnerPoolSecretRetryCount m \<Longrightarrow> su_book us m' = su_book us m"
  by (simp add: su_book_def)

subsubsection \<open>What the operations on the metrics leave alone\<close>

lemma retry_frame [frame_simps]:
  "RunnerPoolSecretRetryCount (UpdateRunnerPoolMetrics k n m) = RunnerPoolSecretRetryCount m"
  "RunnerPoolSecretRetryCount (DeleteRunnerPoolMetrics k m) = RunnerPoolSecretRetryCount m"
  "RunnerPoolSecretRetryCount (UpdateRunnerMetrics k r on bu m) = RunnerPoolSecretRetryCount m"
  "RunnerPoolSecretRetryCount (DeleteRunnerMetrics k rs m) = RunnerPoolSecretRetryCount m"
  "RunnerPoolSecretRetryCount (DeleteAllRunnerMetrics k m) = RunnerPoolSecretRetryCount m"
  by (simp_all add: UpdateRunnerPoolMetrics_def DeleteRunnerPoolMetrics_def UpdateRunnerMetrics_def
      DeleteRunnerMetrics_eq DeleteAllRunnerMetrics_def Let_def split: option.splits)

lemma replicas_frame [frame_simps]:
  "runnerPoolReplicas (UpdateRunnerPoolMetrics k n m) = (runnerPoolReplicas m)(k \<mapsto> n)"
  "runnerPoolReplicas (DeleteRunnerPoolMetrics k m) = (runnerPoolReplicas m)(k := None)"
  "runnerPoolReplicas (UpdateRunnerMetrics k r on bu m) = runnerPoolReplicas m"
  "runnerPoolReplicas (DeleteRunnerMetrics k rs m) = runnerPoolReplicas m"
  "runnerPoolReplicas (DeleteAllRunnerMetrics k m) = runnerPoolReplicas m"
  by (simp_all add: UpdateRunnerPoolMetrics_def DeleteRunnerPoolMetrics_def UpdateRunnerMetrics_def
      DeleteRunnerMetrics_eq DeleteAllRunnerMetrics_def Let_def split: option.splits)

lemma fold_frame [frame_simps]:
  "RunnerPoolSecretRetryCount (fold (\<lambda>r. UpdateRunnerMetrics k (r_Name r) (r_Online r) (r_Busy r)) rs m) =
     RunnerPoolSecretRetryCount m"
  "runnerPoolReplicas (fold (\<lambda>r. UpdateRunnerMetrics k (r_Name r) (r_Online r) (r_Busy r)) rs m) =
     runnerPoolReplicas m"
  by (induction rs arbitrary: m) (simp_all add: frame_simps)

lemma updateMetrics_frame:
  assumes "updateMetrics p rs m = (p', m')"
  shows "RunnerPoolSecretRetryCount m' = RunnerPoolSecretRetryCount m"
    "\<exists>n. runnerPoolReplicas m' = (runnerPoolReplicas m)(rpNamespacedName p \<mapsto> n)"
    "p' = p\<lparr>p_prevRunnerNames := map r_Name rs\<rparr>"
  using assms by (auto simp: updateMetrics_def Let_def frame_simps)

lemma deleteMetrics_frame:
  "RunnerPoolSecretRetryCount (deleteMetrics p m) = RunnerPoolSecretRetryCount m"
  "runnerPoolReplicas (deleteMetrics p m) = (runnerPoolReplicas m)(rpNamespacedName p := None)"
  "labelled (deleteMetrics p m) = (labelled m)(rpNamespacedName p := {})"
  "metrics_wf m \<Longrightarrow> metrics_wf (deleteMetrics p m)"
  by (simp_all add: deleteMetrics_def frame_simps labelled_DeleteAllRunnerMetrics metrics_wf_DeleteAllRunnerMetrics)

lemma finish_process_metrics: "finish_process p m w = Some (m', w') \<Longrightarrow> m' = deleteMetrics p m"
  by (auto simp: finish_process_def split: option.splits)

subsubsection \<open>The runner manager\<close>

lemma rm_book_update_alist:
  assumes "rm_book ps m" "map_of ps k = Some p" "rpNamespacedName p' = k" "metrics_wf m'"
    and "labelled m' = (labelled m)(k := (if p_running p' then set (p_prevRunnerNames p') else {}))"
    and "\<And>j. j \<noteq> k \<Longrightarrow> runnerPoolReplicas m' j = runnerPoolReplicas m j"
    and "runnerPoolReplicas m' k \<noteq> None \<Longrightarrow> p_running p'"
    and "labelled m' k \<noteq> {} \<Longrightarrow> runnerPoolReplicas m' k \<noteq> None"
  shows "rm_book (AList.update k p' ps) m'"
proof -
  have up: "map_of (AList.update k p' ps) = (map_of ps)(k \<mapsto> p')" by (rule AList.update_conv')
  show ?thesis
    unfolding rm_book_def up
  proof (intro conjI allI impI)
    show "distinct (map fst (AList.update k p' ps))" using rm_bookD(1) [OF assms(1)] by (rule AList.distinct_update)
    show "metrics_wf m'" by (rule assms(4))
    show "rpNamespacedName q = j" if "((map_of ps)(k \<mapsto> p')) j = Some q" for j q
      using that assms(3) rm_bookD(3) [OF assms(1)] by (auto split: if_splits)
    show "labelled m' j = (case ((map_of ps)(k \<mapsto> p')) j of
        Some p \<Rightarrow> if p_running p then set (p_prevRunnerNames p) else {} | None \<Rightarrow> {})" for j
      using assms(5) rm_bookD(4,5) [OF assms(1), of j] by (auto split: option.splits)
    show "\<exists>q. ((map_of ps)(k \<mapsto> p')) j = Some q \<and> p_running q" if "runnerPoolReplicas m' j \<noteq> None" for j
      using that assms(6) [of j] assms(7) assms(1) unfolding rm_book_def by (cases "j = k") auto
    show "runnerPoolReplicas m' j \<noteq> None" if "labelled m' j \<noteq> {}" for j
      using that assms(5,8) assms(6) [of j] rm_bookD(8) [OF assms(1), of j] by (cases "j = k") auto
  qed
qed

lemma rm_book_insert:
  assumes "rm_book ps m" "map_of ps k = None" "rpNamespacedName p = k" "p_prevRunnerNames p = []"
  shows "rm_book (AList.update k p ps) m"
  using assms
  by (auto simp: rm_book_def AList.update_conv AList.distinct_update)

lemma rm_book_tick:
  assumes "rm_book ps m" "map_of ps k = Some p" "p_running p" "runOnce io p m w = Some (Returns (e, p', m', w'))"
  shows "rm_book (AList.update k p' ps) m'" "RunnerPoolSecretRetryCount m' = RunnerPoolSecretRetryCount m"
proof -
  have name: "rpNamespacedName p = k" and wf: "metrics_wf m" and lab: "labelled m k = set (p_prevRunnerNames p)"
    using assms(1-3) by (auto simp: rm_book_def)
  consider "p' = p" "m' = m"
    | rs p1 t where "updateMetrics p rs m = (p1, m')" "p' = p1\<lparr>p_lastCheckTime := t\<rparr>"
    using assms(4)
    by (auto simp: runOnce_def maintainRunnerPods_def Let_def
        split: prod.splits sum.splits option.splits outcome.splits)
  then have "rm_book (AList.update k p' ps) m' \<and> RunnerPoolSecretRetryCount m' = RunnerPoolSecretRetryCount m"
  proof cases
    case 1
    have "rm_book (AList.update k p ps) m"
      using assms(1-3) name wf lab by (intro rm_book_update_alist) (auto simp: fun_upd_idem rm_book_def)
    with 1 show ?thesis by simp
  next
    case 2
    note f = updateMetrics_frame [OF 2(1)]
    have sync: "metrics_synced p m" using name wf lab by (simp add: metrics_synced_def)
    note u = updateMetrics_labelled [OF sync 2(1)]
    have "rm_book (AList.update k p' ps) m'"
    proof (rule rm_book_update_alist [OF assms(1,2)])
      show "rpNamespacedName p' = k" using 2 f(3) name by (simp add: rpNamespacedName_def)
      show "metrics_wf m'" using u(1) by (simp add: metrics_synced_def)
      show "labelled m' = (labelled m)(k := (if p_running p' then set (p_prevRunnerNames p') else {}))"
        using u(2) 2(2) f(3) name assms(3) by simp
      show "runnerPoolReplicas m' j = runnerPoolReplicas m j" if "j \<noteq> k" for j
        using f(2) name that by auto
      show "p_running p'" using 2(2) f(3) assms(3) by simp
      show "runnerPoolReplicas m' k \<noteq> None" using f(2) name by auto
    qed
    with f(1) show ?thesis by simp
  qed
  then show "rm_book (AList.update k p' ps) m'" "RunnerPoolSecretRetryCount m' = RunnerPoolSecretRetryCount m"
    by simp_all
qed

lemma stop_process_effect:
  assumes "stop_process wait p m w = Some (e, p', m', w')"
  shows "m' = (if p_running p then deleteMetrics p m else m)" "p' = p\<lparr>p_running := False\<rparr>"
    "rpNamespacedName p' = rpNamespacedName p"
  using assms
  by (auto simp: stop_process_def rpNamespacedName_def dest: finish_process_metrics split: if_splits option.splits)

text \<open>Stopping the process of a pool leaves a book without it.\<close>

lemma rm_book_stopped:
  assumes "rm_book ps m" "map_of ps k = Some p" "stop_process wait p m w = Some (e, p', m', w')"
  shows "rm_book (AList.update k p' ps) m'" "rm_book (AList.delete k ps) m'"
    "RunnerPoolSecretRetryCount m' = RunnerPoolSecretRetryCount m"
proof -
  note f = stop_process_effect [OF assms(3)]
  have name: "rpNamespacedName p = k" and wf: "metrics_wf m" using assms(1,2) by (auto simp: rm_book_def)
  have lab: "labelled m' = (labelled m)(k := {})"
    using f(1) name rm_bookD(4) [OF assms(1,2)] by (simp add: deleteMetrics_frame fun_upd_idem)
  have rep: "runnerPoolReplicas m' = (runnerPoolReplicas m)(k := None)"
    using f(1) name rm_bookD(6) [OF assms(1,2)] by (simp add: deleteMetrics_frame fun_upd_idem)
  have wf': "metrics_wf m'" using f(1) wf by (simp add: deleteMetrics_frame)
  show "rm_book (AList.update k p' ps) m'"
    using f(2,3) name lab rep wf' by (intro rm_book_update_alist [OF assms(1,2)]) auto
  show "rm_book (AList.delete k ps) m'"
    using assms(1) lab rep wf' by (auto simp: rm_book_def AList.delete_conv AList.distinct_delete)
  show "RunnerPoolSecretRetryCount m' = RunnerPoolSecretRetryCount m"
    using f(1) by (simp add: deleteMetrics_frame)
qed

lemma rm_Stop_book:
  assumes "rm_book (rm_processes s) (rm_metrics s)" "rm_Stop wait a s = Some (e, s')"
  shows "rm_book (rm_processes s') (rm_metrics s') \<and>
    RunnerPoolSecretRetryCount (rm_metrics s') = RunnerPoolSecretRetryCount (rm_metrics s)"
  using assms rm_book_stopped [OF assms(1)]
  by (auto simp: rm_Stop_def Let_def split: option.splits)

lemma new_process_name:
  "newManageProcess ul gh rp now = Returns (Inr p) \<Longrightarrow>
     rpNamespacedName p = pool_key rp \<and> p_prevRunnerNames p = []"
  by (auto simp: newManageProcess_def rpNamespacedName_def pool_key_def namespaced_name_def
      split: sum.splits option.splits)

lemma update_process_frame:
  "update_process ul rp p = (e, p') \<Longrightarrow>
     rpNamespacedName p' = rpNamespacedName p \<and> p_running p' = p_running p \<and> p_prevRunnerNames p' = p_prevRunnerNames p"
  by (auto simp: update_process_def Let_def rpNamespacedName_def split: if_splits prod.splits option.splits)

lemma rm_StartOrUpdate_book:
  assumes "rm_book (rm_processes s) (rm_metrics s)" "rm_StartOrUpdate fac io a s = Some (e, s')"
  shows "rm_book (rm_processes s') (rm_metrics s') \<and> rm_metrics s' = rm_metrics s"
proof (cases "map_of (rm_processes s) (pool_key (fst a))")
  case None
  have "rm_book (AList.update (pool_key (fst a)) (start_process p) (rm_processes s)) (rm_metrics s)"
    if "newManageProcess (m_urls io) gh (fst a) now = Returns (Inr p)" for gh now p
    using new_process_name [OF that]
    by (intro rm_book_insert [OF assms(1) None]) (simp_all add: start_process_def rpNamespacedName_def)
  with None assms show ?thesis
    by (auto simp: rm_StartOrUpdate_def case_prod_beta Let_def split: if_splits sum.splits outcome.splits)
next
  case (Some p)
  have "rm_book (AList.update (pool_key (fst a)) p' (rm_processes s)) (rm_metrics s)"
    if "update_process (m_urls io) (fst a) p = (e, p')" for e p'
    using update_process_frame [OF that] rm_bookD(2,3,4,6) [OF assms(1)] rm_bookD(8) [OF assms(1), of "pool_key (fst a)"] Some
    by (intro rm_book_update_alist [OF assms(1) Some]) (auto simp: fun_upd_idem)
  with Some assms show ?thesis
    by (cases "update_process (m_urls io) (fst a) p")
      (auto simp: rm_StartOrUpdate_def case_prod_beta [of "\<lambda>x y. _ x y" a] Let_def split: if_splits prod.splits)
qed

lemma stop_each_book:
  fixes ps :: "(string \<times> 'w manage_process) list"
  assumes "rm_book ps m" "stop_each wait ps m w = Some (m', w')"
  shows "rm_book ([] :: (string \<times> 'w manage_process) list) m' \<and> RunnerPoolSecretRetryCount m' = RunnerPoolSecretRetryCount m"
  using assms
proof (induction ps arbitrary: m w)
  case (Cons kp ps)
  obtain k p where kp: "kp = (k, p)" by fastforce
  from Cons.prems(2) obtain e p' m1 w1 where stop: "stop_process wait p m w = Some (e, p', m1, w1)"
    and rest: "stop_each wait ps m1 w1 = Some (m', w')" by (auto simp: kp split: option.splits)
  have "k \<notin> fst ` set ps" using rm_bookD(1) [OF Cons.prems(1)] by (simp add: kp)
  then have del: "AList.delete k (kp # ps) = ps" by (simp add: kp)
  have "map_of (kp # ps) k = Some p" by (simp add: kp)
  note s = rm_book_stopped [OF Cons.prems(1) this stop]
  from s(2) have "rm_book ps m1" by (simp only: del)
  from Cons.IH [OF this rest] s(3) show ?case by simp
qed simp

lemma rm_StopAll_book:
  assumes "rm_book (rm_processes s) (rm_metrics s)" "rm_StopAll wait s = Some s'"
  shows "rm_book (rm_processes s') (rm_metrics s') \<and>
    RunnerPoolSecretRetryCount (rm_metrics s') = RunnerPoolSecretRetryCount (rm_metrics s)"
  using assms stop_each_book by (fastforce simp: rm_StopAll_def split: option.splits)

subsubsection \<open>The secret updater\<close>

lemma su_bookD:
  assumes "su_book us m"
  shows "distinct (map fst us)" "map_of us k = Some u \<Longrightarrow> updater_key u = k"
    "map_of us k = Some u \<Longrightarrow> \<not> u_running u \<Longrightarrow> RunnerPoolSecretRetryCount m k = None"
    "map_of us k = None \<Longrightarrow> RunnerPoolSecretRetryCount m k = None"
proof -
  note b = assms [unfolded su_book_def]
  show "distinct (map fst us)" "map_of us k = Some u \<Longrightarrow> updater_key u = k" using b by blast+
  show "map_of us k = Some u \<Longrightarrow> \<not> u_running u \<Longrightarrow> RunnerPoolSecretRetryCount m k = None"
    "map_of us k = None \<Longrightarrow> RunnerPoolSecretRetryCount m k = None" using b by (metis option.inject option.distinct(1))+
qed

lemma su_book_update_alist:
  assumes "su_book us m" "updater_key u = k"
    and "\<And>j. j \<noteq> k \<Longrightarrow> RunnerPoolSecretRetryCount m' j = RunnerPoolSecretRetryCount m j"
    and "RunnerPoolSecretRetryCount m' k \<noteq> None \<longleftrightarrow> u_running u"
  shows "su_book (AList.update k u us) m'"
  using assms by (auto simp: su_book_def AList.update_conv AList.distinct_update split: if_splits)

lemma su_book_delete:
  assumes "su_book us m" "RunnerPoolSecretRetryCount m' = (RunnerPoolSecretRetryCount m)(k := None)"
  shows "su_book (AList.delete k us) m'"
  using assms by (auto simp: su_book_def AList.delete_conv AList.distinct_delete)

lemma finish_updater_retry:
  "finish_updater u m = m\<lparr>RunnerPoolSecretRetryCount := (RunnerPoolSecretRetryCount m)(updater_key u := None)\<rparr>"
  by (simp add: finish_updater_def DeleteSecretRetryCount_def)

lemma stop_updater_effect:
  assumes "su_book us m" "map_of us k = Some u" "stop_updater wait u m = (e, u', m')"
  shows "m' = m\<lparr>RunnerPoolSecretRetryCount := (RunnerPoolSecretRetryCount m)(k := None)\<rparr>"
    "u' = u\<lparr>u_running := False\<rparr>" "updater_key u' = k"
  using assms su_bookD(2,3) [OF assms(1,2)]
  by (auto simp: stop_updater_def finish_updater_retry updater_key_def fun_upd_idem split: if_splits)

lemma su_Stop_book:
  assumes "su_book (su_processes s) (su_metrics s)" "su_Stop wait a s = Some (e, s')"
  shows "su_book (su_processes s') (su_metrics s') \<and>
    (\<exists>x. su_metrics s' = su_metrics s\<lparr>RunnerPoolSecretRetryCount := x\<rparr>)"
proof (cases "map_of (su_processes s) (pool_key (fst a))")
  case None
  with assms show ?thesis by (auto simp: su_Stop_def Let_def intro!: exI [of _ "RunnerPoolSecretRetryCount (su_metrics s)"])
next
  case (Some u)
  obtain e1 u' m' where stop: "stop_updater wait u (su_metrics s) = (e1, u', m')" by (metis prod.collapse)
  note f = stop_updater_effect [OF assms(1) Some stop]
  have "su_book (AList.update (pool_key (fst a)) u' (su_processes s)) m'"
    using f by (intro su_book_update_alist [OF assms(1)]) auto
  moreover have "su_book (AList.delete (pool_key (fst a)) (su_processes s)) m'"
    using f by (intro su_book_delete [OF assms(1)]) auto
  ultimately show ?thesis
    using assms(2) Some stop f(1) by (auto simp: su_Stop_def Let_def split: option.splits)
qed

lemma new_updater_effect:
  assumes "newUpdateProcess gh rp m = Returns (u, m')"
  shows "updater_key u = pool_key rp"
    "\<exists>n. m' = m\<lparr>RunnerPoolSecretRetryCount := (RunnerPoolSecretRetryCount m)(pool_key rp \<mapsto> n)\<rparr>"
  using assms
  by (auto simp: newUpdateProcess_def updater_key_def pool_key_def Let_def split: option.splits)

lemma su_Start_book:
  assumes "su_book (su_processes s) (su_metrics s)" "su_Start fac a s = Some (e, s')"
  shows "su_book (su_processes s') (su_metrics s') \<and>
    (\<exists>x. su_metrics s' = su_metrics s\<lparr>RunnerPoolSecretRetryCount := x\<rparr>)"
proof -
  have "su_book (AList.update (pool_key (fst a)) (start_updater u) (su_processes s)) m' \<and>
      (\<exists>x. m' = su_metrics s\<lparr>RunnerPoolSecretRetryCount := x\<rparr>)"
    if "newUpdateProcess gh (fst a) (su_metrics s) = Returns (u, m')" for gh u m'
    using new_updater_effect [OF that]
    by (auto simp: start_updater_def updater_key_def intro!: su_book_update_alist [OF assms(1)])
  moreover have "\<exists>x. su_metrics s = su_metrics s\<lparr>RunnerPoolSecretRetryCount := x\<rparr>"
    by (intro exI [of _ "RunnerPoolSecretRetryCount (su_metrics s)"]) simp
  ultimately show ?thesis
    using assms
    by (auto simp: su_Start_def case_prod_beta Let_def split: if_splits option.splits sum.splits outcome.splits)
qed

lemma su_stop_fold_book:
  fixes us :: "(string \<times> 'w updater) list"
  assumes "su_book us m"
  shows "su_book ([] :: (string \<times> 'w updater) list) (fold (\<lambda>ku m. snd (snd (stop_updater wait (snd ku) m))) us m) \<and>
    (\<exists>x. fold (\<lambda>ku m. snd (snd (stop_updater wait (snd ku) m))) us m = m\<lparr>RunnerPoolSecretRetryCount := x\<rparr>)"
  using assms
proof (induction us arbitrary: m)
  case Nil
  then show ?case by (auto intro!: exI [of _ "RunnerPoolSecretRetryCount m"])
next
  case (Cons ku us)
  obtain k u where ku: "ku = (k, u)" by fastforce
  obtain e1 u' m1 where stop: "stop_updater wait u m = (e1, u', m1)" by (metis prod.collapse)
  have "map_of (ku # us) k = Some u" by (simp add: ku)
  note f = stop_updater_effect [OF Cons.prems this stop]
  have "k \<notin> fst ` set us" using su_bookD(1) [OF Cons.prems] by (simp add: ku)
  then have del: "AList.delete k (ku # us) = us" by (simp add: ku)
  have "su_book (AList.delete k (ku # us)) m1" using f(1) by (intro su_book_delete [OF Cons.prems]) simp
  then have "su_book us m1" by (simp only: del)
  from Cons.IH [OF this] stop f(1) show ?case by (auto simp: ku)
qed

lemma su_StopAll_book:
  assumes "su_book (su_processes s) (su_metrics s)" "su_StopAll wait s = Some s'"
  shows "su_book (su_processes s') (su_metrics s') \<and>
    (\<exists>x. su_metrics s' = su_metrics s\<lparr>RunnerPoolSecretRetryCount := x\<rparr>)"
  using su_stop_fold_book [OF assms(1), of wait] assms(2) by (auto simp: su_StopAll_def)

lemma updater_step_metrics:
  assumes "updater_step io u m w = (d, m', w')"
  shows "m' = m \<or> m' = IncSecretRetryCount (updater_key u) m"
  using assms
  by (auto simp: updater_step_def Let_def split: prod.splits sum.splits kube_error.splits if_splits)

lemma su_book_turn:
  assumes "su_book us m" "map_of us k = Some u" "u_running u" "updater_step io u m w = (d, m', w')"
  shows "su_book us m' \<and> (\<exists>x. m' = m\<lparr>RunnerPoolSecretRetryCount := x\<rparr>)"
proof -
  have key: "updater_key u = k" using su_bookD(2) [OF assms(1,2)] .
  obtain y where "RunnerPoolSecretRetryCount m k = Some y" using assms(1-3) unfolding su_book_def by blast
  then have inc: "RunnerPoolSecretRetryCount (IncSecretRetryCount k m) j = None \<longleftrightarrow> RunnerPoolSecretRetryCount m j = None" for j
    by (simp add: IncSecretRetryCount_def)
  have "m' = m \<or> m' = IncSecretRetryCount k m" using updater_step_metrics [OF assms(4)] key by simp
  then have same: "RunnerPoolSecretRetryCount m' j = None \<longleftrightarrow> RunnerPoolSecretRetryCount m j = None" for j
    using inc [of j] by (elim disjE) simp_all
  have "su_book us m'" using assms(1) unfolding su_book_def same .
  moreover have "\<exists>x. m' = m\<lparr>RunnerPoolSecretRetryCount := x\<rparr>"
    using updater_step_metrics [OF assms(4)]
    by (auto simp: IncSecretRetryCount_def intro: exI [of _ "RunnerPoolSecretRetryCount m"])
  ultimately show ?thesis by blast
qed

subsection \<open>The invariant\<close>

text \<open>
  The contract of the reconciler with its callees: a property of the state that every call keeps is
  kept by a round, whatever the round does.
\<close>

locale reconciler_calls =
  fixes io :: "'w reconciler_io" and I :: "'w \<Rightarrow> bool"
  assumes getPool_keeps: "I w \<Longrightarrow> I (snd (k_GetRunnerPool io ns n w))"
    and updatePool_keeps: "I w \<Longrightarrow> I (snd (k_UpdateRunnerPool io rp w))"
    and updateStatus_keeps: "I w \<Longrightarrow> I (snd (k_UpdateStatus io rp w))"
    and getSecret_keeps: "I w \<Longrightarrow> I (snd (k_GetSecret io ns n w))"
    and createSecret_keeps: "I w \<Longrightarrow> I (snd (k_CreateSecret io sc w))"
    and apply_keeps: "I w \<Longrightarrow> I (snd (k_ApplyDeployment io d f w))"
    and rmStart_keeps: "I w \<Longrightarrow> k_rmStartOrUpdate io a w = Some (e, w') \<Longrightarrow> I w'"
    and rmStop_keeps: "I w \<Longrightarrow> k_rmStop io rp w = Some (e, w') \<Longrightarrow> I w'"
    and suStart_keeps: "I w \<Longrightarrow> k_suStart io a w = Some (e, w') \<Longrightarrow> I w'"
    and suStop_keeps: "I w \<Longrightarrow> k_suStop io rp w = Some (e, w') \<Longrightarrow> I w'"
begin

lemma getPool_pair: "I w \<Longrightarrow> k_GetRunnerPool io ns n w = (a, w') \<Longrightarrow> I w'"
  using getPool_keeps [of w ns n] by simp

lemma finalize_keeps:
  assumes "I w" "finalize_pool io rp w = Some (res, w')"
  shows "I w'"
proof -
  have upd: "I v'" if "I v" "k_UpdateRunnerPool io q v = (e, v')" for v q e v'
    using updatePool_keeps [of v q] that by simp
  show ?thesis
    using assms(2,1)
    by (auto simp: finalize_pool_def split: if_splits option.splits prod.splits
        dest: rmStop_keeps [rotated] suStop_keeps [rotated] upd [rotated])
qed

lemma credential_keeps: "I w \<Longrightarrow> getGitHubCredential io rp w = (c, w') \<Longrightarrow> I w'"
proof -
  have get: "I v'" if "I v" "k_GetSecret io ns n v = (e, v')" for v ns n e v'
    using getSecret_keeps [of v ns n] that by simp
  show "I w \<Longrightarrow> getGitHubCredential io rp w = (c, w') \<Longrightarrow> I w'"
    by (auto simp: getGitHubCredential_def Let_def split: prod.splits sum.splits option.splits dest: get [rotated])
qed

lemma secret_keeps: "I w \<Longrightarrow> reconcileSecret io rp w = (c, w') \<Longrightarrow> I w'"
proof -
  have get: "I v'" if "I v" "k_GetSecret io ns n v = (e, v')" for v ns n e v'
    using getSecret_keeps [of v ns n] that by simp
  have create: "I v'" if "I v" "k_CreateSecret io sc v = (e, v')" for v sc e v'
    using createSecret_keeps [of v sc] that by simp
  show "I w \<Longrightarrow> reconcileSecret io rp w = (c, w') \<Longrightarrow> I w'"
    by (auto simp: reconcileSecret_def split: prod.splits sum.splits option.splits kube_error.splits
        dest: get [rotated] create [rotated])
qed

lemma apply_pool_keeps:
  assumes "I w" "apply_pool io r rp w = Some (res, w')"
  shows "I w'"
proof -
  have deploy: "I v'" if "I v" "reconcileDeployment io r rp v = (e, v')" for v e v'
    using apply_keeps [of v] that by (metis reconcileDeployment_def snd_conv)
  have status: "I v'" if "I v" "k_UpdateStatus io q v = (e, v')" for v q e v'
    using updateStatus_keeps [of v q] that by simp
  show ?thesis
    using assms(2,1)
    by (auto simp: apply_pool_def split: option.splits prod.splits sum.splits if_splits)
      (meson credential_keeps secret_keeps suStart_keeps deploy rmStart_keeps status)+
qed

lemma Reconcile_keeps:
  assumes "I w" "Reconcile io r ns n w = Some (res, w')"
  shows "I w'"
  using assms
  by (auto simp: Reconcile_def split: prod.splits sum.splits kube_error.splits if_splits
      dest: getPool_pair [rotated] finalize_keeps [rotated] apply_pool_keeps [rotated])

end

lemma controller_wf_rm:
  assumes "controller_wf c" "rm_book (rm_processes s) (rm_metrics s)"
    and "RunnerPoolSecretRetryCount (rm_metrics s) = RunnerPoolSecretRetryCount (c_metrics c)"
  shows "controller_wf (set_rm c s)"
  using assms by (simp add: controller_wf_def set_rm_def su_book_cong [OF assms(3)])

lemma controller_wf_su:
  assumes "controller_wf c" "su_book (su_processes s) (su_metrics s)"
    and "\<exists>x. su_metrics s = c_metrics c\<lparr>RunnerPoolSecretRetryCount := x\<rparr>"
  shows "controller_wf (set_su c s)"
  using assms by (auto simp: controller_wf_def set_su_def rm_book_retry)

lemma rm_part_simps [simp]:
  "rm_processes (rm_part c) = c_rm_processes c" "rm_metrics (rm_part c) = c_metrics c"
  "rm_stopped (rm_part c) = c_rm_stopped c" "rm_world (rm_part c) = c_world c"
  by (simp_all add: rm_part_def)

lemma su_part_simps [simp]:
  "su_processes (su_part c) = c_su_processes c" "su_metrics (su_part c) = c_metrics c"
  "su_stopped (su_part c) = c_su_stopped c" "su_world (su_part c) = c_world c"
  by (simp_all add: su_part_def)

lemma controller_wf_books:
  "controller_wf c \<Longrightarrow> rm_book (rm_processes (rm_part c)) (rm_metrics (rm_part c))"
  "controller_wf c \<Longrightarrow> su_book (su_processes (su_part c)) (su_metrics (su_part c))"
  by (simp_all add: controller_wf_def)

lemma controller_wf_world [simp]: "controller_wf (c\<lparr>c_world := w\<rparr>) = controller_wf c"
  by (simp add: controller_wf_def)

lemma controller_wf_on_world: "controller_wf c \<Longrightarrow> controller_wf (snd (on_world f c))"
  by (simp add: on_world_def split: prod.splits)

interpretation wf: reconciler_calls "controller_io kc fac mio wait" controller_wf
  for kc :: "'w kube_calls" and fac mio wait
proof
  fix c c' :: "'w controller" and a e rp
  show "controller_wf c'" if "controller_wf c" "k_rmStartOrUpdate (controller_io kc fac mio wait) a c = Some (e, c')"
    using that(2) rm_StartOrUpdate_book [OF controller_wf_books(1) [OF that(1)], of fac mio a] that(1)
    by (auto simp: on_rm_def intro!: controller_wf_rm split: option.splits)
  show "controller_wf c'" if "controller_wf c" "k_rmStop (controller_io kc fac mio wait) rp c = Some (e, c')"
    using that(2) rm_Stop_book [OF controller_wf_books(1) [OF that(1)], of wait "(rp, no_credential)"] that(1)
    by (auto simp: on_rm_def intro!: controller_wf_rm split: option.splits)
  show "controller_wf c'" if "controller_wf c" "k_suStart (controller_io kc fac mio wait) a c = Some (e, c')"
    using that(2) su_Start_book [OF controller_wf_books(2) [OF that(1)], of fac a] that(1)
    by (auto simp: on_su_def intro!: controller_wf_su split: option.splits)
  show "controller_wf c'" if "controller_wf c" "k_suStop (controller_io kc fac mio wait) rp c = Some (e, c')"
    using that(2) su_Stop_book [OF controller_wf_books(2) [OF that(1)], of wait "(rp, no_credential)"] that(1)
    by (auto simp: on_su_def intro!: controller_wf_su split: option.splits)
qed (simp_all add: controller_wf_on_world)

lemma controller_wf_step:
  assumes "controller_step kc fac mio sio wait r c c'" "controller_wf c"
  shows "controller_wf c'"
  using assms
proof cases
  case (step_reconcile ns n res)
  with assms(2) show ?thesis by (blast intro: wf.Reconcile_keeps)
next
  case (step_tick k p e p' m' w')
  have "rm_book (c_rm_processes c) (c_metrics c)" using assms(2) by (simp add: controller_wf_def)
  note t = rm_book_tick [OF this step_tick(2-4)]
  with step_tick(1) assms(2) show ?thesis by (simp add: controller_wf_def su_book_cong [OF t(2)])
next
  case (step_turn k u d m' w')
  have "su_book (c_su_processes c) (c_metrics c)" using assms(2) by (simp add: controller_wf_def)
  note t = su_book_turn [OF this step_turn(2-4)]
  with step_turn(1) assms(2) show ?thesis by (auto simp: controller_wf_def rm_book_retry)
next
  case step_world
  with assms(2) show ?thesis by simp
qed

lemma controller_wf_new: "controller_wf (new_controller InitControllerMetrics w)"
  by (simp add: controller_wf_def new_controller_def set_rm_def set_su_def NewRunnerManager_def NewSecretUpdater_def
      rm_book_def su_book_def metrics_wf_init) (simp add: InitControllerMetrics_def labelled_def)

lemma controller_wf_steps:
  "controller_steps kc fac mio sio wait r c0 c \<Longrightarrow> controller_wf c0 \<Longrightarrow> controller_wf c"
  by (induction rule: controller_steps.induct) (auto intro: controller_wf_step)

subsection \<open>Stopping and finalizing\<close>

lemma stop_controller_ok:
  assumes "stop_controller wait c = Some c'" "controller_wf c"
  shows "controller_wf c'" "c_rm_processes c' = []" "c_su_processes c' = []" "c_rm_stopped c'" "c_su_stopped c'"
proof -
  from assms(1) obtain s c1 s2 where s: "su_StopAll wait (su_part c) = Some s" "c1 = set_su c s"
    and s2: "rm_StopAll wait (rm_part c1) = Some s2" "c' = set_rm c1 s2"
    by (auto simp: stop_controller_def on_su_def on_rm_def split: option.splits)
  have wf1: "controller_wf c1"
    using su_StopAll_book [OF controller_wf_books(2) [OF assms(2)] s(1)] s(2) assms(2)
    by (auto intro: controller_wf_su)
  show "controller_wf c'"
    using rm_StopAll_book [OF controller_wf_books(1) [OF wf1] s2(1)] s2(2) wf1
    by (auto intro: controller_wf_rm)
  show "c_rm_processes c' = []" "c_rm_stopped c'"
    using rm.stopAll_all [OF s2(1)] s2(2) by (simp_all add: set_rm_def)
  show "c_su_processes c' = []" "c_su_stopped c'"
    using su.stopAll_all [OF s(1)] s(2) s2(2) by (simp_all add: set_su_def set_rm_def)
qed

text \<open>The series that exist, read off the books.\<close>

definition listed_runners :: "(string \<times> 'w manage_process) list \<Rightarrow> string \<Rightarrow> string set" where
  "listed_runners ps k =
     (case map_of ps k of Some p \<Rightarrow> if p_running p then set (p_prevRunnerNames p) else {} | None \<Rightarrow> {})"

lemma controller_wf_series:
  assumes "controller_wf c"
  shows "exported (c_metrics c) k = (listed_runners (c_rm_processes c) k, listed_runners (c_rm_processes c) k)"
    "runnerPoolReplicas (c_metrics c) k \<noteq> None \<Longrightarrow> \<exists>p. map_of (c_rm_processes c) k = Some p \<and> p_running p"
    "RunnerPoolSecretRetryCount (c_metrics c) k \<noteq> None \<longleftrightarrow> (\<exists>u. map_of (c_su_processes c) k = Some u \<and> u_running u)"
    "map_of (c_rm_processes c) k = Some p \<Longrightarrow> rpNamespacedName p = k"
    "map_of (c_su_processes c) k = Some u \<Longrightarrow> updater_key u = k"
    "listed_runners (c_rm_processes c) k \<noteq> {} \<Longrightarrow> runnerPoolReplicas (c_metrics c) k \<noteq> None"
proof -
  have rm: "rm_book (c_rm_processes c) (c_metrics c)" and su: "su_book (c_su_processes c) (c_metrics c)"
    using assms by (simp_all add: controller_wf_def)
  have lab: "labelled (c_metrics c) k = listed_runners (c_rm_processes c) k"
    using rm_bookD(4,5) [OF rm, of k] by (simp add: listed_runners_def split: option.splits)
  then show "exported (c_metrics c) k = (listed_runners (c_rm_processes c) k, listed_runners (c_rm_processes c) k)"
    using exported_labelled [OF rm_bookD(2) [OF rm], of k] by simp
  show "runnerPoolReplicas (c_metrics c) k \<noteq> None" if "listed_runners (c_rm_processes c) k \<noteq> {}"
    using rm lab that unfolding rm_book_def by metis
  show "\<exists>p. map_of (c_rm_processes c) k = Some p \<and> p_running p" if "runnerPoolReplicas (c_metrics c) k \<noteq> None"
    using rm that unfolding rm_book_def by blast
  show "RunnerPoolSecretRetryCount (c_metrics c) k \<noteq> None \<longleftrightarrow> (\<exists>u. map_of (c_su_processes c) k = Some u \<and> u_running u)"
    using su unfolding su_book_def by blast
  show "rpNamespacedName p = k" if "map_of (c_rm_processes c) k = Some p" using rm_bookD(3) [OF rm that] .
  show "updater_key u = k" if "map_of (c_su_processes c) k = Some u" using su_bookD(2) [OF su that] .
qed

lemma rm_Stop_frame:
  assumes "rm_Stop wait a s = Some (e, s')"
  shows "k \<noteq> pool_key (fst a) \<Longrightarrow> map_of (rm_processes s') k = map_of (rm_processes s) k"
    "e = None \<Longrightarrow> map_of (rm_processes s') (pool_key (fst a)) = None"
  using assms
  by (auto simp: rm_Stop_def Let_def AList.update_conv' AList.delete_conv' split: option.splits)

lemma su_Stop_frame:
  assumes "su_Stop wait a s = Some (e, s')"
  shows "k \<noteq> pool_key (fst a) \<Longrightarrow> map_of (su_processes s') k = map_of (su_processes s) k"
    "e = None \<Longrightarrow> map_of (su_processes s') (pool_key (fst a)) = None"
  using assms
  by (auto simp: su_Stop_def Let_def AList.update_conv' AList.delete_conv' split: option.splits prod.splits)

lemma rm_Stop_series:
  assumes "rm_book (rm_processes s) (rm_metrics s)" "rm_Stop wait a s = Some (e, s')" "k \<noteq> pool_key (fst a)"
  shows "pool_series (rm_metrics s') k = pool_series (rm_metrics s) k"
proof (cases "map_of (rm_processes s) (pool_key (fst a))")
  case None
  with assms(2) show ?thesis by (simp add: rm_Stop_def Let_def)
next
  case (Some p)
  with assms(2) obtain e1 p' w' where
    "stop_process wait p (rm_metrics s) (rm_world s) = Some (e1, p', rm_metrics s', w')"
    by (auto simp: rm_Stop_def Let_def split: option.splits)
  from stop_process_effect(1) [OF this] rm_bookD(3) [OF assms(1) Some] assms(3) show ?thesis
    by (simp add: deleteMetrics_others)
qed

lemma su_Stop_series:
  assumes "su_book (su_processes s) (su_metrics s)" "su_Stop wait a s = Some (e, s')" "k \<noteq> pool_key (fst a)"
  shows "pool_series (su_metrics s') k = pool_series (su_metrics s) k"
proof (cases "map_of (su_processes s) (pool_key (fst a))")
  case None
  with assms(2) show ?thesis by (simp add: su_Stop_def Let_def)
next
  case (Some u)
  with assms(2) obtain e1 u' where "stop_updater wait u (su_metrics s) = (e1, u', su_metrics s')"
    by (auto simp: su_Stop_def Let_def split: option.splits prod.splits)
  from stop_updater_effect(1) [OF assms(1) Some this] assms(3) show ?thesis by (simp add: pool_series_def)
qed

lemma on_world_parts:
  assumes "on_world f c = (a, c')"
  shows "c' = c\<lparr>c_world := snd (f (c_world c))\<rparr>" "a = fst (f (c_world c))"
  using assms by (auto simp: on_world_def split: prod.splits)

lemma finalize_pool_processes:
  assumes "finalize_pool (controller_io kc fac mio wait) rp c = Some (Done, c')"
    and "ContainsFinalizer (k_lib kc) RunnerPoolFinalizer (Finalizers (rp_meta rp))"
  shows "map_of (c_rm_processes c') = (map_of (c_rm_processes c))(pool_key rp := None)"
    "map_of (c_su_processes c') = (map_of (c_su_processes c))(pool_key rp := None)"
    "controller_wf c \<Longrightarrow> k \<noteq> pool_key rp \<Longrightarrow> pool_series (c_metrics c') k = pool_series (c_metrics c) k"
proof -
  from assms obtain s c1 s2 c2 where s: "rm_Stop wait (rp, no_credential) (rm_part c) = Some (None, s)" "c1 = set_rm c s"
    and s2: "su_Stop wait (rp, no_credential) (su_part c1) = Some (None, s2)" "c2 = set_su c1 s2"
    and upd: "\<exists>w. c' = c2\<lparr>c_world := w\<rparr>"
    by (auto simp: finalize_pool_def on_rm_def on_su_def on_world_def split: option.splits prod.splits)
  have "map_of (c_rm_processes c') k = ((map_of (c_rm_processes c))(pool_key rp := None)) k" for k
    using rm_Stop_frame [OF s(1)] s(2) s2(2) upd by (auto simp: set_rm_def set_su_def)
  then show "map_of (c_rm_processes c') = (map_of (c_rm_processes c))(pool_key rp := None)" ..
  have "map_of (c_su_processes c') k = ((map_of (c_su_processes c))(pool_key rp := None)) k" for k
    using su_Stop_frame [OF s2(1)] s(2) s2(2) upd by (auto simp: set_rm_def set_su_def)
  then show "map_of (c_su_processes c') = (map_of (c_su_processes c))(pool_key rp := None)" ..
  show "pool_series (c_metrics c') k = pool_series (c_metrics c) k" if "controller_wf c" "k \<noteq> pool_key rp"
  proof -
    have "controller_wf c1"
      using rm_Stop_book [OF controller_wf_books(1) [OF that(1)] s(1)] s(2) that(1) by (auto intro: controller_wf_rm)
    note su_Stop_series [OF controller_wf_books(2) [OF this] s2(1), of k]
    with rm_Stop_series [OF controller_wf_books(1) [OF that(1)] s(1), of k] that(2) s(2) s2(2) upd show ?thesis
      by (auto simp: set_rm_def set_su_def)
  qed
qed

subsection \<open>Starting\<close>

text \<open>
  A process with the configuration of a pool, in every part but the GitHub client; a secret updater for a pool; and
  managers whose processes for a pool, if they have any, were made for its owner and repository, as they are when
  they were made for an earlier version of the pool, because the webhook admits no change of the two.
\<close>

definition process_of_pool :: "url_lib \<Rightarrow> runner_pool \<Rightarrow> 'w manage_process \<Rightarrow> bool" where
  "process_of_pool ul rp p \<longleftrightarrow>
     rpNamespacedName p = pool_key rp \<and> p_owner p = GetOwner rp \<and> GetRepository rp = Some (p_repo p) \<and>
     NewAgentClient ul (agent_name rp) = Inr (p_serverURL p) \<and> p_replicas p = sp_Replicas (Spec rp) \<and>
     p_maxRunnerPods p = sp_MaxRunnerPods (Spec rp) \<and>
     p_needSlackNotification p = Enable (Slack (sp_Notification (Spec rp))) \<and>
     p_slackChannel p = Channel (Slack (sp_Notification (Spec rp))) \<and> p_slackAgentServiceName p = agent_name rp \<and>
     p_extendDuration p = parseDuration_or_zero (ExtendDuration (sp_Notification (Spec rp))) \<and>
     p_recreateDeadline p = parseDuration_or_zero (sp_RecreateDeadline (Spec rp)) \<and>
     p_denyDisruption p = sp_DenyDisruption (Spec rp)"

definition updater_of_pool :: "runner_pool \<Rightarrow> 'w updater \<Rightarrow> bool" where
  "updater_of_pool rp u \<longleftrightarrow>
     updater_key u = pool_key rp \<and> u_owner u = GetOwner rp \<and> GetRepository rp = Some (u_repo u) \<and>
     u_secretName u = GetRunnerSecretName rp"

definition made_for :: "runner_pool \<Rightarrow> 'w controller \<Rightarrow> bool" where
  "made_for rp c \<longleftrightarrow>
     (\<forall>p. map_of (c_rm_processes c) (pool_key rp) = Some p \<longrightarrow>
        p_owner p = GetOwner rp \<and> GetRepository rp = Some (p_repo p)) \<and>
     (\<forall>u. map_of (c_su_processes c) (pool_key rp) = Some u \<longrightarrow>
        u_owner u = GetOwner rp \<and> GetRepository rp = Some (u_repo u) \<and> u_secretName u = GetRunnerSecretName rp)"

text \<open>The client of a process: of the credential for a new process, the old one for a process that was there.\<close>

definition client_of ::
    "'w factory \<Rightarrow> client_credential \<Rightarrow> 'w gh_client option \<Rightarrow> 'w gh_client \<Rightarrow> bool" where
  "client_of fac cred old gh \<longleftrightarrow> (case old of None \<Rightarrow> fac cred = Inr gh | Some g \<Rightarrow> gh = g)"

lemma process_of_pool_new:
  "newManageProcess ul gh rp now = Returns (Inr p) \<Longrightarrow>
     process_of_pool ul rp (start_process p) \<and> p_githubClient (start_process p) = gh"
  by (auto simp: newManageProcess_def process_of_pool_def start_process_def rpNamespacedName_def pool_key_def
      namespaced_name_def split: sum.splits option.splits)

lemma process_of_pool_update:
  assumes "update_process ul rp p = (None, p')" "rpNamespacedName p = pool_key rp" "url_ok ul p"
    and "p_owner p = GetOwner rp \<and> GetRepository rp = Some (p_repo p)"
  shows "process_of_pool ul rp p' \<and> p_githubClient p' = p_githubClient p"
  using update_process_fields [OF assms(1) assms(3) [unfolded url_ok_def]] assms(2,4)
  by (simp add: process_of_pool_def rpNamespacedName_def)

lemma rm_StartOrUpdate_ok:
  assumes "rm_book (rm_processes s) (rm_metrics s)" "rm_StartOrUpdate fac io (rp, cred) s = Some (None, s')"
    and "\<And>p. map_of (rm_processes s) (pool_key rp) = Some p \<Longrightarrow>
      url_ok (m_urls io) p \<and> p_owner p = GetOwner rp \<and> GetRepository rp = Some (p_repo p)"
  shows "\<exists>p. map_of (rm_processes s') (pool_key rp) = Some p \<and> process_of_pool (m_urls io) rp p \<and>
    client_of fac cred (map_option p_githubClient (map_of (rm_processes s) (pool_key rp))) (p_githubClient p)"
proof (cases "map_of (rm_processes s) (pool_key rp)")
  case None
  with assms(2) obtain gh now p where "fac cred = Inr gh" "newManageProcess (m_urls io) gh rp now = Returns (Inr p)"
    "rm_processes s' = AList.update (pool_key rp) (start_process p) (rm_processes s)"
    by (auto simp: rm_StartOrUpdate_def Let_def split: if_splits sum.splits outcome.splits prod.splits)
  with None process_of_pool_new show ?thesis by (fastforce simp: AList.update_conv client_of_def)
next
  case (Some p)
  from assms(2) Some obtain p' where "update_process (m_urls io) rp p = (None, p')"
    "rm_processes s' = AList.update (pool_key rp) p' (rm_processes s)"
    by (auto simp: rm_StartOrUpdate_def Let_def split: if_splits prod.splits)
  with process_of_pool_update rm_bookD(3) [OF assms(1) Some] assms(3) [OF Some] Some show ?thesis
    by (fastforce simp: AList.update_conv client_of_def)
qed

lemma su_Start_ok:
  assumes "su_book (su_processes s) (su_metrics s)" "su_Start fac (rp, cred) s = Some (None, s')"
    and "\<And>u. map_of (su_processes s) (pool_key rp) = Some u \<Longrightarrow>
      u_owner u = GetOwner rp \<and> GetRepository rp = Some (u_repo u) \<and> u_secretName u = GetRunnerSecretName rp"
  shows "\<exists>u. map_of (su_processes s') (pool_key rp) = Some u \<and> updater_of_pool rp u \<and>
    client_of fac cred (map_option u_githubClient (map_of (su_processes s) (pool_key rp))) (u_githubClient u)"
proof (cases "map_of (su_processes s) (pool_key rp)")
  case None
  with assms(2) obtain gh u m' where u: "fac cred = Inr gh" "newUpdateProcess gh rp (su_metrics s) = Returns (u, m')"
    "su_processes s' = AList.update (pool_key rp) (start_updater u) (su_processes s)"
    by (auto simp: su_Start_def Let_def split: if_splits sum.splits outcome.splits prod.splits)
  moreover have "updater_of_pool rp (start_updater u) \<and> u_githubClient (start_updater u) = gh"
    using u(2) by (auto simp: newUpdateProcess_def updater_of_pool_def start_updater_def updater_key_def pool_key_def Let_def
        split: option.splits)
  ultimately show ?thesis using None by (auto simp: AList.update_conv client_of_def)
next
  case (Some u)
  with assms(2) have "s' = s" by (auto simp: su_Start_def Let_def split: if_splits)
  with su_bookD(2) [OF assms(1) Some] assms(3) [OF Some] Some show ?thesis
    by (simp add: updater_of_pool_def client_of_def)
qed

text \<open>
  \<open>Wait\<close> returns an error only for an environment that was cancelled with one or whose goroutine
  returned one, and the goroutines of the processes return nil; as long as it returns none, every
  every process in the maps runs, with the URL of its agent.
\<close>

definition all_running :: "url_lib \<Rightarrow> 'w controller \<Rightarrow> bool" where
  "all_running ul c \<longleftrightarrow>
     (\<forall>p\<in>ran (map_of (c_rm_processes c)). p_running p \<and> url_ok ul p) \<and> (\<forall>u\<in>ran (map_of (c_su_processes c)). u_running u)"

lemma all_running_world [simp]: "all_running ul (c\<lparr>c_world := w\<rparr>) = all_running ul c"
  by (simp add: all_running_def)

lemma ran_update: "ran (m(k \<mapsto> v)) \<subseteq> insert v (ran m)"
  by (auto simp: ran_def split: if_splits)

lemma ran_delete: "ran (m(k := None)) \<subseteq> ran m"
  by (auto simp: ran_def split: if_splits)

lemma rm_StartOrUpdate_ran:
  assumes "rm_StartOrUpdate fac io a s = Some (e, s')"
    and "\<forall>p\<in>ran (map_of (rm_processes s)). p_running p \<and> url_ok (m_urls io) p"
  shows "\<forall>p\<in>ran (map_of (rm_processes s')). p_running p \<and> url_ok (m_urls io) p"
proof (cases "map_of (rm_processes s) (pool_key (fst a))")
  case None
  have new: "p_running (start_process p) \<and> url_ok (m_urls io) (start_process p)"
    if "newManageProcess (m_urls io) gh rp t = Returns (Inr p)" for gh rp t and p :: "'a manage_process"
    using url_ok_new [OF that] by (simp add: start_process_def)
  show ?thesis using None assms
    by (fastforce simp: rm_StartOrUpdate_def case_prod_beta Let_def AList.update_conv'
        split: if_splits sum.splits outcome.splits dest: new dest!: ran_update [THEN subsetD])
next
  case (Some p)
  obtain e1 p' where u: "update_process (m_urls io) (fst a) p = (e1, p')" by (metis prod.collapse)
  have "p_running p \<and> url_ok (m_urls io) p" using assms(2) Some by (auto simp: ran_def)
  then have "p_running p' \<and> url_ok (m_urls io) p'" using update_process_frame [OF u] url_ok_update [OF u] by simp
  with Some u assms ran_update show ?thesis
    by (fastforce simp: rm_StartOrUpdate_def case_prod_beta Let_def AList.update_conv' split: if_splits)
qed

lemma rm_Stop_ran:
  assumes "rm_Stop (\<lambda>k. None) a s = Some (e, s')" "\<forall>p\<in>ran (map_of (rm_processes s)). p_running p \<and> url_ok ul p"
  shows "\<forall>p\<in>ran (map_of (rm_processes s')). p_running p \<and> url_ok ul p"
proof -
  have "e1 = None" if "stop_process (\<lambda>k. None) p m w = Some (e1, p', m', w')" for p m w e1 p' m' w'
    using that by (auto simp: stop_process_def split: if_splits option.splits)
  with assms ran_delete show ?thesis
    by (fastforce simp: rm_Stop_def Let_def AList.delete_conv' split: option.splits)
qed

lemma su_Start_ran:
  assumes "su_Start fac a s = Some (e, s')" "\<forall>u\<in>ran (map_of (su_processes s)). u_running u"
  shows "\<forall>u\<in>ran (map_of (su_processes s')). u_running u"
proof -
  have "u_running (start_updater u)" for u :: "'a updater" by (simp add: start_updater_def)
  with assms ran_update show ?thesis
    by (fastforce simp: su_Start_def case_prod_beta Let_def AList.update_conv'
        split: if_splits option.splits sum.splits outcome.splits)
qed

lemma su_Stop_ran:
  assumes "su_Stop (\<lambda>k. None) a s = Some (e, s')" "\<forall>u\<in>ran (map_of (su_processes s)). u_running u"
  shows "\<forall>u\<in>ran (map_of (su_processes s')). u_running u"
proof -
  have "e1 = None" if "stop_updater (\<lambda>k. None) u m = (e1, u', m')" for u m e1 u' m'
    using that by (auto simp: stop_updater_def split: if_splits)
  with assms ran_delete show ?thesis
    by (fastforce simp: su_Stop_def Let_def AList.delete_conv' split: option.splits prod.splits)
qed

interpretation run: reconciler_calls "controller_io kc fac mio (\<lambda>k. None)" "all_running (m_urls mio)"
  for kc :: "'w kube_calls" and fac mio
proof
  fix c c' :: "'w controller" and a e rp
  show "all_running (m_urls mio) c'" if "all_running (m_urls mio) c" "k_rmStartOrUpdate (controller_io kc fac mio (\<lambda>k. None)) a c = Some (e, c')"
    using that rm_StartOrUpdate_ran [of fac mio a "rm_part c"]
    by (auto simp: on_rm_def all_running_def set_rm_def split: option.splits)
  show "all_running (m_urls mio) c'" if "all_running (m_urls mio) c" "k_rmStop (controller_io kc fac mio (\<lambda>k. None)) rp c = Some (e, c')"
    using that rm_Stop_ran [of "(rp, no_credential)" "rm_part c" _ _ "m_urls mio"]
    by (auto simp: on_rm_def all_running_def set_rm_def split: option.splits)
  show "all_running (m_urls mio) c'" if "all_running (m_urls mio) c" "k_suStart (controller_io kc fac mio (\<lambda>k. None)) a c = Some (e, c')"
    using that su_Start_ran [of fac a "su_part c"]
    by (auto simp: on_su_def all_running_def set_su_def split: option.splits)
  show "all_running (m_urls mio) c'" if "all_running (m_urls mio) c" "k_suStop (controller_io kc fac mio (\<lambda>k. None)) rp c = Some (e, c')"
    using that su_Stop_ran [of "(rp, no_credential)" "su_part c"]
    by (auto simp: on_su_def all_running_def set_su_def split: option.splits)
qed (simp_all add: on_world_def split: prod.splits)

lemma all_running_step:
  assumes "controller_step kc fac mio sio (\<lambda>k. None) r c c'" "all_running (m_urls mio) c"
  shows "all_running (m_urls mio) c'"
  using assms
proof cases
  case (step_reconcile ns n res)
  with assms(2) show ?thesis by (blast intro: run.Reconcile_keeps)
next
  case (step_tick k p e p' m' w')
  have "p_running p \<and> url_ok (m_urls mio) p" using step_tick(2) assms(2) by (auto simp: all_running_def ran_def)
  with runOnce_process [OF step_tick(4)] have "p_running p' \<and> url_ok (m_urls mio) p'" by (auto simp: url_ok_def)
  with step_tick(1) assms(2) ran_update [of "map_of (c_rm_processes c)" k p'] show ?thesis
    by (auto simp: all_running_def AList.update_conv')
next
  case (step_turn k u d m' w')
  with assms(2) show ?thesis by (simp add: all_running_def)
next
  case step_world
  with assms(2) show ?thesis by simp
qed

lemma all_running_steps:
  "controller_steps kc fac mio sio (\<lambda>k. None) r c0 c \<Longrightarrow> all_running (m_urls mio) c0 \<Longrightarrow> all_running (m_urls mio) c"
  by (induction rule: controller_steps.induct) (auto intro: all_running_step)

lemma all_running_new: "all_running ul (new_controller m w)"
  by (simp add: all_running_def new_controller_def set_rm_def set_su_def NewRunnerManager_def NewSecretUpdater_def)

text \<open>What a round that succeeds on a live pool has done to the managers.\<close>

lemma credential_world:
  "getGitHubCredential (controller_io kc fac mio wait) rp c = (x, c') \<Longrightarrow> \<exists>w. c' = c\<lparr>c_world := w\<rparr>"
  by (auto simp: getGitHubCredential_def Let_def dest!: on_world_parts(1) split: prod.splits sum.splits option.splits)

lemma secret_world:
  "reconcileSecret (controller_io kc fac mio wait) rp c = (x, c') \<Longrightarrow> \<exists>w. c' = c\<lparr>c_world := w\<rparr>"
  by (auto simp: reconcileSecret_def dest!: on_world_parts(1)
      split: prod.splits sum.splits option.splits kube_error.splits)

lemma apply_pool_processes:
  assumes "apply_pool (controller_io kc fac mio wait) r rp c = Some (Done, c')" "controller_wf c"
    and "made_for rp c" and "\<And>p. map_of (c_rm_processes c) (pool_key rp) = Some p \<Longrightarrow> url_ok (m_urls mio) p"
  shows "\<exists>cred. fst (getGitHubCredential (controller_io kc fac mio wait) rp c) = Inr cred \<and>
    (\<exists>p. map_of (c_rm_processes c') (pool_key rp) = Some p \<and> process_of_pool (m_urls mio) rp p \<and>
       client_of fac cred (map_option p_githubClient (map_of (c_rm_processes c) (pool_key rp))) (p_githubClient p)) \<and>
    (\<exists>u. map_of (c_su_processes c') (pool_key rp) = Some u \<and> updater_of_pool rp u \<and>
       client_of fac cred (map_option u_githubClient (map_of (c_su_processes c) (pool_key rp))) (u_githubClient u))"
proof -
  let ?io = "controller_io kc fac mio wait"
  from assms(1) obtain cred c1 c2 c3 e4 c4 c5 w6 where
    cred: "getGitHubCredential ?io rp c = (Inr cred, c1)" and
    sec: "reconcileSecret ?io rp c1 = (Inr True, c2)" and
    su: "k_suStart ?io (rp, cred) c2 = Some (None, c3)" and
    dep: "reconcileDeployment ?io r rp c3 = (e4, c4)" and
    rm: "k_rmStartOrUpdate ?io (rp, cred) c4 = Some (None, c5)" and
    st: "c' = c5\<lparr>c_world := w6\<rparr>"
    by (auto simp: apply_pool_def on_world_def split: option.splits sum.splits prod.splits if_splits)
  have dep': "\<exists>w. c4 = c3\<lparr>c_world := w\<rparr>"
    using dep by (auto simp: reconcileDeployment_def on_world_def split: prod.splits)
  have same: "\<exists>w. c2 = c\<lparr>c_world := w\<rparr>"
    using credential_world [OF cred] secret_world [OF sec] by auto
  have wf2: "controller_wf c2" using wf.secret_keeps [OF wf.credential_keeps [OF assms(2) cred] sec] .
  have "controller_wf c3" using wf.suStart_keeps [OF wf2 su] .
  with dep' have wf: "controller_wf c4" by auto
  from su obtain s2 where s2: "su_Start fac (rp, cred) (su_part c2) = Some (None, s2)" "c3 = set_su c2 s2"
    by (auto simp: on_su_def split: option.splits)
  have "\<exists>u. map_of (su_processes s2) (pool_key rp) = Some u \<and> updater_of_pool rp u \<and>
      client_of fac cred (map_option u_githubClient (map_of (su_processes (su_part c2)) (pool_key rp))) (u_githubClient u)"
    using same assms(3) by (intro su_Start_ok [OF controller_wf_books(2) [OF wf2] s2(1)]) (auto simp: made_for_def)
  moreover from rm obtain s where s: "rm_StartOrUpdate fac mio (rp, cred) (rm_part c4) = Some (None, s)" "c5 = set_rm c4 s"
    by (auto simp: on_rm_def split: option.splits)
  have old: "c_rm_processes c4 = c_rm_processes c" using same s2(2) dep' by (auto simp: set_su_def)
  have "\<exists>p. map_of (rm_processes s) (pool_key rp) = Some p \<and> process_of_pool (m_urls mio) rp p \<and>
      client_of fac cred (map_option p_githubClient (map_of (rm_processes (rm_part c4)) (pool_key rp))) (p_githubClient p)"
    using assms(3,4) old by (intro rm_StartOrUpdate_ok [OF controller_wf_books(1) [OF wf] s(1)]) (auto simp: made_for_def)
  moreover have "c_rm_processes c' = rm_processes s" "c_su_processes c' = su_processes s2"
    using st s(2) s2(2) dep' by (auto simp: set_rm_def set_su_def)
  moreover have "c_su_processes c2 = c_su_processes c" using same by auto
  ultimately show ?thesis using cred old by auto
qed

subsection \<open>A run for the witnesses\<close>

definition calm_calls :: "runner_pool \<Rightarrow> unit kube_calls" where
  "calm_calls rp =
     \<lparr>k_GetRunnerPool = (\<lambda>ns n w. (Inr rp, w)), k_UpdateRunnerPool = (\<lambda>q w. (None, w)),
      k_UpdateStatus = (\<lambda>q w. (None, w)), k_GetSecret = (\<lambda>ns n w. (Inr ready_secret, w)),
      k_CreateSecret = (\<lambda>sc w. (None, w)), k_ApplyDeployment = (\<lambda>d f w. (None, w)), k_lib = plain_lib\<rparr>"

definition calm_secret_io :: "unit secret_io" where
  "calm_secret_io = \<lparr>s_GetSecret = (\<lambda>ns n w. (Inl KNotFound, w)), s_PatchSecret = (\<lambda>s s' w. (None, w)),
     s_now = (\<lambda>w. (0, w))\<rparr>"

abbreviation calm_controller :: "runner_pool \<Rightarrow> unit controller reconciler_io" where
  "calm_controller rp \<equiv> controller_io (calm_calls rp) (\<lambda>cred. Inr no_github) (static_io stale_status) (\<lambda>k. None)"

lemma no_process_new: "c_rm_processes (new_controller m w) = []" "c_su_processes (new_controller m w) = []"
  by (simp_all add: new_controller_def set_rm_def set_su_def NewRunnerManager_def NewSecretUpdater_def)

lemma made_for_new: "made_for rp (new_controller m w)"
  by (simp add: made_for_def no_process_new)

lemma calm_start:
  "controller_steps (calm_calls rp) (\<lambda>cred. Inr no_github) (static_io stale_status) calm_secret_io (\<lambda>k. None)
     open_reconciler (new_controller InitControllerMetrics ()) (new_controller InitControllerMetrics ())"
  by (rule steps_refl)

lemma on_world_calm: "on_world (\<lambda>w. (a, w)) c = (a, c)"
  by (simp add: on_world_def)

lemma calm_calls_simps [simp]:
  "k_GetRunnerPool (calm_calls rp) ns n = (\<lambda>w. (Inr rp, w))" "k_UpdateRunnerPool (calm_calls rp) q = (\<lambda>w. (None, w))"
  "k_UpdateStatus (calm_calls rp) q = (\<lambda>w. (None, w))" "k_GetSecret (calm_calls rp) ns n = (\<lambda>w. (Inr ready_secret, w))"
  "k_ApplyDeployment (calm_calls rp) d f = (\<lambda>w. (None, w))" "k_lib (calm_calls rp) = plain_lib"
  by (simp_all add: calm_calls_def)

lemma ready_secret_gets:
  "gm_get (sec_Data ready_secret) CredentialSecretDataPATToken = Some ''pat''"
  "gm_get (Annotations (sec_meta ready_secret)) RunnerSecretExpiresAtAnnotationKey = Some ''2024-01-01T00:00:00Z''"
  by (simp_all add: ready_secret_def gm_get_def)

lemma sample_pool_key: "pool_key sample_pool = ''ns/pool''" "pool_key deleting_pool = ''ns/pool''"
  by (simp_all add: pool_key_def namespaced_name_def sample_pool_def deleting_pool_def)

lemma calm_bound_round:
  "\<exists>c'. Reconcile (calm_controller sample_pool) open_reconciler ns n (new_controller InitControllerMetrics ()) = Some (Done, c')"
proof -
  let ?io = "calm_controller sample_pool"
  obtain repo where repo: "GetRepository sample_pool = Some repo"
    using sample_spec_ok spec_ok_GetRepository [of sample_pool] by (auto simp: sample_pool_def)
  have url: "\<exists>u. NewAgentClient sample_urls name = Inr u" for name
    by (auto simp: NewAgentClient_def UpdateServerURL_def sample_urls_def)
  have del: "DeletionTimestamp (rp_meta sample_pool) = None" by (simp add: sample_pool_def empty_meta_def)
  have val: "validation open_reconciler sample_pool = None" by (simp add: validation_def open_reconciler_def)
  have cred: "\<exists>cred. getGitHubCredential ?io sample_pool c = (Inr cred, c)" for c
    by (simp add: getGitHubCredential_def on_world_calm ready_secret_gets Let_def)
  have sec: "reconcileSecret ?io sample_pool c = (Inr True, c)" for c
    by (simp add: reconcileSecret_def on_world_calm ready_secret_gets)
  have dep: "reconcileDeployment ?io open_reconciler sample_pool c = (None, c)" for c
    by (simp add: reconcileDeployment_def on_world_calm)
  have su: "\<exists>c'. on_su (su_Start (\<lambda>cred. Inr no_github) (sample_pool, cred)) c = Some (None, c') \<and>
      c_rm_processes c' = c_rm_processes c \<and> c_rm_stopped c' = c_rm_stopped c"
    if "c_su_stopped c = False" "c_su_processes c = []" for cred and c :: "unit controller"
    using that by (simp add: on_su_def su_Start_def newUpdateProcess_def repo set_su_def Let_def)
  have rm: "\<exists>c'. on_rm (rm_StartOrUpdate (\<lambda>cred. Inr no_github) (static_io stale_status) (sample_pool, cred)) c = Some (None, c')"
    if "c_rm_stopped c = False" "c_rm_processes c = []" for cred and c :: "unit controller"
    using that url [of "agent_name sample_pool"]
    by (auto simp: on_rm_def rm_StartOrUpdate_def newManageProcess_def repo static_io_def Let_def)
  let ?c = "new_controller InitControllerMetrics ()"
  have new: "c_su_stopped ?c = False" "c_su_processes ?c = []" "c_rm_stopped ?c = False" "c_rm_processes ?c = []"
    by (simp_all add: new_controller_def set_rm_def set_su_def NewRunnerManager_def NewSecretUpdater_def)
  obtain cr where cr: "getGitHubCredential ?io sample_pool ?c = (Inr cr, ?c)" using cred by blast
  obtain c1 where c1: "on_su (su_Start (\<lambda>cred. Inr no_github) (sample_pool, cr)) ?c = Some (None, c1)"
    "c_rm_processes c1 = []" "c_rm_stopped c1 = False" using su [OF new(1,2), of cr] new(3,4) by auto
  obtain c2 where c2: "on_rm (rm_StartOrUpdate (\<lambda>cred. Inr no_github) (static_io stale_status) (sample_pool, cr)) c1 = Some (None, c2)"
    using rm [OF c1(3,2), of cr] by blast
  have "Reconcile ?io open_reconciler ns n ?c = Some (Done, c2)"
    unfolding Reconcile_def controller_io_simps calm_calls_simps on_world_calm prod.case sum.case del apply_pool_def val cr
      option.case sec c1 dep c2 by simp
  then show ?thesis ..
qed

subsection \<open>Properties\<close>

text \<open>
  C10. The metrics of the controller are in step with its processes: in every state it can reach, whatever rounds, ticks
  and refreshes were interleaved, the runners with an online series and those with a busy series of a pool are
  both exactly those its running process listed last, a pool without a running process has neither and no gauge
  of replicas, a pool with a listed runner has the gauge, the retry counter of a pool exists exactly while its secret
  updater runs, and every process is stored under the name of its own pool.
\<close>

theorem controller_metrics_exact:
  assumes "controller_steps kc fac mio sio wait r (new_controller InitControllerMetrics w) c"
  shows "exported (c_metrics c) k = (listed_runners (c_rm_processes c) k, listed_runners (c_rm_processes c) k) \<and>
    (runnerPoolReplicas (c_metrics c) k \<noteq> None \<longrightarrow> (\<exists>p. map_of (c_rm_processes c) k = Some p \<and> p_running p)) \<and>
    (listed_runners (c_rm_processes c) k \<noteq> {} \<longrightarrow> runnerPoolReplicas (c_metrics c) k \<noteq> None) \<and>
    (RunnerPoolSecretRetryCount (c_metrics c) k \<noteq> None \<longleftrightarrow>
       (\<exists>u. map_of (c_su_processes c) k = Some u \<and> u_running u)) \<and>
    (\<forall>p. map_of (c_rm_processes c) k = Some p \<longrightarrow> rpNamespacedName p = k) \<and>
    (\<forall>u. map_of (c_su_processes c) k = Some u \<longrightarrow> updater_key u = k)"
  using controller_wf_series [OF controller_wf_steps [OF assms controller_wf_new]] by blast

theorem controller_metrics_exact_witness:
  "\<exists>c p. Reconcile (calm_controller sample_pool) open_reconciler ''ns'' ''pool'' (new_controller InitControllerMetrics ()) =
       Some (Done, c) \<and> map_of (c_rm_processes c) ''ns/pool'' = Some p \<and> rpNamespacedName p = ''ns/pool''"
proof -
  obtain c where c: "Reconcile (calm_controller sample_pool) open_reconciler ''ns'' ''pool'' (new_controller InitControllerMetrics ()) =
      Some (Done, c)" using calm_bound_round by blast
  have steps: "controller_steps (calm_calls sample_pool) (\<lambda>cred. Inr no_github) (static_io stale_status) calm_secret_io (\<lambda>k. None)
      open_reconciler (new_controller InitControllerMetrics ()) c"
    by (rule steps_next [OF steps_refl step_reconcile [OF c]])
  have live: "DeletionTimestamp (rp_meta sample_pool) = None" by (simp add: sample_pool_def empty_meta_def)
  have app: "apply_pool (calm_controller sample_pool) open_reconciler sample_pool (new_controller InitControllerMetrics ()) = Some (Done, c)"
    using c live by (simp add: Reconcile_def on_world_calm)
  obtain p where "map_of (c_rm_processes c) ''ns/pool'' = Some p"
    using apply_pool_processes [OF app controller_wf_new made_for_new] by (force simp: sample_pool_key no_process_new)
  with c controller_metrics_exact [OF steps, of "''ns/pool''"] show ?thesis by blast
qed

text \<open>
  C12. Finalizing a pool ends its management completely: after a successful round for a pool that is
  being deleted and still has the finalizer, neither manager has a process for it and nothing is exported about
  it, neither an online nor a busy series nor the gauge of replicas nor the retry counter; the processes of all
  other pools are what they were and everything that is exported about them has its value from before.
\<close>

theorem finalized_pool_forgotten:
  assumes "controller_steps kc fac mio sio wait r (new_controller InitControllerMetrics w) c"
    and "fst (k_GetRunnerPool kc ns n (c_world c)) = Inr rp" and "DeletionTimestamp (rp_meta rp) \<noteq> None"
    and "ContainsFinalizer (k_lib kc) RunnerPoolFinalizer (Finalizers (rp_meta rp))"
    and "Reconcile (controller_io kc fac mio wait) r ns n c = Some (Done, c')"
  shows "map_of (c_rm_processes c') = (map_of (c_rm_processes c))(pool_key rp := None) \<and>
    map_of (c_su_processes c') = (map_of (c_su_processes c))(pool_key rp := None) \<and>
    pool_series (c_metrics c') (pool_key rp) = no_series \<and>
    (\<forall>k. k \<noteq> pool_key rp \<longrightarrow> pool_series (c_metrics c') k = pool_series (c_metrics c) k)"
proof -
  obtain w1 where get: "k_GetRunnerPool kc ns n (c_world c) = (Inr rp, w1)" using assms(2) by (metis prod.collapse)
  with assms(3,5) have "finalize_pool (controller_io kc fac mio wait) rp (c\<lparr>c_world := w1\<rparr>) = Some (Done, c')"
    by (auto simp: Reconcile_def on_world_def)
  note f = finalize_pool_processes [OF this assms(4)]
  have wf: "controller_wf c" using controller_wf_steps [OF assms(1) controller_wf_new] .
  have "controller_wf c'" using wf.Reconcile_keeps [OF wf assms(5)] .
  note s = controller_wf_series [OF this, of "pool_key rp"]
  have "map_of (c_rm_processes c') (pool_key rp) = None" "map_of (c_su_processes c') (pool_key rp) = None"
    using f(1,2) by simp_all
  moreover from this have "runnerPoolReplicas (c_metrics c') (pool_key rp) = None" using s(2) by fastforce
  ultimately have "pool_series (c_metrics c') (pool_key rp) = no_series"
    unfolding no_series_iff using s(1,3) by (simp add: listed_runners_def)
  with f wf show ?thesis by simp
qed

theorem finalized_pool_forgotten_witness:
  "\<exists>c'. Reconcile (calm_controller deleting_pool) open_reconciler ''ns'' ''pool'' (new_controller InitControllerMetrics ()) =
       Some (Done, c') \<and> map_of (c_rm_processes c') ''ns/pool'' = None"
proof -
  let ?c = "new_controller InitControllerMetrics () :: unit controller"
  have fin: "DeletionTimestamp (rp_meta deleting_pool) \<noteq> None"
    "ContainsFinalizer plain_lib RunnerPoolFinalizer (Finalizers (rp_meta deleting_pool))"
    by (simp_all add: deleting_pool_def plain_lib_def)
  have new: "c_su_processes ?c = []" "c_rm_processes ?c = []"
    by (simp_all add: new_controller_def set_rm_def set_su_def NewRunnerManager_def NewSecretUpdater_def)
  have "\<exists>c'. Reconcile (calm_controller deleting_pool) open_reconciler ''ns'' ''pool'' ?c = Some (Done, c')"
    using fin new
    by (auto simp: Reconcile_def on_world_calm finalize_pool_def on_rm_def on_su_def rm_Stop_def su_Stop_def set_rm_def Let_def)
  then obtain c' where c': "Reconcile (calm_controller deleting_pool) open_reconciler ''ns'' ''pool'' ?c = Some (Done, c')" ..
  have "fst (k_GetRunnerPool (calm_calls deleting_pool) ''ns'' ''pool'' (c_world ?c)) = Inr deleting_pool" by simp
  note f = finalized_pool_forgotten [OF calm_start this fin(1) _ c']
  have "map_of (c_rm_processes c') = (map_of (c_rm_processes ?c))(pool_key deleting_pool := None)"
    by (rule conjunct1 [OF f]) (simp add: fin(2))
  with c' show ?thesis by (simp add: sample_pool_key)
qed

text \<open>
  C13. A bound pool is managed. Let waiting for a goroutine report no error, and let the processes that the managers
  have for the pool, if any, have been made for its owner and repository. Then a round that succeeds on a live pool
  has read a credential and leaves a running process in the runner manager that has the configuration of the
  pool's spec in every part, with the owner, the repository, the numbers, the Slack settings, the URL of the agent, the
  durations and the protection, and a running process in the secret updater for the same owner, repository and
  secret. The GitHub client of each is the one that the factory makes of that credential when the process is
  new; a process that was there keeps the client it was started with.
\<close>

theorem bound_pool_managed:
  assumes "controller_steps kc fac mio sio (\<lambda>k. None) r (new_controller InitControllerMetrics w) c"
    and "k_GetRunnerPool kc ns n (c_world c) = (Inr rp, w1)" and "DeletionTimestamp (rp_meta rp) = None"
    and "Reconcile (controller_io kc fac mio (\<lambda>k. None)) r ns n c = Some (Done, c')" and "made_for rp c"
  shows "\<exists>cred. fst (getGitHubCredential (controller_io kc fac mio (\<lambda>k. None)) rp (c\<lparr>c_world := w1\<rparr>)) = Inr cred \<and>
    (\<exists>p. map_of (c_rm_processes c') (pool_key rp) = Some p \<and> p_running p \<and> process_of_pool (m_urls mio) rp p \<and>
       client_of fac cred (map_option p_githubClient (map_of (c_rm_processes c) (pool_key rp))) (p_githubClient p)) \<and>
    (\<exists>u. map_of (c_su_processes c') (pool_key rp) = Some u \<and> u_running u \<and> updater_of_pool rp u \<and>
       client_of fac cred (map_option u_githubClient (map_of (c_su_processes c) (pool_key rp))) (u_githubClient u))"
proof -
  let ?c = "c\<lparr>c_world := w1\<rparr>"
  have app: "apply_pool (controller_io kc fac mio (\<lambda>k. None)) r rp ?c = Some (Done, c')"
    using assms(2-4) by (simp add: Reconcile_def on_world_def)
  have wf: "controller_wf ?c" using controller_wf_steps [OF assms(1) controller_wf_new] by simp
  have run: "all_running (m_urls mio) c" by (rule all_running_steps [OF assms(1) all_running_new])
  then have "url_ok (m_urls mio) p" if "map_of (c_rm_processes ?c) (pool_key rp) = Some p" for p
    using that by (auto simp: all_running_def ran_def)
  moreover have "made_for rp ?c" using assms(5) by (simp add: made_for_def)
  moreover have "all_running (m_urls mio) c'" using run.Reconcile_keeps [OF run assms(4)] .
  then have "map_of (c_rm_processes c') k = Some p \<Longrightarrow> p_running p" "map_of (c_su_processes c') k = Some u \<Longrightarrow> u_running u"
    for k p u by (auto simp: all_running_def ran_def)
  ultimately show ?thesis using apply_pool_processes [OF app wf] by fastforce
qed

theorem bound_pool_managed_witness:
  "\<exists>c p. Reconcile (calm_controller sample_pool) open_reconciler ''ns'' ''pool'' (new_controller InitControllerMetrics ()) =
       Some (Done, c) \<and> map_of (c_rm_processes c) ''ns/pool'' = Some p \<and> p_running p \<and> p_maxRunnerPods p = 3 \<and>
     p_owner p = ''cybozu'' \<and> p_githubClient p = no_github"
proof -
  obtain c where c: "Reconcile (calm_controller sample_pool) open_reconciler ''ns'' ''pool'' (new_controller InitControllerMetrics ()) =
      Some (Done, c)" using calm_bound_round by blast
  have live: "DeletionTimestamp (rp_meta sample_pool) = None" by (simp add: sample_pool_def empty_meta_def)
  have "k_GetRunnerPool (calm_calls sample_pool) ''ns'' ''pool'' (c_world (new_controller InitControllerMetrics ())) = (Inr sample_pool, ())"
    by simp
  from bound_pool_managed [OF calm_start this live c made_for_new] obtain p where
    "map_of (c_rm_processes c) ''ns/pool'' = Some p" "p_running p" "process_of_pool sample_urls sample_pool p"
    "p_githubClient p = no_github"
    by (auto simp: sample_pool_key client_of_def no_process_new static_io_def)
  moreover have "sp_MaxRunnerPods (Spec sample_pool) = 3" by (simp add: sample_pool_def sample_spec_def)
  moreover have "GetOwner sample_pool = ''cybozu''" by code_simp
  ultimately show ?thesis using c by (auto simp: process_of_pool_def)
qed

end
