(* ===== verification/Go_Json_Indent.thy ===== *)
theory Go_Json_Indent
  imports Go_Json
begin

section \<open>encoding/json: indented output\<close>

text \<open>
  \<open>json.MarshalIndent(v, "", indent)\<close>: every element and every field on a line of its own, one indent
  per level; empty arrays and objects stay on one line. The reader reads it back, like the compact form.
\<close>

definition new_line :: "string \<Rightarrow> nat \<Rightarrow> string" where
  "new_line ind d = CHR 10 # concat (replicate d ind)"

fun print_indent :: "string \<Rightarrow> nat \<Rightarrow> json \<Rightarrow> string"
  and indent_elems :: "string \<Rightarrow> nat \<Rightarrow> json list \<Rightarrow> string"
  and indent_fields :: "string \<Rightarrow> nat \<Rightarrow> (string \<times> json) list \<Rightarrow> string"
  and indent_field :: "string \<Rightarrow> nat \<Rightarrow> string \<times> json \<Rightarrow> string" where
  "print_indent ind d JNull = ''null''"
| "print_indent ind d (JBool b) = (if b then ''true'' else ''false'')"
| "print_indent ind d (JNum l) = l"
| "print_indent ind d (JStr s) = print_str s"
| "print_indent ind d (JArr js) =
     (if js = [] then ''[]''
      else ''['' @ new_line ind (Suc d) @ indent_elems ind (Suc d) js @ new_line ind d @ '']'')"
| "print_indent ind d (JObj fs) =
     (if fs = [] then ''{}''
      else ''{'' @ new_line ind (Suc d) @ indent_fields ind (Suc d) fs @ new_line ind d @ ''}'')"
| "indent_elems ind d [] = []"
| "indent_elems ind d [j] = print_indent ind d j"
| "indent_elems ind d (j # js) = print_indent ind d j @ '','' @ new_line ind d @ indent_elems ind d js"
| "indent_fields ind d [] = []"
| "indent_fields ind d [f] = indent_field ind d f"
| "indent_fields ind d (f # fs) = indent_field ind d f @ '','' @ new_line ind d @ indent_fields ind d fs"
| "indent_field ind d (k, v) = print_str k @ '': '' @ print_indent ind d v"

subsection \<open>White space before a document\<close>

lemma skip_ws_append: "list_all is_ws ws \<Longrightarrow> skip_ws (ws @ s) = skip_ws s"
  by (simp add: skip_ws_def list_all_iff dropWhile_append)

lemma parse_json_ws: "list_all is_ws ws \<Longrightarrow> parse_json n (ws @ s) = parse_json n s"
  by (cases n) (simp_all add: skip_ws_append)

lemma parse_elems_ws: "list_all is_ws ws \<Longrightarrow> parse_elems n (ws @ s) = parse_elems n s"
  by (cases n) (simp_all add: parse_json_ws)

lemma parse_fields_ws: "list_all is_ws ws \<Longrightarrow> parse_fields n (ws @ s) = parse_fields n s"
  by (cases n) (simp_all add: skip_ws_append)

lemma new_line_ws: "list_all is_ws ind \<Longrightarrow> list_all is_ws (new_line ind d)"
  by (auto simp: new_line_def list_all_iff is_ws_def)

lemmas after_new_line =
  skip_ws_append [OF new_line_ws] parse_elems_ws [OF new_line_ws] parse_fields_ws [OF new_line_ws]

lemma parse_json_space: "parse_json n (CHR '' '' # s) = parse_json n s"
  using parse_json_ws [of "'' ''" n s] by (simp add: is_ws_def)

lemma stops_new_line: "stops (new_line ind d @ r)"
  by (simp add: new_line_def stops_def)

lemma print_indent_first:
  "wf_json j \<Longrightarrow> \<exists>c cs. print_indent ind d j = c # cs \<and> \<not> is_ws c \<and> c \<noteq> CHR '']'' \<and> c \<noteq> CHR ''}''"
proof (cases j)
  case (JNum l)
  assume "wf_json j"
  then obtain i where "l = itoa i" by (auto simp: JNum int_lit_def split: option.splits)
  with itoa_first [of i] JNum show ?thesis by (auto simp: is_digit_def is_ws_def)
qed (auto simp: print_str_def is_ws_def)

lemma indent_elems_first:
  assumes "js \<noteq> []" "list_all wf_json js"
  shows "\<exists>c cs. indent_elems ind d js = c # cs \<and> \<not> is_ws c \<and> c \<noteq> CHR '']''"
proof -
  obtain j js' where js: "js = j # js'" using assms(1) by (cases js) auto
  with assms(2) print_indent_first [of j ind d] show ?thesis by (cases js') auto
qed

lemma indent_fields_first: "fs \<noteq> [] \<Longrightarrow> \<exists>cs. indent_fields ind d fs = CHR 34 # cs"
proof -
  assume "fs \<noteq> []"
  then obtain k v fs' where "fs = (k, v) # fs'" by (cases fs) auto
  then show ?thesis by (cases fs') (auto simp: print_str_def)
qed

lemma parse_print_indent:
  assumes ws: "list_all is_ws ind"
  shows "wf_json j \<Longrightarrow> 2 * length (print_indent ind d j) \<le> n \<Longrightarrow> stops r \<Longrightarrow>
      parse_json n (print_indent ind d j @ r) = Some (j, r)"
    and "list_all wf_json js \<Longrightarrow> js \<noteq> [] \<Longrightarrow> 2 * length (indent_elems ind d js) + 1 \<le> n \<Longrightarrow>
      parse_elems n (indent_elems ind d js @ new_line ind e @ CHR '']'' # r) = Some (js, r)"
    and "list_all (\<lambda>(k, v). wf_json v) fs \<Longrightarrow> fs \<noteq> [] \<Longrightarrow> 2 * length (indent_fields ind d fs) + 1 \<le> n \<Longrightarrow>
      parse_fields n (indent_fields ind d fs @ new_line ind e @ CHR ''}'' # r) = Some (fs, r)"
    and "wf_json (snd (f :: string \<times> json)) \<Longrightarrow> 2 * length (print_indent ind d (snd f)) \<le> n \<Longrightarrow> stops r \<Longrightarrow>
      parse_json n (print_indent ind d (snd f) @ r) = Some (snd f, r)"
  using ws
proof (induction ind d j and ind d js and ind d fs and ind d f arbitrary: n r and n r e and n r e and n r
    rule: print_indent_indent_elems_indent_fields_indent_field.induct)
  case (1 ind d)
  then show ?case by (cases n) (auto simp: strip_lit_def hasPrefix_def Let_def)
next
  case (2 ind d b)
  then show ?case by (cases n; cases b) (auto simp: strip_lit_def hasPrefix_def Let_def)
next
  case (3 ind d l)
  then obtain i where i: "l = itoa i" by (auto simp: int_lit_def split: option.splits)
  obtain n' where "n = Suc n'" using "3.prems"(2) itoa_first [of i] i by (cases n) auto
  with parse_json_int [OF "3.prems"(3)] i show ?case by simp
next
  case (4 ind d s)
  then show ?case by (cases n) (auto simp: print_str_def parse_print_str)
next
  case (5 ind d js)
  then obtain n' where n: "n = Suc n'" by (cases n) (auto split: if_splits)
  show ?case
  proof (cases "js = []")
    case False
    obtain c cs where c: "indent_elems ind (Suc d) js = c # cs" "\<not> is_ws c" "c \<noteq> CHR '']''"
      using indent_elems_first [OF False, of ind "Suc d"] "5.prems"(1) by auto
    have "parse_elems n' (indent_elems ind (Suc d) js @ new_line ind d @ CHR '']'' # r) = Some (js, r)"
      by (rule "5.IH") (use "5.prems" False n in auto)
    with c n False "5.prems"(4) show ?thesis by (simp add: after_new_line skip_ws_def [of "c # _"])
  qed (simp add: n)
next
  case (6 ind d fs)
  then obtain n' where n: "n = Suc n'" by (cases n) (auto split: if_splits)
  show ?case
  proof (cases "fs = []")
    case False
    obtain cs where c: "indent_fields ind (Suc d) fs = CHR 34 # cs" using indent_fields_first [OF False] by blast
    have "parse_fields n' (indent_fields ind (Suc d) fs @ new_line ind d @ CHR ''}'' # r) = Some (fs, r)"
      by (rule "6.IH") (use "6.prems" False n in auto)
    with c n False "6.prems"(4) show ?thesis by (simp add: after_new_line)
  qed (simp add: n)
next
  case (7 ind d)
  then show ?case by simp
next
  case (8 ind d j)
  then obtain n' where n: "n = Suc n'" by (cases n) auto
  with "8.IH" [of n' "new_line ind e @ CHR '']'' # r"] "8.prems" show ?case
    by (simp add: after_new_line stops_new_line)
next
  case (9 ind d j j2 js)
  then obtain n' where n: "n = Suc n'" by (cases n) auto
  with "9.IH"(1) [of n' "CHR '','' # new_line ind d @ indent_elems ind d (j2 # js) @ new_line ind e @ CHR '']'' # r"]
    "9.IH"(2) [of n' e r] "9.prems"
  show ?case by (simp add: after_new_line)
next
  case (10 ind d)
  then show ?case by simp
next
  case (11 ind d f)
  obtain k v where f: "f = (k, v)" by (cases f)
  from 11 obtain n' where n: "n = Suc n'" by (cases n) auto
  with "11.IH" [of n' "new_line ind e @ CHR ''}'' # r"] "11.prems" f show ?case
    by (simp add: print_str_def parse_print_str parse_json_space after_new_line stops_new_line)
next
  case (12 ind d f f2 fs)
  obtain k v where f: "f = (k, v)" by (cases f)
  from 12 obtain n' where n: "n = Suc n'" by (cases n) auto
  with "12.IH"(1) [of n' "CHR '','' # new_line ind d @ indent_fields ind d (f2 # fs) @ new_line ind e @ CHR ''}'' # r"]
    "12.IH"(2) [of n' e r] "12.prems" f
  show ?case by (simp add: print_str_def parse_print_str parse_json_space after_new_line)
next
  case (13 ind d k v)
  then show ?case by simp
qed

lemma unmarshal_print_indent:
  "wf_json j \<Longrightarrow> list_all is_ws ind \<Longrightarrow> unmarshal (print_indent ind 0 j) = Some j"
  using parse_print_indent(1) [of ind j 0 "2 * length (print_indent ind 0 j) + 1" "[]"] by (simp add: unmarshal_def)

end
