(* ===== verification/Commands.thy ===== *)
theory Commands
  imports Controller_System Go_Json_Indent
begin

section \<open>cmd: the commands\<close>

text \<open>
  The commands of the repository around the components: \<open>job-started\<close>, which a job runs first and which
  writes the job information for the runner pod; \<open>meows slackagent\<close> and \<open>meows runner\<close> for users; the
  entry point of a runner pod, the Slack agent and the controller. The process environment, files and
  standard output are the record \<open>cmd_os\<close>; the values of the flags are arguments, their defaults are
  definitions. The parser of flags (\<open>cobra\<close>, \<open>viper\<close>), the YAML parser, the compiler of regular
  expressions and the manager of \<open>controller-runtime\<close> are parameters.
\<close>

record 'w cmd_os =
  co_environ :: environ
  co_files :: "'w \<Rightarrow> filesystem"
  co_write :: "string \<Rightarrow> string \<Rightarrow> 'w \<Rightarrow> string option \<times> 'w"
  co_print :: "string \<Rightarrow> 'w \<Rightarrow> 'w"

datatype cmd_error =
    BadArgs
  | JobInfoError job_error
  | WriteError string
  | AgentClientError string
  | PostError post_error
  | InvalidFormat string
  | ClientError gh_error
  | RemoveError string int gh_error
  | EmptyToken string
  | LoggerError string
  | ServerError string
  | EnvError env_error

text \<open>Every \<open>Execute\<close> exits with 1 on an error of its command and otherwise returns from main.\<close>

definition Execute :: "'e option \<Rightarrow> int" where
  "Execute err = (case err of None \<Rightarrow> 0 | Some e \<Rightarrow> 1)"

subsection \<open>cmd/job-started\<close>

definition default_jobInfoFile :: string where
  "default_jobInfoFile = RunnerVarDirPath @ ''/github.env''"

definition default_slackChannelFile :: string where
  "default_slackChannelFile = SlackChannelFilePath"

definition job_started ::
    "'w cmd_os \<Rightarrow> string \<Rightarrow> string \<Rightarrow> string list \<Rightarrow> 'w \<Rightarrow> cmd_error option \<times> 'w" where
  "job_started os jobFile channelFile args w =
     (if args \<noteq> [] then (Some BadArgs, w)
      else case GetJobInfo (co_environ os) of
        Inl e \<Rightarrow> (Some (JobInfoError e), w)
      | Inr info \<Rightarrow>
          (case co_write os jobFile (print_json (job_info_json info)) w of
             (Some e, w1) \<Rightarrow> (Some (WriteError e), w1)
           | (None, w1) \<Rightarrow>
               (case co_write os channelFile (getenv (co_environ os) SlackChannelEnvName) w1 of
                  (Some e, w2) \<Rightarrow> (Some (WriteError e), w2)
                | (None, w2) \<Rightarrow> (None, w2))))"

subsection \<open>cmd/entrypoint\<close>

definition default_listenAddr :: string where
  "default_listenAddr = '':'' @ itoa RunnerListenPort"

definition entrypoint :: "'w cmd_os \<Rightarrow> string \<Rightarrow> 'w \<Rightarrow> cmd_error + listener_impl \<times> 'w pod" where
  "entrypoint os addr w =
     (case NewRunner (co_environ os) addr RunnerRootDirPath RunnerWorkDirPath RunnerVarDirPath of
        Inl e \<Rightarrow> Inl (EnvError e)
      | Inr r \<Rightarrow> Inr (NewListener RunnerRootDirPath, new_pod r w))"

subsection \<open>cmd/meows slackagent\<close>

record send_config =
  sc_server :: string
  sc_namespace :: string
  sc_jobInfoFile :: string
  sc_channel :: string
  sc_extend :: bool

definition default_send_config :: send_config where
  "default_send_config = \<lparr>sc_server = ''http://127.0.0.1:8080'', sc_namespace = ''default'',
     sc_jobInfoFile = RunnerVarDirPath @ ''/github.env'', sc_channel = [], sc_extend = False\<rparr>"

definition slackagent_send ::
    "'w cmd_os \<Rightarrow> url_lib \<Rightarrow> 'w network \<Rightarrow> send_config \<Rightarrow> string list \<Rightarrow> 'w \<Rightarrow> cmd_error option \<times> 'w" where
  "slackagent_send os ul net cfg args w =
     (if length args < 1 \<or> 2 < length args then (Some BadArgs, w)
      else (let pod = args ! 0; res = (if length args > 1 then args ! 1 else [])
            in case GetJobInfoFromFile (co_files os w) (sc_jobInfoFile cfg) of
                 Inl e \<Rightarrow> (Some (JobInfoError e), w)
               | Inr info \<Rightarrow>
                   (case NewAgentClient ul (sc_server cfg) of
                      Inl e \<Rightarrow> (Some (AgentClientError e), w)
                    | Inr url \<Rightarrow>
                        (case PostResult ul net url (sc_channel cfg) res (sc_extend cfg) (sc_namespace cfg) pod info w of
                           (Some e, w') \<Rightarrow> (Some (PostError e), w')
                         | (None, w') \<Rightarrow> (None, w')))))"

definition slackagent_set_channel ::
    "'w cmd_os \<Rightarrow> string \<Rightarrow> string list \<Rightarrow> 'w \<Rightarrow> cmd_error option \<times> 'w" where
  "slackagent_set_channel os file args w =
     (if 1 < length args then (Some BadArgs, w)
      else (let arg = (case args of [a] \<Rightarrow> a | _ \<Rightarrow> []);
                channel = (if arg = [] then getenv (co_environ os) SlackChannelEnvName else arg)
            in case co_write os file channel w of
                 (Some e, w1) \<Rightarrow> (Some (WriteError e), w1)
               | (None, w1) \<Rightarrow>
                   (None, co_print os (''Set slack channel to '' @ [CHR 39] @ channel @ [CHR 39] @ ''.'' @ [CHR 10]) w1)))"

subsection \<open>cmd/meows runner\<close>

record runner_config =
  rcfg_appID :: int
  rcfg_appInstallationID :: int
  rcfg_appPrivateKeyPath :: string
  rcfg_personalAccessToken :: string

definition splitOwnerRepo :: "string \<Rightarrow> cmd_error + string \<times> string" where
  "splitOwnerRepo str =
     (case split_go (CHR ''/'') str of
        [owner] \<Rightarrow> Inr (owner, [])
      | [owner, repo] \<Rightarrow> Inr (owner, repo)
      | _ \<Rightarrow> Inl (InvalidFormat str))"

text \<open>The client that the commands share, made before each of them runs.\<close>

definition runner_client_of :: "'w gh_transports \<Rightarrow> runner_config \<Rightarrow> cmd_error + 'w gh_client" where
  "runner_client_of tr cfg =
     (let cred = (if rcfg_personalAccessToken cfg \<noteq> []
                  then no_credential\<lparr>PersonalAccessToken := rcfg_personalAccessToken cfg\<rparr>
                  else no_credential\<lparr>AppID := rcfg_appID cfg, AppInstallationID := rcfg_appInstallationID cfg,
                         PrivateKeyPath := rcfg_appPrivateKeyPath cfg\<rparr>)
      in case New tr cred of Inl e \<Rightarrow> Inl (ClientError e) | Inr c \<Rightarrow> Inr c)"

text \<open>
  A runner in JSON: the struct has no tags, and a nil slice, which is what the client makes of no
  labels and of no runners, is null.
\<close>

definition gh_runner_json :: "gh_runner \<Rightarrow> json" where
  "gh_runner_json r =
     JObj [(''ID'', JNum (itoa (r_ID r))), (''Name'', JStr (r_Name r)), (''Online'', JBool (r_Online r)),
           (''Busy'', JBool (r_Busy r)),
           (''Labels'', if r_Labels r = [] then JNull else JArr (map JStr (r_Labels r)))]"

definition gh_runners_json :: "gh_runner list \<Rightarrow> json" where
  "gh_runners_json rs = (if rs = [] then JNull else JArr (map gh_runner_json rs))"

definition runner_list ::
    "'w cmd_os \<Rightarrow> 'w gh_client \<Rightarrow> string list \<Rightarrow> 'w \<Rightarrow> (cmd_error option \<times> 'w) option" where
  "runner_list os c args w =
     (case args of
        [arg] \<Rightarrow>
          (case splitOwnerRepo arg of
             Inl e \<Rightarrow> Some (Some e, w)
           | Inr (owner, repo) \<Rightarrow>
               (case ghc_ListRunners c owner repo [] w of
                  None \<Rightarrow> None
                | Some (Inl e, w1) \<Rightarrow> Some (Some (ClientError e), w1)
                | Some (Inr rs, w1) \<Rightarrow>
                    Some (None, co_print os (print_indent ''    '' 0 (gh_runners_json rs) @ [CHR 10]) w1)))
      | _ \<Rightarrow> Some (Some BadArgs, w))"

primrec remove_offline ::
    "'w cmd_os \<Rightarrow> 'w gh_client \<Rightarrow> string \<Rightarrow> string \<Rightarrow> gh_runner list \<Rightarrow> 'w \<Rightarrow> cmd_error option \<times> 'w" where
  "remove_offline os c owner repo [] w = (None, w)"
| "remove_offline os c owner repo (r # rs) w =
     (if r_Online r then remove_offline os c owner repo rs w
      else case ghc_RemoveRunner c owner repo (r_ID r) w of
             (Some e, w1) \<Rightarrow> (Some (RemoveError (r_Name r) (r_ID r) e), w1)
           | (None, w1) \<Rightarrow>
               remove_offline os c owner repo rs
                 (co_print os (''remove runner '' @ r_Name r @ '' (id: '' @ itoa (r_ID r) @ '')'' @ [CHR 10]) w1))"

definition runner_remove ::
    "'w cmd_os \<Rightarrow> 'w gh_client \<Rightarrow> string list \<Rightarrow> 'w \<Rightarrow> (cmd_error option \<times> 'w) option" where
  "runner_remove os c args w =
     (case args of
        [arg] \<Rightarrow>
          (case splitOwnerRepo arg of
             Inl e \<Rightarrow> Some (Some e, w)
           | Inr (owner, repo) \<Rightarrow>
               (case ghc_ListRunners c owner repo [] w of
                  None \<Rightarrow> None
                | Some (Inl e, w1) \<Rightarrow> Some (Some (ClientError e), w1)
                | Some (Inr rs, w1) \<Rightarrow> Some (remove_offline os c owner repo rs w1)))
      | _ \<Rightarrow> Some (Some BadArgs, w))"

subsection \<open>cmd/slack-agent\<close>

definition listenAddrFlagName :: string where "listenAddrFlagName = ''listen-addr''"
definition channelFlagName :: string where "channelFlagName = ''channel''"
definition appTokenFlagName :: string where "appTokenFlagName = ''app-token''"
definition botTokenFlagName :: string where "botTokenFlagName = ''bot-token''"
definition developmentFlagName :: string where "developmentFlagName = ''development''"
definition verboseFlagName :: string where "verboseFlagName = ''verbose''"

text \<open>The flags with their defaults; \<open>viper\<close> takes a flag or a variable of the environment instead when it is set.\<close>

datatype flag_default = FlagString string | FlagBool bool

definition slack_agent_flags :: "(string \<times> flag_default) list" where
  "slack_agent_flags =
     [(listenAddrFlagName, FlagString '':8080''), (developmentFlagName, FlagBool False), (verboseFlagName, FlagBool False),
      (channelFlagName, FlagString []), (appTokenFlagName, FlagString []), (botTokenFlagName, FlagString [])]"


text \<open>
  \<open>NewServer\<close> needs the configuration of the cluster, unless it is in the development mode; \<open>cluster\<close> is
  the error of loading it or of making a client set from it. Then \<open>Run\<close> serves until an error. \<open>logger\<close> is
  the error of creating the logger.
\<close>

definition NewServer :: "string option \<Rightarrow> string \<Rightarrow> bool \<Rightarrow> string + server" where
  "NewServer cluster channel devMode =
     (if \<not> devMode
      then (case cluster of
              Some e \<Rightarrow> Inl e
            | None \<Rightarrow> Inr \<lparr>defaultChannel = channel, devMood = devMode\<rparr>)
      else Inr \<lparr>defaultChannel = channel, devMood = devMode\<rparr>)"

definition slack_agent_command ::
    "(string \<Rightarrow> string) \<Rightarrow> (string \<Rightarrow> bool) \<Rightarrow> string option \<Rightarrow> string option \<Rightarrow>
       (server \<Rightarrow> string \<Rightarrow> 'w \<Rightarrow> cmd_error option \<times> 'w) \<Rightarrow> 'w \<Rightarrow> cmd_error option \<times> 'w" where
  "slack_agent_command getString getBool logger cluster serve w =
     (if getString appTokenFlagName = [] then (Some (EmptyToken appTokenFlagName), w)
      else if getString botTokenFlagName = [] then (Some (EmptyToken botTokenFlagName), w)
      else case logger of
             Some e \<Rightarrow> (Some (LoggerError e), w)
           | None \<Rightarrow>
               (case NewServer cluster (getString channelFlagName) (getBool developmentFlagName) of
                  Inl e \<Rightarrow> (Some (ServerError e), w)
                | Inr s \<Rightarrow> serve s (getString listenAddrFlagName) w))"

subsection \<open>Lemmas\<close>

text \<open>With the defaults alone the Slack agent refuses to start; with the two tokens it serves on port 8080.\<close>

definition default_string :: "string \<Rightarrow> string" where
  "default_string n = (case map_of slack_agent_flags n of Some (FlagString s) \<Rightarrow> s | _ \<Rightarrow> [])"

definition default_bool :: "string \<Rightarrow> bool" where
  "default_bool n = (case map_of slack_agent_flags n of Some (FlagBool b) \<Rightarrow> b | _ \<Rightarrow> False)"

lemma slack_agent_defaults:
  "slack_agent_command default_string default_bool logger cluster serve w = (Some (EmptyToken appTokenFlagName), w)"
  "at \<noteq> [] \<Longrightarrow> bt \<noteq> [] \<Longrightarrow>
     slack_agent_command (default_string(appTokenFlagName := at, botTokenFlagName := bt)) default_bool None None serve w =
       serve \<lparr>defaultChannel = [], devMood = False\<rparr> '':8080'' w"
  by (simp_all add: slack_agent_command_def NewServer_def default_string_def default_bool_def slack_agent_flags_def
      listenAddrFlagName_def channelFlagName_def appTokenFlagName_def botTokenFlagName_def developmentFlagName_def verboseFlagName_def)


text \<open>A file system as the world: writing a file succeeds and replaces its contents.\<close>

definition plain_os :: "environ \<Rightarrow> filesystem cmd_os" where
  "plain_os env = \<lparr>co_environ = env, co_files = (\<lambda>fs. fs), co_write = (\<lambda>f d fs. (None, fs(f := Contents d))),
     co_print = (\<lambda>s fs. fs)\<rparr>"

lemma job_started_ok:
  assumes "job_started (plain_os env) jf cf [] fs = (None, fs')"
  shows "\<exists>j. GetJobInfo env = Inr j \<and>
    fs' = fs(jf := Contents (print_json (job_info_json j)), cf := Contents (getenv env SlackChannelEnvName))"
  using assms by (auto simp: job_started_def plain_os_def split: sum.splits)

text \<open>The files that \<open>job-started\<close> and \<open>set-channel\<close> write by default are those the runner pod reads.\<close>

lemma runner_files:
  assumes "NewRunner env addr rdir wdir RunnerVarDirPath = Inr r"
  shows "jobInfoFile r = default_jobInfoFile" "slackChannelFile r = default_slackChannelFile"
    "default_jobInfoFile \<noteq> default_slackChannelFile"
  using assms
  by (auto simp: NewRunner_def default_jobInfoFile_def default_slackChannelFile_def SlackChannelFilePath_def
      filepath_join_def split: sum.splits)

lemma GetJobInfo_range: "GetJobInfo env = Inr j \<Longrightarrow> job_info_in_range j"
  by (auto simp: GetJobInfo_def intro: envToJobInfo_in_range)

lemma read_back_job_info:
  assumes "job_info_in_range j" "fs f = Contents (print_json (job_info_json j))"
  shows "GetJobInfoFromFile fs f = Inr (Some j)"
proof -
  have "print_json (job_info_json j) \<noteq> []" by (simp add: job_info_json_def)
  with assms show ?thesis by (simp add: GetJobInfoFromFile_def unmarshal_job_info_print del: print_json.simps)
qed

lemma debugging_job_info:
  assumes "GetJobInfoFromFile fs (jobInfoFile r) = Inr (Some j)" "fs (slackChannelFile r) = Contents ch"
  shows "runner_status (updateToDebuggingState fs now r) =
    \<lparr>State = RunnerPodStateDebugging, Result = job_result fs r, FinishedAt = Some now,
     DeletionTime = deletionTime r, Extend = Some (isFileExists fs (extendFlagFile r)), JobInfo = Some j,
     SlackChannel = trimRight ch (CHR 10)\<rparr>"
  using assms by (simp add: updateToDebuggingState_def runner_status_def readSlackChannel_def)

lemma remove_offline_each:
  assumes "\<And>s w. co_print os s w = w"
  shows "remove_offline os c owner repo rs w = (None, w') \<longleftrightarrow>
    remove_each (ghc_RemoveRunner c owner repo) (filter (\<lambda>r. \<not> r_Online r) rs) w = (None, w')"
  by (induction rs arbitrary: w) (auto simp: assms split: prod.splits option.splits)

lemma splitOwnerRepo_simps:
  "CHR ''/'' \<notin> set owner \<Longrightarrow> splitOwnerRepo owner = Inr (owner, [])"
  "CHR ''/'' \<notin> set owner \<Longrightarrow> CHR ''/'' \<notin> set repo \<Longrightarrow> splitOwnerRepo (owner @ ''/'' @ repo) = Inr (owner, repo)"
  by (simp_all add: splitOwnerRepo_def split_go_single split_go_pair)

text \<open>Nothing that happens to a runner pod changes where it looks for its files.\<close>

lemma runner_mux_files:
  "jobInfoFile (snd (runner_mux req r)) = jobInfoFile r" "slackChannelFile (snd (runner_mux req r)) = slackChannelFile r"
  by (simp_all add: runner_mux_def deletionTimeHandler_def Let_def split: option.splits)

lemma listener_step_files:
  "jobInfoFile (rn (listener_step os l p)) = jobInfoFile (rn p) \<and>
   slackChannelFile (rn (listener_step os l p)) = slackChannelFile (rn p)"
  by (cases "pc p")
    (auto simp: listener_step.simps Let_def updateState_def updateToDebuggingState_def
      split: if_splits prod.splits option.splits list.splits file_read.splits)

lemma pod_reachable_files:
  "pod_reachable os l p0 p \<Longrightarrow>
     jobInfoFile (rn p) = jobInfoFile (rn p0) \<and> slackChannelFile (rn p) = slackChannelFile (rn p0)"
  by (induction rule: pod_reachable.induct) (auto simp: runner_mux_files listener_step_files elim!: pod_step.cases)

subsection \<open>Properties\<close>

text \<open>
  C23. What a job says about itself at its start is what the controller reads at its end: when the
  \<open>job-started\<close> hook has run in the environment of the job and the runner pod, started by its entry
  point, finishes the job with the two files still in place, then \<open>GetStatus\<close> on the pod returns the
  debugging state with exactly the job information of that environment, and the Slack channel the
  environment names.
\<close>

theorem job_info_reaches_controller:
  assumes "job_started (plain_os env) default_jobInfoFile default_slackChannelFile [] fs = (None, fs1)"
    and "entrypoint pod_os addr w0 = Inr (l, p0)" and "pod_reachable pos l p0 p" and "pc p = L_debug"
    and "pos_files pos (wd p) default_jobInfoFile = fs1 default_jobInfoFile"
    and "pos_files pos (wd p) default_slackChannelFile = fs1 default_slackChannelFile"
    and "rfc3339_range (pos_now pos (wd p))" and "time_ptr_ok (deletionTime (rn p))"
    and "plain_host ip" and "w ip = Some (rn (listener_step pos l p))"
  shows "\<exists>j st. GetJobInfo env = Inr j \<and> GetStatus pod_network ip w = (Inr st, w) \<and>
    State st = RunnerPodStateDebugging \<and> JobInfo st = Some j \<and>
    SlackChannel st = trimRight (getenv env SlackChannelEnvName) (CHR 10)"
proof -
  obtain j where j: "GetJobInfo env = Inr j" and
    fs1: "fs1 = fs(default_jobInfoFile := Contents (print_json (job_info_json j)),
      default_slackChannelFile := Contents (getenv env SlackChannelEnvName))"
    using job_started_ok [OF assms(1)] by blast
  obtain r where r: "NewRunner (co_environ pod_os) addr RunnerRootDirPath RunnerWorkDirPath RunnerVarDirPath = Inr r"
    and p0: "rn p0 = r" using assms(2) by (auto simp: entrypoint_def new_pod_def split: sum.splits)
  note files = runner_files [OF r]
  let ?fs = "pos_files pos (wd p)"
  have paths: "jobInfoFile (rn p) = default_jobInfoFile" "slackChannelFile (rn p) = default_slackChannelFile"
    using pod_reachable_files [OF assms(3)] p0 files by simp_all
  have info: "GetJobInfoFromFile ?fs (jobInfoFile (rn p)) = Inr (Some j)"
    using read_back_job_info [OF GetJobInfo_range [OF j]] assms(5) fs1 files(3) paths(1) by simp
  have chan: "?fs (slackChannelFile (rn p)) = Contents (getenv env SlackChannelEnvName)"
    using assms(6) fs1 paths(2) by simp
  note st = debugging_job_info [OF info chan]
  have upd: "rn (listener_step pos l p) = updateToDebuggingState ?fs (pos_now pos (wd p)) (rn p)"
    using assms(4) by (simp add: listener_step.simps Let_def)
  have "status_sendable (runner_status (rn (listener_step pos l p)))"
    unfolding upd st using assms(7,8) GetJobInfo_range [OF j]
    by (simp add: status_sendable_def time_ptr_ok_def job_info_ptr_ok_def)
  from GetStatus_pod [of ip w, OF assms(9,10) this] j show ?thesis
    unfolding upd st by auto
qed

text \<open>A runner pod whose files are the world, and which has its registration token and the files of a started job.\<close>

definition disk_os :: "filesystem pod_os" where
  "disk_os = \<lparr>os_run = (\<lambda>d c as env w. ((0, None), w)), os_sleep = (\<lambda>d w. w), os_environ = [],
     pos_files = (\<lambda>w. w), pos_create = (\<lambda>f w. (None, w(f := Contents []))), pos_now = (\<lambda>w. 1000 * Second)\<rparr>"

definition job_environ :: environ where
  "job_environ = [''GITHUB_ACTOR=user1'', ''GITHUB_REF=refs/heads/main'', ''GITHUB_REPOSITORY=cybozu-go/meows'',
     ''GITHUB_RUN_ID=7'', ''GITHUB_RUN_NUMBER=1'', SlackChannelEnvName @ ''=#ci'']"

definition token_disk :: filesystem where
  "token_disk = (\<lambda>f. NotExist)(filepath_join [RunnerVarDirPath, SecretsDirName, RunnerTokenFileName] := Contents ''token'')"

lemma disk_pod_runs:
  assumes "entrypoint (plain_os env) addr disk = Inr (l, p0)" "setupCommand (envs (rn p0)) = []"
    and "disk (startedFlagFile (rn p0)) = NotExist" "disk (tokenPath (rn p0)) = Contents tok"
    and "tokenPath (rn p0) \<noteq> startedFlagFile (rn p0)"
  shows "\<exists>p. pod_reachable disk_os l p0 p \<and> pc p = L_debug \<and> wd p = disk(startedFlagFile (rn p0) := Contents []) \<and>
    deletionTime (rn p) = None"
proof -
  obtain r where r: "p0 = new_pod r disk" and del: "deletionTime r = None"
    using assms(1) by (auto simp: entrypoint_def NewRunner_def split: sum.splits)
  let ?disk = "disk(startedFlagFile r := Contents [])"
  note defs = listener_step.simps disk_os_def updateState_def os.truncate_def
  let ?step = "listener_step disk_os l"
  obtain p2 where p2: "?step (?step p0) = p2" "pc p2 = L_setup" "wd p2 = ?disk"
    "rn p2 = r\<lparr>state := RunnerPodStateInitializing\<rparr>"
    using assms(3) by (simp add: defs Let_def r new_pod_def isFileExists_def)
  obtain p3 where p3: "?step p2 = p3" "pc p3 = L_token" "wd p3 = ?disk" "rn p3 = rn p2"
    using p2 assms(2) by (simp add: defs Let_def r new_pod_def)
  obtain p4 args where p4: "?step p3 = p4" "pc p4 = L_configure args" "wd p4 = ?disk" "rn p4 = rn p2"
    using p2(4) p3 assms(4,5) by (simp add: defs Let_def r new_pod_def)
  obtain p6 where p6: "?step (?step p4) = p6" "pc p6 = L_listen" "wd p6 = ?disk"
    "rn p6 = r\<lparr>state := RunnerPodStateRunning\<rparr>"
    using p4 p2(4) by (simp add: defs Let_def configure_def runCommand_def)
  obtain p7 where p7: "?step p6 = p7" "pc p7 = L_finished" "wd p7 = ?disk" "rn p7 = rn p6"
    using p6 by (simp add: defs Let_def listen.simps launch_def runCommand_def exit_action_of_def)
  obtain p8 where p8: "?step p7 = p8" "pc p8 = L_debug" "wd p8 = ?disk" "rn p8 = rn p6"
    using p7 by (simp add: defs Let_def)
  have "pod_reachable disk_os l p0 p8"
    unfolding p8(1) [symmetric] p7(1) [symmetric] p6(1) [symmetric] p4(1) [symmetric] p3(1) [symmetric] p2(1) [symmetric]
    by (intro pod_next [OF _ goroutine] pod_start)
  with p8 p6(4) del show ?thesis by (auto simp: r new_pod_def)
qed

theorem job_info_reaches_controller_witness:
  "\<exists>r st. GetStatus pod_network ''10.0.0.1'' [''10.0.0.1'' \<mapsto> r] = (Inr st, [''10.0.0.1'' \<mapsto> r]) \<and>
    SlackChannel st = ''#ci'' \<and> map_option Repository (JobInfo st) = Some ''cybozu-go/meows''"
proof -
  have info: "map_sum id Repository (GetJobInfo job_environ) = Inr ''cybozu-go/meows''" by code_simp
  then obtain j where j: "GetJobInfo job_environ = Inr j" "Repository j = ''cybozu-go/meows''"
    by (cases "GetJobInfo job_environ") auto
  define disk where "disk = token_disk(default_jobInfoFile := Contents (print_json (job_info_json j)),
    default_slackChannelFile := Contents (getenv job_environ SlackChannelEnvName))"
  have started: "job_started (plain_os job_environ) default_jobInfoFile default_slackChannelFile [] token_disk = (None, disk)"
    by (simp add: job_started_def plain_os_def j disk_def)
  have ent: "map_sum id (setupCommand \<circ> envs)
      (NewRunner sample_environ addr RunnerRootDirPath RunnerWorkDirPath RunnerVarDirPath) = Inr []" for addr
    by code_simp
  obtain r where r: "NewRunner sample_environ '':8080'' RunnerRootDirPath RunnerWorkDirPath RunnerVarDirPath = Inr r"
    "setupCommand (envs r) = []" using ent [of "'':8080''"]
    by (cases "NewRunner sample_environ '':8080'' RunnerRootDirPath RunnerWorkDirPath RunnerVarDirPath") auto
  have entry: "entrypoint (plain_os sample_environ) '':8080'' disk = Inr (NewListener RunnerRootDirPath, new_pod r disk)"
    by (simp add: entrypoint_def plain_os_def r(1))
  have paths: "startedFlagFile r = RunnerVarDirPath @ ''/started''"
    "tokenPath r = filepath_join [RunnerVarDirPath, SecretsDirName, RunnerTokenFileName]"
    using r(1) by (auto simp: NewRunner_def filepath_join_def split: sum.splits)
  note files = runner_files [OF r(1)]
  have ne: "startedFlagFile r \<notin> {tokenPath r, default_jobInfoFile, default_slackChannelFile}"
    "tokenPath r \<notin> {default_jobInfoFile, default_slackChannelFile}"
    by (simp_all add: paths filepath_join_def default_jobInfoFile_def default_slackChannelFile_def SlackChannelFilePath_def
        RunnerVarDirPath_def SecretsDirName_def RunnerTokenFileName_def)
  then have disk: "disk (startedFlagFile r) = NotExist" "disk (tokenPath r) = Contents ''token''"
    by (auto simp: disk_def token_disk_def paths(2))
  obtain p where p: "pod_reachable disk_os (NewListener RunnerRootDirPath) (new_pod r disk) p" "pc p = L_debug"
    "wd p = disk(startedFlagFile r := Contents [])" "deletionTime (rn p) = None"
    using disk_pod_runs [OF entry] r(2) disk ne by (auto simp: new_pod_def)
  let ?r = "rn (listener_step disk_os (NewListener RunnerRootDirPath) p)"
  have ch: "trimRight (getenv job_environ SlackChannelEnvName) (CHR 10) = ''#ci''" by code_simp
  have "rfc3339_range (1000 * Second)" by (rule rfc3339_rangeI) (simp_all add: Second_def)
  then have "\<exists>j st. GetJobInfo job_environ = Inr j \<and>
      GetStatus pod_network ''10.0.0.1'' [''10.0.0.1'' \<mapsto> ?r] = (Inr st, [''10.0.0.1'' \<mapsto> ?r]) \<and>
      State st = RunnerPodStateDebugging \<and> JobInfo st = Some j \<and> SlackChannel st = ''#ci''"
    using p ne unfolding ch [symmetric]
    by (intro job_info_reaches_controller [OF started entry p(1,2)])
      (auto simp: disk_os_def time_ptr_ok_def plain_host_def)
  with j show ?thesis by auto
qed

text \<open>
  C32. \<open>meows runner remove\<close> removes exactly the offline runners: against GitHub, for an organization or a
  repository, the command succeeds and the runners registered afterwards are the online ones from before,
  whatever their labels.
\<close>

theorem runner_remove_exact:
  assumes "splitOwnerRepo arg = Inr (owner, repo)" and "server_inv w" and "\<forall>s w. co_print os s w = w"
  shows "\<exists>w'. runner_remove os (clientWrapper server_api) [arg] w = Some (None, w') \<and>
    map convert (w' owner repo) = filter r_Online (map convert (w owner repo))"
proof -
  have "ListRunners server_api owner repo [] w = Some (Inr (map convert (w owner repo)), w)"
    by (simp add: server_ListRunners page_runners_def hasLabels_def)
  with real_gh.list_then_remove_each [OF assms(2) this, of "\<lambda>r. \<not> r_Online r"] obtain w' where
    "remove_each (RemoveRunner server_api owner repo) (filter (\<lambda>r. \<not> r_Online r) (map convert (w owner repo))) w = (None, w')"
    "map convert (w' owner repo) = filter (\<lambda>x. r_Online x) (map convert (w owner repo))"
    by (auto simp: hasLabels_def)
  then show ?thesis
    using assms remove_offline_each [of os "clientWrapper server_api" owner repo "map convert (w owner repo)" w w']
    by (simp add: runner_remove_def clientWrapper_def server_ListRunners page_runners_def hasLabels_def)
qed

definition quiet_os :: "gh_server cmd_os" where
  "quiet_os = \<lparr>co_environ = [], co_files = (\<lambda>w f. NotExist), co_write = (\<lambda>f d w. (None, w)), co_print = (\<lambda>s w. w)\<rparr>"

definition half_offline :: gh_server where
  "half_offline owner repo =
     (if owner = ''org'' \<and> repo = [] then [sample_api_runner 1, (sample_api_runner 2)\<lparr>ar_Status := Some ''offline''\<rparr>] else [])"

theorem runner_remove_exact_witness:
  "\<exists>w'. runner_remove quiet_os (clientWrapper server_api) [''org''] half_offline = Some (None, w') \<and>
    map convert (w' ''org'' []) = [convert (sample_api_runner 1)]"
proof -
  have "server_inv half_offline"
    by (auto simp: server_inv_def half_offline_def sample_api_runner_def get_or_def)
  moreover have "filter r_Online (map convert (half_offline ''org'' [])) = [convert (sample_api_runner 1)]"
    by (simp add: half_offline_def convert_def sample_api_runner_def get_or_def statusOnline_def)
  ultimately show ?thesis
    using runner_remove_exact [of "''org''" "''org''" "[]" half_offline quiet_os]
    by (simp add: quiet_os_def splitOwnerRepo_simps)
qed

end
