(* ===== verification/Controller_Main.thy ===== *)
theory Controller_Main
  imports Commands
begin

section \<open>cmd/controller: the main program of the controller\<close>

text \<open>
  The \<open>run\<close> function of the controller: it checks the webhook address, creates the manager of
  \<open>controller-runtime\<close>, the runner manager and the secret updater, reads the validation rules, registers the
  reconciler and the webhook and serves until the process is told to stop. Both managers are stopped by
  deferred calls, on every way out. The configuration of the flags is the record \<open>controller_config\<close>, the
  manager of \<open>controller-runtime\<close> is the record \<open>manager_lib\<close>; the YAML parser and the compiler of regular
  expressions are parameters.
\<close>

subsection \<open>Flags\<close>

definition defaultRunnerOs :: string where "defaultRunnerOs = ''ubuntu22.04''"
definition defaultRunnerImage :: string where
  "defaultRunnerImage = ''ghcr.io/cybozu-go/meows-runner:'' @ defaultRunnerOs @ ''-meows'' @ Version"

record controller_config =
  metricsAddr :: string
  probeAddr :: string
  webhookAddr :: string
  configFile :: string
  runnerImage :: string
  runnerManagerInterval :: duration

definition default_controller_config :: controller_config where
  "default_controller_config =
     \<lparr>metricsAddr = '':8080'', probeAddr = '':8081'', webhookAddr = '':9443'', configFile = [],
      runnerImage = defaultRunnerImage, runnerManagerInterval = Minute\<rparr>"

subsection \<open>net.SplitHostPort\<close>

datatype addr_error = MissingPort | TooManyColons | MissingBracket | UnexpectedBracket char

text \<open>The port is after the last colon; a host with colons of its own is in brackets.\<close>

definition last_colon :: "string \<Rightarrow> (string \<times> string) option" where
  "last_colon s =
     (if CHR '':'' \<notin> set s then None
      else Some (rev (tl (dropWhile (\<lambda>c. c \<noteq> CHR '':'') (rev s))), rev (takeWhile (\<lambda>c. c \<noteq> CHR '':'') (rev s))))"

definition SplitHostPort :: "string \<Rightarrow> addr_error + string \<times> string" where
  "SplitHostPort s =
     (case last_colon s of
        None \<Rightarrow> Inl MissingPort
      | Some (pre, port) \<Rightarrow>
          if hd s = CHR ''[''
          then (if CHR '']'' \<notin> set s then Inl MissingBracket
                else (let host = takeWhile (\<lambda>c. c \<noteq> CHR '']'') (tl s);
                          rest = tl (dropWhile (\<lambda>c. c \<noteq> CHR '']'') s)
                      in if rest = [] then Inl MissingPort
                         else if length host + 2 \<noteq> length pre
                         then (if hd rest = CHR '':'' then Inl TooManyColons else Inl MissingPort)
                         else if CHR ''['' \<in> set (tl s) then Inl (UnexpectedBracket (CHR ''[''))
                         else if CHR '']'' \<in> set rest then Inl (UnexpectedBracket (CHR '']''))
                         else Inr (host, port)))
          else if CHR '':'' \<in> set pre then Inl TooManyColons
          else if CHR ''['' \<in> set s then Inl (UnexpectedBracket (CHR ''[''))
          else if CHR '']'' \<in> set s then Inl (UnexpectedBracket (CHR '']''))
          else Inr (pre, port))"

lemma until_first:
  "x \<notin> set xs \<Longrightarrow> takeWhile (\<lambda>c. c \<noteq> x) (xs @ x # ys) = xs"
  "x \<notin> set xs \<Longrightarrow> dropWhile (\<lambda>c. c \<noteq> x) (xs @ x # ys) = x # ys"
  by (induction xs) auto

lemma last_colon_append: "CHR '':'' \<notin> set port \<Longrightarrow> last_colon (pre @ '':'' @ port) = Some (pre, port)"
  by (simp add: last_colon_def until_first)

definition no_addr_char :: "string \<Rightarrow> bool" where
  "no_addr_char s \<longleftrightarrow> set s \<inter> {CHR '':'', CHR ''['', CHR '']''} = {}"

lemma SplitHostPort_plain:
  assumes "no_addr_char host" "no_addr_char port"
  shows "SplitHostPort (host @ '':'' @ port) = Inr (host, port)"
proof -
  have "hd (host @ '':'' @ port) \<noteq> CHR ''[''" using assms by (cases host) (auto simp: no_addr_char_def)
  moreover have "last_colon (host @ '':'' @ port) = Some (host, port)"
    using assms by (intro last_colon_append) (auto simp: no_addr_char_def)
  ultimately show ?thesis using assms by (auto simp: SplitHostPort_def no_addr_char_def)
qed

lemma SplitHostPort_bracketed:
  assumes "set host \<inter> {CHR ''['', CHR '']''} = {}" "no_addr_char port"
  shows "SplitHostPort (''['' @ host @ '']:'' @ port) = Inr (host, port)"
proof -
  let ?s = "''['' @ host @ '']:'' @ port"
  have "last_colon ((''['' @ host @ '']'') @ '':'' @ port) = Some (''['' @ host @ '']'', port)"
    using assms by (intro last_colon_append) (auto simp: no_addr_char_def)
  then have "last_colon ?s = Some (''['' @ host @ '']'', port)" by simp
  moreover have "takeWhile (\<lambda>c. c \<noteq> CHR '']'') (tl ?s) = host" "tl (dropWhile (\<lambda>c. c \<noteq> CHR '']'') ?s) = '':'' @ port"
    using assms by (auto simp: until_first)
  ultimately show ?thesis using assms by (auto simp: SplitHostPort_def no_addr_char_def Let_def)
qed

subsection \<open>The validation rules\<close>

record validation_rule_config =
  OrganizationRule :: string
  RepositoryRule :: string

datatype main_error =
    InvalidWebhookAddr string
  | ManagerError string
  | ConfigRead string
  | ConfigParse string
  | InvalidOrganizationRule string
  | InvalidRepositoryRule string
  | SetupControllerError string
  | SetupWebhookError string
  | HealthCheckError string
  | ReadyCheckError string
  | StartError string

definition compile_rule ::
    "(string \<Rightarrow> string + (string \<Rightarrow> bool)) \<Rightarrow> string \<Rightarrow> string + (string \<Rightarrow> bool) option" where
  "compile_rule Compile rule =
     (if rule \<noteq> [] then (case Compile rule of Inl e \<Rightarrow> Inl e | Inr re \<Rightarrow> Inr (Some re)) else Inr None)"

definition loadValidationRuleFromFile ::
    "(string \<Rightarrow> string + validation_rule_config) \<Rightarrow> (string \<Rightarrow> string + (string \<Rightarrow> bool)) \<Rightarrow> filesystem \<Rightarrow> string \<Rightarrow>
       main_error + (string \<Rightarrow> bool) option \<times> (string \<Rightarrow> bool) option" where
  "loadValidationRuleFromFile yaml Compile fs path =
     (if path = [] then Inr (None, None)
      else case fs path of
        NotExist \<Rightarrow> Inl (ConfigRead path)
      | ReadError e \<Rightarrow> Inl (ConfigRead path)
      | Contents data \<Rightarrow>
          (case yaml data of
             Inl e \<Rightarrow> Inl (ConfigParse e)
           | Inr cfg \<Rightarrow>
               (case compile_rule Compile (OrganizationRule cfg) of
                  Inl e \<Rightarrow> Inl (InvalidOrganizationRule e)
                | Inr orgRegexp \<Rightarrow>
                    (case compile_rule Compile (RepositoryRule cfg) of
                       Inl e \<Rightarrow> Inl (InvalidRepositoryRule e)
                     | Inr repoRegexp \<Rightarrow> Inr (orgRegexp, repoRegexp)))))"

definition NewRunnerPoolReconciler ::
    "string \<Rightarrow> (string \<Rightarrow> bool) option \<Rightarrow> (string \<Rightarrow> bool) option \<Rightarrow> reconciler" where
  "NewRunnerPoolReconciler img organizationRegexp repositoryRegexp =
     \<lparr>rc_runnerImage = img, rc_organizationRegexp = organizationRegexp, rc_repositoryRegexp = repositoryRegexp\<rparr>"

text \<open>
  The rules that are in force: an empty path or an empty rule allows everything, a rule of the file that
  compiles decides over the organizations or the repositories, and one that does not compile is an error.
\<close>

lemma loaded_rules_decide:
  assumes "fs path = Contents data" "path \<noteq> []" "yaml data = Inr cfg"
    and "loadValidationRuleFromFile yaml Compile fs path = Inr (orgRe, repoRe)"
  shows "validation (NewRunnerPoolReconciler img orgRe repoRe) rp = None \<longleftrightarrow>
    (let rule = (if IsOrgLevel rp then OrganizationRule cfg else RepositoryRule cfg);
         subject = (if IsOrgLevel rp then sp_Organization (Spec rp) else sp_Repository (Spec rp))
     in rule = [] \<or> (\<exists>re. Compile rule = Inr re \<and> re subject))"
  using assms
  by (auto simp: loadValidationRuleFromFile_def compile_rule_def validation_def NewRunnerPoolReconciler_def Let_def
      split: sum.splits if_splits)

lemma no_rules_without_file: "loadValidationRuleFromFile yaml Compile fs [] = Inr (None, None)"
  by (simp add: loadValidationRuleFromFile_def)

subsection \<open>run\<close>

text \<open>
  What \<open>run\<close> calls of \<open>controller-runtime\<close>. \<open>Start\<close> blocks until the process is told to stop or the manager
  fails; meanwhile the reconciler and the processes it starts change the state. Not returning is \<open>None\<close>.
\<close>

record 'w manager_lib =
  mg_NewManager :: "string \<Rightarrow> int \<Rightarrow> controller_config \<Rightarrow> 'w \<Rightarrow> string option \<times> 'w"
  mg_SetupController :: "'w \<Rightarrow> string option \<times> 'w"
  mg_SetupWebhook :: "'w \<Rightarrow> string option \<times> 'w"
  mg_AddHealthz :: "'w \<Rightarrow> string option \<times> 'w"
  mg_AddReadyz :: "'w \<Rightarrow> string option \<times> 'w"
  mg_Start :: "reconciler \<Rightarrow> 'w controller \<Rightarrow> (string option \<times> 'w controller) option"

text \<open>The calls on the manager, up to the first that fails.\<close>

definition serve_manager ::
    "'w manager_lib \<Rightarrow> reconciler \<Rightarrow> 'w controller \<Rightarrow> (main_error option \<times> 'w controller) option" where
  "serve_manager lib r c =
     (case on_world (mg_SetupController lib) c of
        (Some e, c1) \<Rightarrow> Some (Some (SetupControllerError e), c1)
      | (None, c1) \<Rightarrow>
          (case on_world (mg_SetupWebhook lib) c1 of
             (Some e, c2) \<Rightarrow> Some (Some (SetupWebhookError e), c2)
           | (None, c2) \<Rightarrow>
               (case on_world (mg_AddHealthz lib) c2 of
                  (Some e, c3) \<Rightarrow> Some (Some (HealthCheckError e), c3)
                | (None, c3) \<Rightarrow>
                    (case on_world (mg_AddReadyz lib) c3 of
                       (Some e, c4) \<Rightarrow> Some (Some (ReadyCheckError e), c4)
                     | (None, c4) \<Rightarrow>
                         (case mg_Start lib r c4 of
                            None \<Rightarrow> None
                          | Some (e, c5) \<Rightarrow> Some (map_option StartError e, c5))))))"

text \<open>
  The process ends before the managers exist (\<open>EarlyExit\<close>), or after their deferred \<open>StopAll\<close> (\<open>Exit\<close>).
\<close>

datatype 'w exit = EarlyExit main_error 'w | Exit "main_error option" "'w controller"

text \<open>The deferred calls run after the body of the function, whatever it returns.\<close>

definition deferred_StopAll ::
    "(string \<Rightarrow> string option) \<Rightarrow> (main_error option \<times> 'w controller) option \<Rightarrow> 'w exit option" where
  "deferred_StopAll wait body =
     (case body of
        None \<Rightarrow> None
      | Some (err, c) \<Rightarrow> (case stop_controller wait c of None \<Rightarrow> None | Some c' \<Rightarrow> Some (Exit err c')))"

definition run ::
    "'w cmd_os \<Rightarrow> (string \<Rightarrow> string + validation_rule_config) \<Rightarrow> (string \<Rightarrow> string + (string \<Rightarrow> bool)) \<Rightarrow>
       'w manager_lib \<Rightarrow> (string \<Rightarrow> string option) \<Rightarrow> controller_config \<Rightarrow> 'w \<Rightarrow> 'w exit option" where
  "run os yaml Compile lib wait cfg w =
     (case SplitHostPort (webhookAddr cfg) of
        Inl e \<Rightarrow> Some (EarlyExit (InvalidWebhookAddr (webhookAddr cfg)) w)
      | Inr (host, p) \<Rightarrow>
          (case atoi p of
             None \<Rightarrow> Some (EarlyExit (InvalidWebhookAddr (webhookAddr cfg)) w)
           | Some port \<Rightarrow>
               (case mg_NewManager lib host port cfg w of
                  (Some e, w1) \<Rightarrow> Some (EarlyExit (ManagerError e) w1)
                | (None, w1) \<Rightarrow>
                    (let c = new_controller InitControllerMetrics w1
                     in deferred_StopAll wait
                          (case loadValidationRuleFromFile yaml Compile (co_files os w1) (configFile cfg) of
                             Inl e \<Rightarrow> Some (Some e, c)
                           | Inr (orgRegexp, repoRegexp) \<Rightarrow>
                               serve_manager lib (NewRunnerPoolReconciler (runnerImage cfg) orgRegexp repoRegexp) c)))))"

subsection \<open>Clients that answer\<close>

text \<open>
  Stopping a process lists the runners of its pool once more. It returns when the clients of the factory
  answer every listing, which is so when the pages of an answer are finite in number.
\<close>

definition gh_answers :: "'w gh_client \<Rightarrow> bool" where
  "gh_answers gh \<longleftrightarrow> (\<forall>owner repo ls w. ghc_ListRunners gh owner repo ls w \<noteq> None)"

definition all_answer :: "'w controller \<Rightarrow> bool" where
  "all_answer c \<longleftrightarrow> (\<forall>p\<in>ran (map_of (c_rm_processes c)). gh_answers (p_githubClient p))"

lemma all_answer_world [simp]: "all_answer (c\<lparr>c_world := w\<rparr>) = all_answer c"
  by (simp add: all_answer_def)

lemma all_answer_set_su [simp]: "all_answer (set_su c s) = all_answer c"
  by (simp add: all_answer_def set_su_def)

lemma client_frame:
  "newManageProcess ul gh rp now = Returns (Inr p) \<Longrightarrow> p_githubClient p = gh"
  "update_process ul rp p = (e, p') \<Longrightarrow> p_githubClient p' = p_githubClient p"
  "stop_process wait p m w = Some (e', p', m', w') \<Longrightarrow> p_githubClient p' = p_githubClient p"
  "runOnce io p m w = Some (Returns (e'', p', m', w')) \<Longrightarrow> p_githubClient p' = p_githubClient p"
  by (auto simp: newManageProcess_def update_process_def stop_process_def runOnce_def maintainRunnerPods_def updateMetrics_def
      Let_def split: if_splits prod.splits sum.splits option.splits outcome.splits)

lemma rm_StartOrUpdate_client:
  assumes "rm_StartOrUpdate fac io a s = Some (e, s')" "\<And>cred gh. fac cred = Inr gh \<Longrightarrow> gh_answers gh"
    and "\<forall>p\<in>ran (map_of (rm_processes s)). gh_answers (p_githubClient p)"
  shows "\<forall>p\<in>ran (map_of (rm_processes s')). gh_answers (p_githubClient p)"
proof -
  consider "rm_processes s' = rm_processes s"
    | p where "rm_processes s' = AList.update (pool_key (fst a)) p (rm_processes s)" "gh_answers (p_githubClient p)"
    using assms
    by (auto simp: rm_StartOrUpdate_def case_prod_beta Let_def start_process_def ran_def dest: client_frame(1)
        split: if_splits sum.splits outcome.splits option.splits)
      (metis client_frame(2) prod.collapse)+
  then show ?thesis
    using assms(3) ran_update by cases (fastforce simp: AList.update_conv')+
qed

lemma rm_Stop_client:
  assumes "rm_Stop wait a s = Some (e, s')" "\<forall>p\<in>ran (map_of (rm_processes s)). gh_answers (p_githubClient p)"
  shows "\<forall>p\<in>ran (map_of (rm_processes s')). gh_answers (p_githubClient p)"
proof -
  consider "rm_processes s' = rm_processes s" | "rm_processes s' = AList.delete (pool_key (fst a)) (rm_processes s)"
    | p where "rm_processes s' = AList.update (pool_key (fst a)) p (rm_processes s)" "gh_answers (p_githubClient p)"
    using assms client_frame(3)
    by (fastforce simp: rm_Stop_def Let_def ran_def split: option.splits)
  then show ?thesis
    using assms(2) ran_update ran_delete by cases (fastforce simp: AList.update_conv' AList.delete_conv')+
qed


text \<open>A controller whose factory makes such clients only.\<close>

locale answering_controller =
  fixes kc :: "'w kube_calls" and fac :: "'w factory" and mio :: "'w manager_io" and wait :: "string \<Rightarrow> string option"
  assumes fac_answers: "fac cred = Inr gh \<Longrightarrow> gh_answers gh"

sublocale answering_controller \<subseteq> ans: reconciler_calls "controller_io kc fac mio wait" all_answer
proof
  fix c c' :: "'w controller" and a e rp
  show "all_answer c'" if "all_answer c" "k_rmStartOrUpdate (controller_io kc fac mio wait) a c = Some (e, c')"
    using that rm_StartOrUpdate_client [of fac mio a "rm_part c", OF _ fac_answers]
    by (auto simp: on_rm_def all_answer_def set_rm_def split: option.splits)
  show "all_answer c'" if "all_answer c" "k_rmStop (controller_io kc fac mio wait) rp c = Some (e, c')"
    using that rm_Stop_client [of wait "(rp, no_credential)" "rm_part c"]
    by (auto simp: on_rm_def all_answer_def set_rm_def split: option.splits)
qed (auto simp: on_world_def on_su_def split: prod.splits option.splits)

context answering_controller
begin

lemma all_answer_step:
  assumes "controller_step kc fac mio sio wait r c c'" "all_answer c"
  shows "all_answer c'"
  using assms
proof cases
  case (step_reconcile ns n res)
  with assms(2) show ?thesis by (blast intro: ans.Reconcile_keeps)
next
  case (step_tick k p e p' m' w')
  then have "gh_answers (p_githubClient p')"
    using assms(2) client_frame(4) [OF step_tick(4)] by (auto simp: all_answer_def ran_def)
  with step_tick(1) assms(2) ran_update [of "map_of (c_rm_processes c)" k p'] show ?thesis
    by (auto simp: all_answer_def AList.update_conv')
next
  case (step_turn k u d m' w')
  with assms(2) show ?thesis by (simp add: all_answer_def)
next
  case step_world
  with assms(2) show ?thesis by simp
qed

lemma all_answer_steps:
  "controller_steps kc fac mio sio wait r c0 c \<Longrightarrow> all_answer c0 \<Longrightarrow> all_answer c"
  by (induction rule: controller_steps.induct) (auto intro: all_answer_step)

end

text \<open>The client of the repository against a server that pages its answers is such a client.\<close>

lemma clientWrapper_answers: "gh_answers (clientWrapper server_api)"
  by (simp add: gh_answers_def clientWrapper_def server_ListRunners)

interpretation served: answering_controller kc "\<lambda>cred. Inr (clientWrapper server_api)" mio wait for kc mio wait
  by unfold_locales (auto simp: clientWrapper_answers)

lemma all_answer_new: "all_answer (new_controller m w)"
  by (simp add: all_answer_def new_controller_def set_rm_def set_su_def NewRunnerManager_def NewSecretUpdater_def)

lemma stop_process_returns:
  assumes "gh_answers (p_githubClient p)"
  shows "stop_process wait p m w \<noteq> None"
proof -
  have "ghc_ListRunners (p_githubClient p) (p_owner p) (p_repo p) [rpNamespacedName p] w \<noteq> None"
    using assms by (simp only: gh_answers_def) simp
  then show ?thesis
    by (auto simp: stop_process_def finish_process_def deleteAllRunners_def split: option.splits sum.splits)
qed

lemma stop_each_returns:
  "\<forall>kp\<in>set ps. gh_answers (p_githubClient (snd kp)) \<Longrightarrow> stop_each wait ps m w \<noteq> None"
proof (induction ps arbitrary: m w)
  case (Cons kp ps)
  then have "stop_process wait (snd kp) m w \<noteq> None" by (intro stop_process_returns) simp
  with Cons show ?case by (auto split: option.splits)
qed simp

lemma stop_controller_returns:
  assumes "all_answer c" "controller_wf c"
  shows "\<exists>c'. stop_controller wait c = Some c'"
proof -
  have "distinct (map fst (c_rm_processes c))" using assms(2) rm_bookD(1) by (auto simp: controller_wf_def)
  then have "\<forall>kp\<in>set (c_rm_processes c). gh_answers (p_githubClient (snd kp))"
    using assms(1) by (auto simp: all_answer_def ran_def)
  then have "stop_each wait (c_rm_processes c) m w \<noteq> None" for m w by (rule stop_each_returns)
  then show ?thesis
    by (auto simp: stop_controller_def on_su_def on_rm_def su_StopAll_def rm_StopAll_def set_su_def split: option.splits)
qed

subsection \<open>The way out\<close>

text \<open>No process and no series of any pool: online, busy, replicas, retries.\<close>

definition stopped_clean :: "'w controller \<Rightarrow> bool" where
  "stopped_clean c \<longleftrightarrow>
     c_rm_stopped c \<and> c_su_stopped c \<and> c_rm_processes c = [] \<and> c_su_processes c = [] \<and>
     (\<forall>k. pool_series (c_metrics c) k = no_series)"

fun clean_exit :: "'w exit \<Rightarrow> bool" where
  "clean_exit (EarlyExit e w) = True"
| "clean_exit (Exit e c) = stopped_clean c"

lemma stop_controller_clean:
  assumes "stop_controller wait c = Some c'" "controller_wf c"
  shows "stopped_clean c'"
proof -
  note s = stop_controller_ok [OF assms]
  note series = controller_wf_series [OF s(1)]
  have "exported (c_metrics c') k = ({}, {})" for k using series(1) [of k] s(2) by (simp add: listed_runners_def)
  moreover have "runnerPoolReplicas (c_metrics c') k = None" for k
    using series(2) [of k] s(2) by (cases "runnerPoolReplicas (c_metrics c') k") auto
  moreover have "RunnerPoolSecretRetryCount (c_metrics c') k = None" for k
    using series(3) [of k] s(3) by (cases "RunnerPoolSecretRetryCount (c_metrics c') k") auto
  ultimately have "pool_series (c_metrics c') k = no_series" for k by (simp add: no_series_iff)
  then show ?thesis using s by (simp add: stopped_clean_def)
qed

lemma serve_manager_state:
  assumes "\<And>c. \<exists>e c'. mg_Start lib r c = Some (e, c') \<and> Q c c'" "\<And>c w. P (c\<lparr>c_world := w\<rparr>) = P c"
    and "\<And>c c'. P c \<Longrightarrow> Q c c' \<Longrightarrow> P c'" "P c"
  shows "\<exists>e c'. serve_manager lib r c = Some (e, c') \<and> P c'"
proof -
  have start: "\<exists>e c'. (case mg_Start lib r c of None \<Rightarrow> None | Some (e, c5) \<Rightarrow> Some (map_option StartError e, c5)) =
      Some (e, c') \<and> P c'" if "P c" for c
    using assms(1) [of c] assms(3) [OF that] by auto
  show ?thesis
    using assms(2,4) start
    by (auto simp: serve_manager_def on_world_def split: prod.splits option.splits)
qed

subsection \<open>Properties\<close>

text \<open>
  C14. The controller leaves cleanly, given that serving returns: if serving changes the state by steps of the
  controller only and returns at some time, and the clients of the factory answer, then the main function returns
  too; and on every way out after the managers were created, with whatever error of the rules file, the
  registration, the checks or of serving, both managers are stopped, no process is left and no series of any pool,
  of a runner (online and busy) or of the pool (replicas and retries), is exported.
\<close>

theorem controller_exit_clean:
  assumes "\<forall>r c. \<exists>e c'. mg_Start lib r c = Some (e, c') \<and> controller_steps kc fac mio sio wait r c c'"
    and "\<forall>cred gh. fac cred = Inr gh \<longrightarrow> gh_answers gh"
  shows "\<exists>x. run os yaml Compile lib wait cfg w = Some x \<and> clean_exit x"
proof -
  have loc: "answering_controller fac" by unfold_locales (use assms(2) in blast)
  let ?P = "\<lambda>c. controller_wf c \<and> all_answer c"
  have new: "?P (new_controller InitControllerMetrics w)" for w by (simp add: controller_wf_new all_answer_new)
  have serve: "\<exists>e c'. serve_manager lib r c = Some (e, c') \<and> ?P c'" if "?P c" for r c
    using assms(1) that controller_wf_steps answering_controller.all_answer_steps [OF loc]
    by (intro serve_manager_state [where Q = "controller_steps kc fac mio sio wait r"]) auto
  have stop: "\<exists>c'. stop_controller wait c = Some c' \<and> stopped_clean c'" if "?P c" for c
    using that stop_controller_returns stop_controller_clean by blast
  have deferred: "\<exists>x. deferred_StopAll wait res = Some x \<and> clean_exit x"
    if "\<exists>e c'. res = Some (e, c') \<and> ?P c'" for res
    using that stop by (fastforce simp: deferred_StopAll_def)
  have body: "\<exists>x. deferred_StopAll wait (case rules of Inl e \<Rightarrow> Some (Some e, c)
      | Inr (o1, o2) \<Rightarrow> serve_manager lib (NewRunnerPoolReconciler img o1 o2) c) = Some x \<and> clean_exit x"
    if "?P c" for rules img c
    using that serve [OF that] by (intro deferred) (cases rules, auto)
  show ?thesis
    using body [OF new] by (simp add: run_def Let_def split: sum.split option.split prod.split)
qed

definition calm_manager :: "runner_pool \<Rightarrow> unit manager_lib" where
  "calm_manager rp =
     \<lparr>mg_NewManager = (\<lambda>h p cfg w. (None, w)), mg_SetupController = (\<lambda>w. (None, w)), mg_SetupWebhook = (\<lambda>w. (None, w)),
      mg_AddHealthz = (\<lambda>w. (None, w)), mg_AddReadyz = (\<lambda>w. (None, w)),
      mg_Start = (\<lambda>r c. case Reconcile (calm_controller rp) r ''ns'' ''pool'' c of
         None \<Rightarrow> Some (None, c) | Some (res, c') \<Rightarrow> Some (None, c'))\<rparr>"

definition calm_os :: "unit cmd_os" where
  "calm_os = \<lparr>co_environ = [], co_files = (\<lambda>w f. NotExist), co_write = (\<lambda>f d w. (None, w)), co_print = (\<lambda>s w. w)\<rparr>"

theorem controller_exit_clean_witness:
  "\<exists>c. run calm_os (\<lambda>d. Inl ''bad'') (\<lambda>r. Inl ''bad'') (calm_manager sample_pool) (\<lambda>k. None) default_controller_config () =
     Some (Exit None c) \<and> stopped_clean c"
proof -
  let ?run = "run calm_os (\<lambda>d. Inl ''bad'') (\<lambda>r. Inl ''bad'') (calm_manager sample_pool) (\<lambda>k. None) default_controller_config ()"
  have start: "\<exists>e c'. mg_Start (calm_manager sample_pool) r c = Some (e, c') \<and>
      controller_steps (calm_calls sample_pool) (\<lambda>cred. Inr no_github) (static_io stale_status) calm_secret_io (\<lambda>k. None) r c c'"
    for r c
    by (cases "Reconcile (calm_controller sample_pool) r ''ns'' ''pool'' c")
      (auto simp: calm_manager_def intro: steps_refl steps_next [OF steps_refl step_reconcile])
  have "gh_answers (no_github :: unit gh_client)" by (simp add: gh_answers_def no_github_def)
  with start have "\<exists>x. ?run = Some x \<and> clean_exit x" by (intro controller_exit_clean) auto
  moreover have "SplitHostPort '':9443'' = Inr ([], ''9443'')"
    using SplitHostPort_plain [of "[]" "''9443''"] by (simp add: no_addr_char_def)
  moreover have "atoi ''9443'' = Some 9443" by code_simp
  ultimately have "\<exists>e c. ?run = Some (Exit e c) \<and> stopped_clean c \<and> e = None"
    by (auto simp: run_def default_controller_config_def calm_manager_def no_rules_without_file serve_manager_def
        on_world_def deferred_StopAll_def Let_def split: option.splits)
  then show ?thesis by blast
qed

end
