(* ===== verification/Metrics_Client.thy ===== *)
theory Metrics_Client
  imports Metrics Go_Http
begin

section \<open>metrics/client.go: reading a gauge from a metrics page\<close>

text \<open>
  \<open>FetchGauge\<close> reads the page of a metrics endpoint and returns the series of one gauge, each with its
  labels. The parser of the text format is a parameter, \<open>parse\<close>; a value is of any type with a zero,
  which is what the getters of a missing gauge return.
\<close>

datatype fetch_error = RequestError string | ParseError string | ErrNotExist | ErrWrongType

datatype metric_type = COUNTER | GAUGE | SUMMARY | UNTYPED | HISTOGRAM | GAUGE_HISTOGRAM

record 'v metric =
  mt_Label :: "(string \<times> string) list"
  mt_Gauge :: "'v option"

record 'v metric_family =
  mf_Type :: metric_type
  mf_Metric :: "'v metric list"

record 'v gauge =
  g_Label :: "string \<rightharpoonup> string"
  g_Value :: 'v

type_synonym 'v families = "string \<rightharpoonup> 'v metric_family"

text \<open>The code of the response is not looked at: whatever page arrives is parsed.\<close>

definition fetchMetricsFamily ::
    "'w network \<Rightarrow> (string \<Rightarrow> string + 'v families) \<Rightarrow> string \<Rightarrow> 'w \<Rightarrow> (fetch_error + 'v families) \<times> 'w" where
  "fetchMetricsFamily net parse url w =
     (case net \<lparr>req_method = MethodGet, req_url = url, req_content_type = [], req_body = []\<rparr> w of
        (Inl e, w') \<Rightarrow> (Inl (RequestError e), w')
      | (Inr res, w') \<Rightarrow>
          (case parse (res_body res) of Inl e \<Rightarrow> (Inl (ParseError e), w') | Inr fs \<Rightarrow> (Inr fs, w')))"

definition gauge_of :: "('v :: zero) metric \<Rightarrow> 'v gauge" where
  "gauge_of m =
     \<lparr>g_Label = fold (\<lambda>l label. label(fst l \<mapsto> snd l)) (mt_Label m) Map.empty,
      g_Value = (case mt_Gauge m of None \<Rightarrow> 0 | Some v \<Rightarrow> v)\<rparr>"

definition FetchGauge ::
    "'w network \<Rightarrow> (string \<Rightarrow> string + ('v :: zero) families) \<Rightarrow> string \<Rightarrow> string \<Rightarrow> 'w \<Rightarrow>
       (fetch_error + 'v gauge list) \<times> 'w" where
  "FetchGauge net parse url name w =
     (case fetchMetricsFamily net parse url w of
        (Inl e, w') \<Rightarrow> (Inl e, w')
      | (Inr families, w') \<Rightarrow>
          (case families name of
             None \<Rightarrow> (Inl ErrNotExist, w')
           | Some family \<Rightarrow>
               if mf_Type family \<noteq> GAUGE then (Inl ErrWrongType, w')
               else (Inr (map gauge_of (mf_Metric family)), w')))"

text \<open>With distinct label names, the labels of a series are those of the page.\<close>

lemma fold_labels: "fold (\<lambda>l label. label(fst l \<mapsto> snd l)) ls m = m ++ map_of (rev ls)"
  by (induction ls arbitrary: m) auto

lemma gauge_of_labels:
  assumes "distinct (map fst (mt_Label m))" "(k, v) \<in> set (mt_Label m)"
  shows "g_Label (gauge_of m) k = Some v"
proof -
  have "distinct (map fst (rev (mt_Label m)))" using assms(1) by (simp add: rev_map [symmetric])
  with assms(2) show ?thesis by (simp add: gauge_of_def fold_labels)
qed

lemma FetchGauge_ok:
  assumes "FetchGauge net parse url name w = (Inr gs, w')"
  shows "\<exists>res fs family. net \<lparr>req_method = MethodGet, req_url = url, req_content_type = [], req_body = []\<rparr> w = (Inr res, w') \<and>
    parse (res_body res) = Inr fs \<and> fs name = Some family \<and> mf_Type family = GAUGE \<and> gs = map gauge_of (mf_Metric family)"
  using assms
  by (auto simp: FetchGauge_def fetchMetricsFamily_def split: prod.splits sum.splits option.splits if_splits)

end
