(* ===== verification/Agent_Run.thy ===== *)
theory Agent_Run
  imports Slack_Agent
begin

section \<open>agent/server.go: the running Slack agent\<close>

text \<open>
  \<open>Run\<close> starts the HTTP server and two goroutines, the loop over the events of the socket and the socket
  itself, in one environment: the first of them that returns an error ends the agent with that error. What
  happens to the agent is a sequence of inputs, in the order in which they take effect. A panic of the
  HTTP handler is recovered by \<open>net/http\<close>, before any effect; a panic of the loop ends the process.
\<close>

datatype agent_input =
    HttpRequest http_request
  | SocketEvent envelope
  | SocketReturned "string option"

datatype agent_end =
    ListenFailed string
  | EventLoop agent_error
  | SocketFailed string
  | Crashed

fun agent_serve :: "'w agent_io \<Rightarrow> server \<Rightarrow> agent_input list \<Rightarrow> 'w \<Rightarrow> agent_end option \<times> 'w" where
  "agent_serve io s [] w = (None, w)"
| "agent_serve io s (HttpRequest r # is) w =
     (case ServeHTTP s (ag_post io) r w of
        Panics \<Rightarrow> agent_serve io s is w
      | Returns (res, w') \<Rightarrow> agent_serve io s is w')"
| "agent_serve io s (SocketEvent e # is) w =
     (case listenInteractiveEvents io s [e] w of
        Panics \<Rightarrow> (Some Crashed, w)
      | Returns (Some err, w') \<Rightarrow> (Some (EventLoop err), w')
      | Returns (None, w') \<Rightarrow> agent_serve io s is w')"
| "agent_serve io s (SocketReturned (Some e) # is) w = (Some (SocketFailed e), w)"
| "agent_serve io s (SocketReturned None # is) w = agent_serve io s is w"

text \<open>\<open>Run\<close>; \<open>listenErr\<close> is the error of listening on the address.\<close>

definition agent_Run ::
    "string option \<Rightarrow> 'w agent_io \<Rightarrow> server \<Rightarrow> agent_input list \<Rightarrow> 'w \<Rightarrow> agent_end option \<times> 'w" where
  "agent_Run listenErr io s is w =
     (case listenErr of Some e \<Rightarrow> (Some (ListenFailed e), w) | None \<Rightarrow> agent_serve io s is w)"

subsection \<open>Lemmas\<close>

text \<open>Outside the development mode no button press panics.\<close>

lemma handle_callback_no_panic:
  assumes "\<not> devMood s"
  shows "handle_callback io s cb w \<noteq> Panics"
proof -
  have acts: "cb_BlockActions cb \<noteq> []" if "isExtendButtonEvent cb \<or> isDeleteButtonEvent cb"
    using that by (auto simp: isExtendButtonEvent_def isDeleteButtonEvent_def split: if_splits)
  have get: "getPodFromCallbackEvent cb \<noteq> Panics" if "cb_BlockActions cb \<noteq> []"
    using that by (cases "cb_BlockActions cb") (auto simp: getPodFromCallbackEvent_def Let_def split: list.splits)
  have ext: "extendPod io s ch ns pod w \<noteq> Panics" "deletePod io s ch ns pod w \<noteq> Panics" for ch ns pod w
    using assms by (auto simp: extendPod_def deletePod_def Let_def split: prod.splits sum.splits)
  show ?thesis
    using acts get ext
    by (auto simp: handle_callback_def button_handler_def split: outcome.splits sum.splits)
qed

lemma event_no_panic:
  assumes "\<not> devMood s"
  shows "listenInteractiveEvents io s es w \<noteq> Panics"
proof (induction es arbitrary: w)
  case (Cons e es)
  show ?case
  proof (cases e)
    case (Interactive c)
    with Cons show ?thesis
      by (cases c) (auto simp: handle_callback_no_panic [OF assms] split: outcome.splits option.splits)
  qed (use Cons in simp_all)
qed simp

text \<open>The agent never crashes outside the development mode: it ends with an error, or it runs.\<close>

lemma agent_never_crashes:
  assumes "\<not> devMood s"
  shows "fst (agent_Run listenErr io s is w) \<noteq> Some Crashed"
proof -
  have "fst (agent_serve io s is w) \<noteq> Some Crashed" for w
    using assms
    by (induction io s "is" w rule: agent_serve.induct) (auto simp: event_no_panic split: outcome.splits option.splits)
  then show ?thesis by (simp add: agent_Run_def split: option.splits)
qed

text \<open>Requests alone never end the agent, and its loop alone is the loop over the events.\<close>

lemma requests_never_end: "fst (agent_serve io s (map HttpRequest rs) w) = None"
  by (induction rs arbitrary: w) (auto split: outcome.splits)

lemma agent_serve_events:
  "listenInteractiveEvents io s es w = Returns (e, w') \<Longrightarrow>
     agent_serve io s (map SocketEvent es) w = (map_option EventLoop e, w')"
proof (induction es arbitrary: w)
  case (Cons ev es)
  then show ?case
    by (cases ev rule: envelope.exhaust; cases "case ev of Interactive c \<Rightarrow> c | _ \<Rightarrow> None")
      (auto split: outcome.splits option.splits)
qed simp

end
