(* ===== verification/Deep_Copy.thy ===== *)
theory Deep_Copy
  imports RunnerPool_Api "HOL-Library.DAList"
begin

section \<open>api/v1alpha1/zz\_generated.deepcopy.go: copies that share nothing\<close>

text \<open>
  The other theories treat objects as values. In the program they are structs in memory that point to
  maps, slices and other structs, and the client library hands out and keeps pointers to them; that nobody
  changes somebody else's object rests on the deep copies. Here the memory is explicit: a heap of cells, a
  \<open>RunnerPool\<close> with the addresses of its maps and slices, and the generated \<open>DeepCopyInto\<close> and \<open>DeepCopy\<close> on
  them. The structs of the Kubernetes API inside a pool are of any type \<open>'x\<close>, with their own \<open>DeepCopyInto\<close> as a
  parameter; the locale \<open>deep_copier\<close> says what a deep copy is, and every type of the package is shown
  to have one if the types of the API have.
\<close>

subsection \<open>Memory\<close>

type_synonym addr = nat

text \<open>A slice: the address of its array, where it starts in it and how long it is.\<close>

record slice =
  sl_addr :: addr
  sl_off :: nat
  sl_len :: nat

text \<open>
  The structs of the package. Each is used twice: in memory, where the type variables are addresses, and
  as a value, where they are what is found there. A nil map, slice or pointer is \<open>None\<close>.
\<close>

record 'm meta_rep =
  m_Labels :: 'm
  m_Annotations :: 'm

record ('p, 's, 'x) container_rep =
  cr_Image :: string
  cr_ImagePullPolicy :: string
  cr_SecurityContext :: 'p
  cr_EnvFrom :: 's
  cr_Env :: 's
  cr_Resources :: 'x
  cr_VolumeMounts :: 's

record ('m, 'p, 's, 'x, 't, 'b) template_rep =
  tr_ObjectMeta :: "'m meta_rep"
  tr_RunnerContainer :: "('p, 's, 'x) container_rep"
  tr_ImagePullSecrets :: 't
  tr_Volumes :: 's
  tr_NodeSelector :: 'm
  tr_ServiceAccountName :: string
  tr_AutomountServiceAccountToken :: 'b
  tr_Tolerations :: 's

record ('m, 'p, 's, 'x, 't, 'b) spec_rep =
  sr_Repository :: string
  sr_Organization :: string
  sr_CredentialSecretName :: string
  sr_Replicas :: int32
  sr_MaxRunnerPods :: int32
  sr_WorkVolume :: 'p
  sr_SetupCommand :: 't
  sr_RecreateDeadline :: string
  sr_Notification :: notification_config
  sr_Template :: "('m, 'p, 's, 'x, 't, 'b) template_rep"
  sr_DenyDisruption :: bool

record runner_pool_status =
  st_Bound :: bool

text \<open>\<open>metav1.TypeMeta\<close> is two strings, the kind and the version.\<close>

record ('m, 'p, 's, 'x, 't, 'b) pool_rep =
  pr_TypeMeta :: "string \<times> string"
  pr_ObjectMeta :: 'x
  pr_Spec :: "('m, 'p, 's, 'x, 't, 'b) spec_rep"
  pr_Status :: runner_pool_status

record ('x, 'i) list_rep =
  lr_TypeMeta :: "string \<times> string"
  lr_ListMeta :: 'x
  lr_Items :: 'i

type_synonym meta_mem = "addr option meta_rep"
type_synonym 'x container_mem = "(addr option, slice option, 'x) container_rep"
type_synonym 'x template_mem = "(addr option, addr option, slice option, 'x, slice option, addr option) template_rep"
type_synonym 'x spec_mem = "(addr option, addr option, slice option, 'x, slice option, addr option) spec_rep"
type_synonym 'x pool_mem = "(addr option, addr option, slice option, 'x, slice option, addr option) pool_rep"
type_synonym 'x list_mem = "('x, slice option) list_rep"

text \<open>The value of a pointer is the list of the one struct it points to.\<close>

type_synonym map_val = "(string \<rightharpoonup> string) option"
type_synonym 'v container_val = "('v list option, 'v list option, 'v) container_rep"
type_synonym 'v template_val = "(map_val, 'v list option, 'v list option, 'v, string list option, bool option) template_rep"
type_synonym 'v spec_val = "(map_val, 'v list option, 'v list option, 'v, string list option, bool option) spec_rep"
type_synonym 'v pool_val = "(map_val, 'v list option, 'v list option, 'v, string list option, bool option) pool_rep"
type_synonym 'v list_val = "('v, 'v pool_val list option) list_rep"

text \<open>
  What a cell of memory holds; a struct of the API that is pointed to is an array of length one. The struct
  \<open>LocalObjectReference\<close> is a string, the name. \<open>RunnerPoolDefaulter\<close> and \<open>RunnerPoolValidator\<close> are empty.
\<close>

datatype 'x cell =
    MapCell "(string, string) alist"
  | BoolCell bool
  | StrArr "string list"
  | ExtArr "'x list"
  | SlackCell slack_config
  | NotificationCell notification_config
  | MetaCell meta_mem
  | ContainerCell "'x container_mem"
  | TemplateCell "'x template_mem"
  | SpecCell "'x spec_mem"
  | StatusCell runner_pool_status
  | PoolArr "'x pool_mem list"
  | ListCell "'x list_mem"
  | EmptyStruct

record 'x heap =
  lim :: addr
  cells :: "addr \<Rightarrow> 'x cell option"

definition alloc :: "'x cell \<Rightarrow> 'x heap \<Rightarrow> addr \<times> 'x heap" where
  "alloc c h = (lim h, \<lparr>lim = Suc (lim h), cells = (cells h)(lim h \<mapsto> c)\<rparr>)"

definition store :: "addr \<Rightarrow> 'x cell \<Rightarrow> 'x heap \<Rightarrow> 'x heap" where
  "store a c h = h\<lparr>cells := (cells h)(a \<mapsto> c)\<rparr>"

text \<open>Reading memory at a type; there is no ill-typed access in the program.\<close>

definition map_at :: "'x heap \<Rightarrow> addr \<Rightarrow> (string, string) alist" where
  "map_at h a = (case cells h a of Some (MapCell m) \<Rightarrow> m | _ \<Rightarrow> DAList.empty)"

definition bool_at :: "'x heap \<Rightarrow> addr \<Rightarrow> bool" where
  "bool_at h a = (case cells h a of Some (BoolCell b) \<Rightarrow> b | _ \<Rightarrow> False)"

fun str_elems :: "'x cell option \<Rightarrow> string list" where
  "str_elems (Some (StrArr ss)) = ss"
| "str_elems _ = []"

fun ext_elems :: "'x cell option \<Rightarrow> 'x list" where
  "ext_elems (Some (ExtArr xs)) = xs"
| "ext_elems _ = []"

fun pool_elems :: "'x cell option \<Rightarrow> 'x pool_mem list" where
  "pool_elems (Some (PoolArr ps)) = ps"
| "pool_elems _ = []"

definition elems :: "('x cell option \<Rightarrow> 'e list) \<Rightarrow> 'x heap \<Rightarrow> slice \<Rightarrow> 'e list" where
  "elems rd h s = take (sl_len s) (drop (sl_off s) (rd (cells h (sl_addr s))))"

subsection \<open>The loops of the generated code\<close>

type_synonym ('a, 'x) copier = "'a \<Rightarrow> 'x heap \<Rightarrow> 'a \<times> 'x heap"

text \<open>A map: make a new one and put every entry of the old one.\<close>

definition copy_map :: "(addr option, 'x) copier" where
  "copy_map p h =
     (case p of
        None \<Rightarrow> (None, h)
      | Some a \<Rightarrow>
          (let (b, h') = alloc (MapCell (fold (\<lambda>(k, v). DAList.update k v) (DAList.impl_of (map_at h a)) DAList.empty)) h
           in (Some b, h')))"

definition copy_bool :: "(addr option, 'x) copier" where
  "copy_bool p h =
     (case p of
        None \<Rightarrow> (None, h)
      | Some a \<Rightarrow> (let (b, h') = alloc (BoolCell (bool_at h a)) h in (Some b, h')))"

text \<open>A slice of strings: make a new one and \<open>copy\<close>.\<close>

definition copy_strs :: "(slice option, 'x) copier" where
  "copy_strs p h =
     (case p of
        None \<Rightarrow> (None, h)
      | Some s \<Rightarrow>
          (let (b, h') = alloc (StrArr (elems str_elems h s)) h
           in (Some \<lparr>sl_addr = b, sl_off = 0, sl_len = sl_len s\<rparr>, h')))"

text \<open>A slice of structs: make a new array, then copy element by element into it.\<close>

primrec copy_each :: "('e, 'x) copier \<Rightarrow> ('e list, 'x) copier" where
  "copy_each c [] h = ([], h)"
| "copy_each c (x # xs) h =
     (let (x', h1) = c x h; (xs', h2) = copy_each c xs h1 in (x' # xs', h2))"

definition copy_slice ::
    "('e list \<Rightarrow> 'x cell) \<Rightarrow> ('x cell option \<Rightarrow> 'e list) \<Rightarrow> ('e, 'x) copier \<Rightarrow> (slice option, 'x) copier" where
  "copy_slice mk rd c p h =
     (case p of
        None \<Rightarrow> (None, h)
      | Some s \<Rightarrow>
          (let (b, h1) = alloc (mk []) h; (xs, h2) = copy_each c (elems rd h s) h1
           in (Some \<lparr>sl_addr = b, sl_off = 0, sl_len = sl_len s\<rparr>, store b (mk xs) h2)))"

text \<open>A pointer to a struct of the API: a new struct, and its \<open>DeepCopyInto\<close>.\<close>

definition copy_ptr :: "('x, 'x) copier \<Rightarrow> (addr option, 'x) copier" where
  "copy_ptr c p h =
     (case p of
        None \<Rightarrow> (None, h)
      | Some a \<Rightarrow>
          (let (b, h1) = alloc (ExtArr []) h; (xs, h2) = copy_each c (take 1 (ext_elems (cells h a))) h1
           in (Some b, store b (ExtArr xs) h2)))"

subsection \<open>DeepCopyInto\<close>

text \<open>\<open>DeepCopyInto\<close> overwrites \<open>out\<close> with \<open>*in\<close> first, so its result is what \<open>*out\<close> is in the end.\<close>

definition SlackConfig_DeepCopyInto :: "(slack_config, 'x) copier" where
  "SlackConfig_DeepCopyInto inn h = (inn, h)"

definition NotificationConfig_DeepCopyInto :: "(notification_config, 'x) copier" where
  "NotificationConfig_DeepCopyInto inn h = (inn\<lparr>Slack := Slack inn\<rparr>, h)"

definition RunnerPoolStatus_DeepCopyInto :: "(runner_pool_status, 'x) copier" where
  "RunnerPoolStatus_DeepCopyInto inn h = (inn, h)"

definition ObjectMeta_DeepCopyInto :: "(meta_mem, 'x) copier" where
  "ObjectMeta_DeepCopyInto inn h =
     (let (ls, h1) = copy_map (m_Labels inn) h; (as, h2) = copy_map (m_Annotations inn) h1
      in (inn\<lparr>m_Labels := ls, m_Annotations := as\<rparr>, h2))"

definition RunnerContainerSpec_DeepCopyInto :: "('x, 'x) copier \<Rightarrow> ('x container_mem, 'x) copier" where
  "RunnerContainerSpec_DeepCopyInto ext inn h =
     (let (sc, h1) = copy_ptr ext (cr_SecurityContext inn) h;
          (ef, h2) = copy_slice ExtArr ext_elems ext (cr_EnvFrom inn) h1;
          (ev, h3) = copy_slice ExtArr ext_elems ext (cr_Env inn) h2;
          (rs, h4) = ext (cr_Resources inn) h3;
          (vm, h5) = copy_slice ExtArr ext_elems ext (cr_VolumeMounts inn) h4
      in (inn\<lparr>cr_SecurityContext := sc, cr_EnvFrom := ef, cr_Env := ev, cr_Resources := rs, cr_VolumeMounts := vm\<rparr>, h5))"

definition RunnerPodTemplateSpec_DeepCopyInto :: "('x, 'x) copier \<Rightarrow> ('x template_mem, 'x) copier" where
  "RunnerPodTemplateSpec_DeepCopyInto ext inn h =
     (let (om, h1) = ObjectMeta_DeepCopyInto (tr_ObjectMeta inn) h;
          (rc, h2) = RunnerContainerSpec_DeepCopyInto ext (tr_RunnerContainer inn) h1;
          (ip, h3) = copy_strs (tr_ImagePullSecrets inn) h2;
          (vs, h4) = copy_slice ExtArr ext_elems ext (tr_Volumes inn) h3;
          (ns, h5) = copy_map (tr_NodeSelector inn) h4;
          (am, h6) = copy_bool (tr_AutomountServiceAccountToken inn) h5;
          (tl, h7) = copy_slice ExtArr ext_elems ext (tr_Tolerations inn) h6
      in (inn\<lparr>tr_ObjectMeta := om, tr_RunnerContainer := rc, tr_ImagePullSecrets := ip, tr_Volumes := vs,
              tr_NodeSelector := ns, tr_AutomountServiceAccountToken := am, tr_Tolerations := tl\<rparr>, h7))"

definition RunnerPoolSpec_DeepCopyInto :: "('x, 'x) copier \<Rightarrow> ('x spec_mem, 'x) copier" where
  "RunnerPoolSpec_DeepCopyInto ext inn h =
     (let (wv, h1) = copy_ptr ext (sr_WorkVolume inn) h;
          (cmd, h2) = copy_strs (sr_SetupCommand inn) h1;
          (tmpl, h3) = RunnerPodTemplateSpec_DeepCopyInto ext (sr_Template inn) h2
      in (inn\<lparr>sr_WorkVolume := wv, sr_SetupCommand := cmd, sr_Notification := sr_Notification inn, sr_Template := tmpl\<rparr>, h3))"

definition RunnerPool_DeepCopyInto :: "('x, 'x) copier \<Rightarrow> ('x pool_mem, 'x) copier" where
  "RunnerPool_DeepCopyInto ext inn h =
     (let (om, h1) = ext (pr_ObjectMeta inn) h;
          (spec, h2) = RunnerPoolSpec_DeepCopyInto ext (pr_Spec inn) h1
      in (inn\<lparr>pr_TypeMeta := pr_TypeMeta inn, pr_ObjectMeta := om, pr_Spec := spec, pr_Status := pr_Status inn\<rparr>, h2))"

definition RunnerPoolList_DeepCopyInto :: "('x, 'x) copier \<Rightarrow> ('x list_mem, 'x) copier" where
  "RunnerPoolList_DeepCopyInto ext inn h =
     (let (lm, h1) = ext (lr_ListMeta inn) h;
          (is, h2) = copy_slice PoolArr pool_elems (RunnerPool_DeepCopyInto ext) (lr_Items inn) h1
      in (inn\<lparr>lr_TypeMeta := lr_TypeMeta inn, lr_ListMeta := lm, lr_Items := is\<rparr>, h2))"

subsection \<open>DeepCopy\<close>

text \<open>
  \<open>DeepCopy\<close> of every type: nil for nil, else a new struct filled by \<open>DeepCopyInto\<close>. A pointer to a pool is the
  address of an array of length one.
\<close>

definition deep_copy_new ::
    "('e \<Rightarrow> 'x cell) \<Rightarrow> ('x cell option \<Rightarrow> 'e option) \<Rightarrow> ('e, 'x) copier \<Rightarrow> (addr option, 'x) copier" where
  "deep_copy_new mk get c inn h =
     (case inn of
        None \<Rightarrow> (None, h)
      | Some a \<Rightarrow>
          (case get (cells h a) of
             None \<Rightarrow> (None, h)
           | Some e \<Rightarrow>
               (let (out, h1) = alloc (mk e) h; (e', h2) = c e h1 in (Some out, store out (mk e') h2))))"

fun the_slack :: "'x cell option \<Rightarrow> slack_config option" where
  "the_slack (Some (SlackCell c)) = Some c" | "the_slack _ = None"

fun the_notification :: "'x cell option \<Rightarrow> notification_config option" where
  "the_notification (Some (NotificationCell c)) = Some c" | "the_notification _ = None"

fun the_meta :: "'x cell option \<Rightarrow> meta_mem option" where
  "the_meta (Some (MetaCell c)) = Some c" | "the_meta _ = None"

fun the_container :: "'x cell option \<Rightarrow> 'x container_mem option" where
  "the_container (Some (ContainerCell c)) = Some c" | "the_container _ = None"

fun the_template :: "'x cell option \<Rightarrow> 'x template_mem option" where
  "the_template (Some (TemplateCell c)) = Some c" | "the_template _ = None"

fun the_spec :: "'x cell option \<Rightarrow> 'x spec_mem option" where
  "the_spec (Some (SpecCell c)) = Some c" | "the_spec _ = None"

fun the_status :: "'x cell option \<Rightarrow> runner_pool_status option" where
  "the_status (Some (StatusCell c)) = Some c" | "the_status _ = None"

fun the_pool :: "'x cell option \<Rightarrow> 'x pool_mem option" where
  "the_pool (Some (PoolArr [p])) = Some p" | "the_pool _ = None"

fun the_list :: "'x cell option \<Rightarrow> 'x list_mem option" where
  "the_list (Some (ListCell c)) = Some c" | "the_list _ = None"

fun the_empty :: "'x cell option \<Rightarrow> unit option" where
  "the_empty (Some EmptyStruct) = Some ()" | "the_empty _ = None"

definition SlackConfig_DeepCopy :: "(addr option, 'x) copier" where
  "SlackConfig_DeepCopy = deep_copy_new SlackCell the_slack SlackConfig_DeepCopyInto"

definition NotificationConfig_DeepCopy :: "(addr option, 'x) copier" where
  "NotificationConfig_DeepCopy = deep_copy_new NotificationCell the_notification NotificationConfig_DeepCopyInto"

definition ObjectMeta_DeepCopy :: "(addr option, 'x) copier" where
  "ObjectMeta_DeepCopy = deep_copy_new MetaCell the_meta ObjectMeta_DeepCopyInto"

definition RunnerContainerSpec_DeepCopy :: "('x, 'x) copier \<Rightarrow> (addr option, 'x) copier" where
  "RunnerContainerSpec_DeepCopy ext = deep_copy_new ContainerCell the_container (RunnerContainerSpec_DeepCopyInto ext)"

definition RunnerPodTemplateSpec_DeepCopy :: "('x, 'x) copier \<Rightarrow> (addr option, 'x) copier" where
  "RunnerPodTemplateSpec_DeepCopy ext = deep_copy_new TemplateCell the_template (RunnerPodTemplateSpec_DeepCopyInto ext)"

definition RunnerPoolSpec_DeepCopy :: "('x, 'x) copier \<Rightarrow> (addr option, 'x) copier" where
  "RunnerPoolSpec_DeepCopy ext = deep_copy_new SpecCell the_spec (RunnerPoolSpec_DeepCopyInto ext)"

definition RunnerPoolStatus_DeepCopy :: "(addr option, 'x) copier" where
  "RunnerPoolStatus_DeepCopy = deep_copy_new StatusCell the_status RunnerPoolStatus_DeepCopyInto"

definition RunnerPool_DeepCopy :: "('x, 'x) copier \<Rightarrow> (addr option, 'x) copier" where
  "RunnerPool_DeepCopy ext = deep_copy_new (\<lambda>p. PoolArr [p]) the_pool (RunnerPool_DeepCopyInto ext)"

definition RunnerPoolList_DeepCopy :: "('x, 'x) copier \<Rightarrow> (addr option, 'x) copier" where
  "RunnerPoolList_DeepCopy ext = deep_copy_new ListCell the_list (RunnerPoolList_DeepCopyInto ext)"

definition RunnerPoolDefaulter_DeepCopyInto :: "(unit, 'x) copier" where
  "RunnerPoolDefaulter_DeepCopyInto inn h = (inn, h)"

definition RunnerPoolDefaulter_DeepCopy :: "(addr option, 'x) copier" where
  "RunnerPoolDefaulter_DeepCopy = deep_copy_new (\<lambda>e. EmptyStruct) the_empty RunnerPoolDefaulter_DeepCopyInto"

definition RunnerPoolValidator_DeepCopyInto :: "(unit, 'x) copier" where
  "RunnerPoolValidator_DeepCopyInto inn h = (inn, h)"

definition RunnerPoolValidator_DeepCopy :: "(addr option, 'x) copier" where
  "RunnerPoolValidator_DeepCopy = deep_copy_new (\<lambda>e. EmptyStruct) the_empty RunnerPoolValidator_DeepCopyInto"

text \<open>\<open>DeepCopyObject\<close> returns the copy as an interface, and the nil interface for a nil copy.\<close>

definition RunnerPool_DeepCopyObject :: "('x, 'x) copier \<Rightarrow> (addr option, 'x) copier" where
  "RunnerPool_DeepCopyObject ext inn h =
     (case RunnerPool_DeepCopy ext inn h of (Some c, h') \<Rightarrow> (Some c, h') | (None, h') \<Rightarrow> (None, h'))"

definition RunnerPoolList_DeepCopyObject :: "('x, 'x) copier \<Rightarrow> (addr option, 'x) copier" where
  "RunnerPoolList_DeepCopyObject ext inn h =
     (case RunnerPoolList_DeepCopy ext inn h of (Some c, h') \<Rightarrow> (Some c, h') | (None, h') \<Rightarrow> (None, h'))"

subsection \<open>What a deep copy is\<close>

text \<open>
  \<open>val h x\<close> is what \<open>x\<close> is worth in the heap \<open>h\<close>, and \<open>foot h x\<close> are the addresses it is made of. A deep copy
  is worth the same, is made of new memory only and changes no old memory.
\<close>

definition grows :: "'x heap \<Rightarrow> 'x heap \<Rightarrow> bool" where
  "grows h h' \<longleftrightarrow> lim h \<le> lim h' \<and> (\<forall>a<lim h. cells h' a = cells h a)"

lemma grows_refl [simp]: "grows h h"
  by (simp add: grows_def)

lemma grows_trans: "grows h1 h2 \<Longrightarrow> grows h2 h3 \<Longrightarrow> grows h1 h3"
  by (auto simp: grows_def)

lemma grows_alloc: "alloc c h = (b, h') \<Longrightarrow> grows h h' \<and> b = lim h \<and> lim h' = Suc (lim h) \<and> cells h' b = Some c"
  by (auto simp: grows_def alloc_def)

lemma grows_store: "grows h h' \<Longrightarrow> lim h \<le> b \<Longrightarrow> grows h (store b c h')"
  by (auto simp: grows_def store_def)

lemma store_simps [simp]: "lim (store b c h) = lim h" "cells (store b c h) = (cells h)(b \<mapsto> c)"
  by (simp_all add: store_def)

locale deep_copier =
  fixes val :: "'x heap \<Rightarrow> 'a \<Rightarrow> 'v" and foot :: "'x heap \<Rightarrow> 'a \<Rightarrow> addr set" and copy :: "('a, 'x) copier"
  assumes copied: "foot h x \<subseteq> {..<lim h} \<Longrightarrow> copy x h = (x', h') \<Longrightarrow>
      grows h h' \<and> val h' x' = val h x \<and> foot h' x' \<subseteq> {lim h..<lim h'}"
    and local: "(\<And>a. a \<in> foot h x \<Longrightarrow> cells h1 a = cells h a) \<Longrightarrow> val h1 x = val h x \<and> foot h1 x = foot h x"
begin

lemma keeps: "foot h x \<subseteq> {..<lim h} \<Longrightarrow> grows h h1 \<Longrightarrow> val h1 x = val h x \<and> foot h1 x = foot h x"
  by (rule local) (auto simp: grows_def)

text \<open>Whatever is written elsewhere, the copy keeps its value, and so does the original.\<close>

lemma independent:
  assumes "foot h x \<subseteq> {..<lim h}" "copy x h = (x', h')"
  shows "foot h' x' \<inter> foot h' x = {}"
    and "(\<And>a. a < lim h \<Longrightarrow> cells h1 a = cells h' a) \<Longrightarrow> val h1 x = val h x"
    and "(\<And>a. lim h \<le> a \<Longrightarrow> cells h1 a = cells h' a) \<Longrightarrow> val h1 x' = val h x"
proof -
  note c = copied [OF assms]
  then have old: "val h' x = val h x" "foot h' x = foot h x" using keeps [OF assms(1)] by blast+
  show "foot h' x' \<inter> foot h' x = {}" using c old(2) assms(1) by fastforce
  show "val h1 x = val h x" if "\<And>a. a < lim h \<Longrightarrow> cells h1 a = cells h' a"
    using local [of h' x h1] that old assms(1) by auto
  show "val h1 x' = val h x" if "\<And>a. lim h \<le> a \<Longrightarrow> cells h1 a = cells h' a"
  proof -
    have "cells h1 a = cells h' a" if "a \<in> foot h' x'" for a
      using that c \<open>\<And>a. lim h \<le> a \<Longrightarrow> cells h1 a = cells h' a\<close> by fastforce
    then show ?thesis using local [of h' x' h1] c by simp
  qed
qed

end

subsection \<open>Deep copies of the parts\<close>

text \<open>Two parts one after the other, and a struct that is copied part by part.\<close>

definition copy_pair :: "('a, 'x) copier \<Rightarrow> ('b, 'x) copier \<Rightarrow> ('a \<times> 'b, 'x) copier" where
  "copy_pair c d p h = (let (x, h1) = c (fst p) h; (y, h2) = d (snd p) h1 in ((x, y), h2))"

lemma deep_copier_pair:
  assumes "deep_copier v1 f1 c1" "deep_copier v2 f2 c2"
  shows "deep_copier (\<lambda>h p. (v1 h (fst p), v2 h (snd p))) (\<lambda>h p. f1 h (fst p) \<union> f2 h (snd p)) (copy_pair c1 c2)"
proof (rule deep_copier.intro)
  fix h h' :: "'a heap" and p p'
  assume foot: "f1 h (fst p) \<union> f2 h (snd p) \<subseteq> {..<lim h}" and "copy_pair c1 c2 p h = (p', h')"
  then obtain x h1 y where x: "c1 (fst p) h = (x, h1)" and y: "c2 (snd p) h1 = (y, h')" and p': "p' = (x, y)"
    by (auto simp: copy_pair_def Let_def split: prod.splits)
  have 1: "grows h h1 \<and> v1 h1 x = v1 h (fst p) \<and> f1 h1 x \<subseteq> {lim h..<lim h1}"
    using deep_copier.copied [OF assms(1) _ x] foot by simp
  have k: "v2 h1 (snd p) = v2 h (snd p) \<and> f2 h1 (snd p) = f2 h (snd p)"
    using deep_copier.keeps [OF assms(2), of h "snd p" h1] foot 1 by simp
  have "f2 h1 (snd p) \<subseteq> {..<lim h1}" using k foot 1 by (auto simp: grows_def)
  then have 2: "grows h1 h' \<and> v2 h' y = v2 h1 (snd p) \<and> f2 h' y \<subseteq> {lim h1..<lim h'}"
    using deep_copier.copied [OF assms(2) _ y] by simp
  have "f1 h1 x \<subseteq> {..<lim h1}" using 1 by auto
  then have 3: "v1 h' x = v1 h1 x \<and> f1 h' x = f1 h1 x" using deep_copier.keeps [OF assms(1)] 2 by blast
  have "lim h \<le> lim h1" "lim h1 \<le> lim h'" using 1 2 by (auto simp: grows_def)
  then show "grows h h' \<and> (v1 h' (fst p'), v2 h' (snd p')) = (v1 h (fst p), v2 h (snd p)) \<and>
      f1 h' (fst p') \<union> f2 h' (snd p') \<subseteq> {lim h..<lim h'}"
    using 1 2 3 k p' grows_trans by fastforce
next
  fix h h1 :: "'a heap" and p
  assume "\<And>a. a \<in> f1 h (fst p) \<union> f2 h (snd p) \<Longrightarrow> cells h1 a = cells h a"
  then show "(v1 h1 (fst p), v2 h1 (snd p)) = (v1 h (fst p), v2 h (snd p)) \<and>
      f1 h1 (fst p) \<union> f2 h1 (snd p) = f1 h (fst p) \<union> f2 h (snd p)"
    using deep_copier.local [OF assms(1), of h "fst p" h1] deep_copier.local [OF assms(2), of h "snd p" h1] by simp
qed

lemma deep_copier_struct:
  assumes "deep_copier v f c"
    and "\<And>s h. copy s h = (let (t, h') = c (parts s) h in (put t s, h'))"
    and "\<And>h s. val h s = mk s (v h (parts s))" and "\<And>h s. foot h s = f h (parts s)"
    and "\<And>t s. parts (put t s) = t" and "\<And>t s. mk (put t s) = mk s"
  shows "deep_copier val foot copy"
proof (rule deep_copier.intro)
  fix h h' :: "'a heap" and s s'
  assume "foot h s \<subseteq> {..<lim h}" "copy s h = (s', h')"
  with deep_copier.copied [OF assms(1), of h "parts s"]
  show "grows h h' \<and> val h' s' = val h s \<and> foot h' s' \<subseteq> {lim h..<lim h'}"
    by (auto simp: assms(2-6) Let_def split: prod.splits)
next
  fix h h1 :: "'a heap" and s
  assume "\<And>a. a \<in> foot h s \<Longrightarrow> cells h1 a = cells h a"
  with deep_copier.local [OF assms(1), of h "parts s" h1] show "val h1 s = val h s \<and> foot h1 s = foot h s"
    by (simp add: assms(3,4))
qed

lemma deep_copier_plain: "deep_copier (\<lambda>h x. x) (\<lambda>h x. {}) (\<lambda>x h. (x, h))"
  by (rule deep_copier.intro) auto

subsubsection \<open>Maps, booleans and strings\<close>

definition map_val :: "'x heap \<Rightarrow> addr option \<Rightarrow> map_val" where
  "map_val h p = map_option (\<lambda>a. DAList.lookup (map_at h a)) p"

definition bool_val :: "'x heap \<Rightarrow> addr option \<Rightarrow> bool option" where
  "bool_val h p = map_option (bool_at h) p"

definition strs_val :: "'x heap \<Rightarrow> slice option \<Rightarrow> string list option" where
  "strs_val h p = map_option (elems str_elems h) p"

definition ptr_at :: "'x heap \<Rightarrow> addr option \<Rightarrow> addr set" where
  "ptr_at h p = set_option p"

definition slice_at :: "'x heap \<Rightarrow> slice option \<Rightarrow> addr set" where
  "slice_at h p = sl_addr ` set_option p"

lemma lookup_update_all:
  "distinct (map fst es) \<Longrightarrow>
     DAList.lookup (fold (\<lambda>(k, v). DAList.update k v) es m) = DAList.lookup m ++ map_of es"
proof (induction es arbitrary: m)
  case (Cons e es)
  have "DAList.lookup (DAList.update (fst e) (snd e) m) = (DAList.lookup m)(fst e \<mapsto> snd e)"
    by (auto simp: DAList.lookup_update)
  with Cons show ?case
    by (simp add: case_prod_beta map_add_upd_left dom_map_of_conv_image_fst) (auto simp: map_add_def)
qed simp

lemma copied_map: "DAList.lookup (fold (\<lambda>(k, v). DAList.update k v) (DAList.impl_of m) DAList.empty) = DAList.lookup m"
proof -
  have "distinct (map fst (DAList.impl_of m))" using DAList.impl_of [of m] by simp
  then show ?thesis by (simp add: lookup_update_all) (simp add: DAList.lookup_def DAList.empty.rep_eq)
qed

interpretation maps: deep_copier map_val ptr_at copy_map
proof (rule deep_copier.intro)
  fix h h' :: "'a heap" and p p'
  assume "copy_map p h = (p', h')"
  then show "grows h h' \<and> map_val h' p' = map_val h p \<and> ptr_at h' p' \<subseteq> {lim h..<lim h'}"
    using copied_map
    by (cases p) (auto simp: copy_map_def map_val_def ptr_at_def map_at_def Let_def dest!: grows_alloc split: prod.splits)
next
  fix h h1 :: "'a heap" and p
  assume "\<And>a. a \<in> ptr_at h p \<Longrightarrow> cells h1 a = cells h a"
  then show "map_val h1 p = map_val h p \<and> ptr_at h1 p = ptr_at h p"
    by (cases p) (simp_all add: map_val_def ptr_at_def map_at_def)
qed

interpretation bools: deep_copier bool_val ptr_at copy_bool
proof (rule deep_copier.intro)
  fix h h' :: "'a heap" and p p'
  assume "copy_bool p h = (p', h')"
  then show "grows h h' \<and> bool_val h' p' = bool_val h p \<and> ptr_at h' p' \<subseteq> {lim h..<lim h'}"
    by (cases p) (auto simp: copy_bool_def bool_val_def ptr_at_def bool_at_def Let_def dest!: grows_alloc split: prod.splits)
next
  fix h h1 :: "'a heap" and p
  assume "\<And>a. a \<in> ptr_at h p \<Longrightarrow> cells h1 a = cells h a"
  then show "bool_val h1 p = bool_val h p \<and> ptr_at h1 p = ptr_at h p"
    by (cases p) (simp_all add: bool_val_def ptr_at_def bool_at_def)
qed

interpretation strs: deep_copier strs_val slice_at copy_strs
proof (rule deep_copier.intro)
  fix h h' :: "'a heap" and p p'
  assume "copy_strs p h = (p', h')"
  then show "grows h h' \<and> strs_val h' p' = strs_val h p \<and> slice_at h' p' \<subseteq> {lim h..<lim h'}"
    by (cases p) (auto simp: copy_strs_def strs_val_def slice_at_def elems_def Let_def dest!: grows_alloc split: prod.splits)
next
  fix h h1 :: "'a heap" and p
  assume "\<And>a. a \<in> slice_at h p \<Longrightarrow> cells h1 a = cells h a"
  then show "strs_val h1 p = strs_val h p \<and> slice_at h1 p = slice_at h p"
    by (cases p) (simp_all add: strs_val_def slice_at_def elems_def)
qed

subsubsection \<open>Slices of structs and pointers to them\<close>

lemma deep_copier_each:
  assumes "deep_copier v f c"
  shows "deep_copier (\<lambda>h xs. map (v h) xs) (\<lambda>h xs. \<Union>(f h ` set xs)) (copy_each c)"
proof (rule deep_copier.intro)
  fix h h' :: "'a heap" and xs xs'
  assume "\<Union>(f h ` set xs) \<subseteq> {..<lim h}" "copy_each c xs h = (xs', h')"
  then show "grows h h' \<and> map (v h') xs' = map (v h) xs \<and> \<Union>(f h' ` set xs') \<subseteq> {lim h..<lim h'}"
  proof (induction xs arbitrary: h xs' h')
    case (Cons x xs)
    let ?v = "\<lambda>h xs. map (v h) xs" and ?f = "\<lambda>h xs. \<Union>(f h ` set xs)"
    from Cons.prems(2) obtain x' h1 ys where x: "c x h = (x', h1)" and xs: "copy_each c xs h1 = (ys, h')" and eq: "xs' = x' # ys"
      by (auto simp: Let_def split: prod.splits)
    have 1: "grows h h1 \<and> v h1 x' = v h x \<and> f h1 x' \<subseteq> {lim h..<lim h1}"
      using deep_copier.copied [OF assms _ x] Cons.prems(1) by auto
    have k: "v h1 y = v h y \<and> f h1 y = f h y" if "y \<in> set xs" for y
      using deep_copier.keeps [OF assms, of h y h1] Cons.prems(1) 1 that by auto
    have "?f h1 xs \<subseteq> {..<lim h1}" using k Cons.prems(1) 1 by (fastforce simp: grows_def)
    from Cons.IH [OF this xs] have 2: "grows h1 h' \<and> ?v h' ys = ?v h1 xs \<and> ?f h' ys \<subseteq> {lim h1..<lim h'}" .
    have "f h1 x' \<subseteq> {..<lim h1}" using 1 by auto
    then have 3: "v h' x' = v h1 x' \<and> f h' x' = f h1 x'" using deep_copier.keeps [OF assms] 2 by blast
    have "lim h \<le> lim h1" "lim h1 \<le> lim h'" using 1 2 by (auto simp: grows_def)
    moreover have "?v h1 xs = ?v h xs" using k by simp
    ultimately show ?case using 1 2 3 grows_trans [of h h1 h'] unfolding eq by fastforce
  qed simp
next
  fix h h1 :: "'a heap" and xs
  assume "\<And>a. a \<in> \<Union>(f h ` set xs) \<Longrightarrow> cells h1 a = cells h a"
  then have "v h1 x = v h x \<and> f h1 x = f h x" if "x \<in> set xs" for x
    using deep_copier.local [OF assms, of h x h1] that by auto
  then show "map (v h1) xs = map (v h) xs \<and> \<Union>(f h1 ` set xs) = \<Union>(f h ` set xs)" by simp
qed

text \<open>The new array: it is allocated, its elements are copied, and it is filled with the copies.\<close>

lemma copied_array:
  assumes dc: "deep_copier v f c" and new: "alloc c0 h = (b, h1)" and each: "copy_each c es h1 = (xs, h2)"
    and foot: "\<Union>(f h ` set es) \<subseteq> {..<lim h}"
    and h3_def: "h3 = store b d h2"
  shows "grows h h3" "map (v h3) xs = map (v h) es" "b \<in> {lim h..<lim h3}" "\<Union>(f h3 ` set xs) \<subseteq> {lim h..<lim h3}"
    "length xs = length es"
proof -
  note dce = deep_copier_each [OF dc]
  have h1: "grows h h1" "b = lim h" "lim h1 = Suc (lim h)" using grows_alloc [OF new] by auto
  have k: "map (v h1) es = map (v h) es \<and> \<Union>(f h1 ` set es) = \<Union>(f h ` set es)"
    using deep_copier.keeps [OF dce foot h1(1)] .
  have h2: "grows h1 h2" "map (v h2) xs = map (v h1) es" "\<Union>(f h2 ` set xs) \<subseteq> {lim h1..<lim h2}"
  proof -
    have "\<Union>(f h1 ` set es) \<subseteq> {..<lim h1}" using k foot h1(3) by (metis lessThan_Suc subset_insertI2)
    from deep_copier.copied [OF dce this each]
    show "grows h1 h2" "map (v h2) xs = map (v h1) es" "\<Union>(f h2 ` set xs) \<subseteq> {lim h1..<lim h2}" by blast+
  qed
  have e: "map (v h3) xs = map (v h2) xs \<and> \<Union>(f h3 ` set xs) = \<Union>(f h2 ` set xs)"
    by (rule deep_copier.local [OF dce]) (use h1 h2(3) in \<open>auto simp: h3_def\<close>)
  show "grows h h3" using grows_store [of h h2 b d] grows_trans [OF h1(1) h2(1)] h1(2) by (simp add: h3_def)
  show "map (v h3) xs = map (v h) es" using e h2(2) k by simp
  show "b \<in> {lim h..<lim h3}" using h1 h2(1) by (auto simp: h3_def grows_def)
  show "\<Union>(f h3 ` set xs) \<subseteq> {lim h..<lim h3}" using e h2(3) h1(3) by (auto simp: h3_def)
  show "length xs = length es" using arg_cong [OF h2(2), of length] by simp
qed

definition slice_val :: "('x cell option \<Rightarrow> 'e list) \<Rightarrow> ('x heap \<Rightarrow> 'e \<Rightarrow> 'v) \<Rightarrow> 'x heap \<Rightarrow> slice option \<Rightarrow> 'v list option" where
  "slice_val rd v h p = map_option (\<lambda>s. map (v h) (elems rd h s)) p"

definition slice_foot :: "('x cell option \<Rightarrow> 'e list) \<Rightarrow> ('x heap \<Rightarrow> 'e \<Rightarrow> addr set) \<Rightarrow> 'x heap \<Rightarrow> slice option \<Rightarrow> addr set" where
  "slice_foot rd f h p = (case p of None \<Rightarrow> {} | Some s \<Rightarrow> insert (sl_addr s) (\<Union>(f h ` set (elems rd h s))))"

lemma deep_copier_slice:
  assumes dc: "deep_copier v f c" and rd: "\<And>es. rd (Some (mk es)) = es"
  shows "deep_copier (slice_val rd v) (slice_foot rd f) (copy_slice mk rd c)"
proof (rule deep_copier.intro)
  fix h h' :: "'a heap" and p p'
  assume foot: "slice_foot rd f h p \<subseteq> {..<lim h}" and run: "copy_slice mk rd c p h = (p', h')"
  show "grows h h' \<and> slice_val rd v h' p' = slice_val rd v h p \<and> slice_foot rd f h' p' \<subseteq> {lim h..<lim h'}"
  proof (cases p)
    case (Some s)
    with run obtain b h1 xs h2 where s: "alloc (mk []) h = (b, h1)" "copy_each c (elems rd h s) h1 = (xs, h2)"
      and p': "p' = Some \<lparr>sl_addr = b, sl_off = 0, sl_len = sl_len s\<rparr>" and h': "h' = store b (mk xs) h2"
      by (auto simp: copy_slice_def Let_def split: prod.splits)
    have "\<Union>(f h ` set (elems rd h s)) \<subseteq> {..<lim h}" using foot Some by (simp add: slice_foot_def)
    note a = copied_array [OF dc s this h']
    have "length (elems rd h s) \<le> sl_len s" by (simp add: elems_def)
    then have "elems rd h' (the p') = xs" using a(5) by (simp add: elems_def p' h' rd)
    then show ?thesis using a(1-4) Some p' by (simp add: slice_val_def slice_foot_def)
  qed (use run in \<open>auto simp: copy_slice_def slice_val_def slice_foot_def\<close>)
next
  fix h h1 :: "'a heap" and p
  assume same: "\<And>a. a \<in> slice_foot rd f h p \<Longrightarrow> cells h1 a = cells h a"
  show "slice_val rd v h1 p = slice_val rd v h p \<and> slice_foot rd f h1 p = slice_foot rd f h p"
  proof (cases p)
    case (Some s)
    then have "elems rd h1 s = elems rd h s" using same by (simp add: elems_def slice_foot_def)
    then show ?thesis using Some same deep_copier.local [OF deep_copier_each [OF dc], of h "elems rd h s" h1]
      by (simp add: slice_val_def slice_foot_def)
  qed (simp add: slice_val_def slice_foot_def)
qed

definition ptr_val :: "('x heap \<Rightarrow> 'x \<Rightarrow> 'v) \<Rightarrow> 'x heap \<Rightarrow> addr option \<Rightarrow> 'v list option" where
  "ptr_val v h p = map_option (\<lambda>a. map (v h) (take 1 (ext_elems (cells h a)))) p"

definition ptr_foot :: "('x heap \<Rightarrow> 'x \<Rightarrow> addr set) \<Rightarrow> 'x heap \<Rightarrow> addr option \<Rightarrow> addr set" where
  "ptr_foot f h p = (case p of None \<Rightarrow> {} | Some a \<Rightarrow> insert a (\<Union>(f h ` set (take 1 (ext_elems (cells h a))))))"

lemma deep_copier_ptr:
  assumes dc: "deep_copier v f c"
  shows "deep_copier (ptr_val v) (ptr_foot f) (copy_ptr c)"
proof (rule deep_copier.intro)
  fix h h' :: "'a heap" and p p'
  assume foot: "ptr_foot f h p \<subseteq> {..<lim h}" and run: "copy_ptr c p h = (p', h')"
  show "grows h h' \<and> ptr_val v h' p' = ptr_val v h p \<and> ptr_foot f h' p' \<subseteq> {lim h..<lim h'}"
  proof (cases p)
    case (Some s)
    with run obtain b h1 xs h2 where s: "alloc (ExtArr []) h = (b, h1)" "copy_each c (take 1 (ext_elems (cells h s))) h1 = (xs, h2)"
      and p': "p' = Some b" and h': "h' = store b (ExtArr xs) h2"
      by (auto simp: copy_ptr_def Let_def split: prod.splits)
    have "\<Union>(f h ` set (take 1 (ext_elems (cells h s)))) \<subseteq> {..<lim h}" using foot Some by (simp add: ptr_foot_def)
    note a = copied_array [OF dc s this h']
    have "take 1 (ext_elems (cells h' b)) = xs" using a(5) by (simp add: h')
    then show ?thesis using a(1-4) Some p' by (simp add: ptr_val_def ptr_foot_def)
  qed (use run in \<open>auto simp: copy_ptr_def ptr_val_def ptr_foot_def\<close>)
next
  fix h h1 :: "'a heap" and p
  assume same: "\<And>a. a \<in> ptr_foot f h p \<Longrightarrow> cells h1 a = cells h a"
  show "ptr_val v h1 p = ptr_val v h p \<and> ptr_foot f h1 p = ptr_foot f h p"
  proof (cases p)
    case (Some s)
    then have "cells h1 s = cells h s" using same by (simp add: ptr_foot_def)
    then show ?thesis
      using Some same deep_copier.local [OF deep_copier_each [OF dc], of h "take 1 (ext_elems (cells h s))" h1]
      by (simp add: ptr_val_def ptr_foot_def)
  qed (simp add: ptr_val_def ptr_foot_def)
qed

subsection \<open>Deep copies of the structs\<close>

text \<open>
  The value and the addresses of each struct; \<open>v\<close> and \<open>f\<close> are those of the structs of the API.
\<close>

definition meta_value :: "'x heap \<Rightarrow> meta_mem \<Rightarrow> map_val meta_rep" where
  "meta_value h m = \<lparr>m_Labels = map_val h (m_Labels m), m_Annotations = map_val h (m_Annotations m)\<rparr>"

definition meta_foot :: "'x heap \<Rightarrow> meta_mem \<Rightarrow> addr set" where
  "meta_foot h m = ptr_at h (m_Labels m) \<union> ptr_at h (m_Annotations m)"

definition container_value :: "('x heap \<Rightarrow> 'x \<Rightarrow> 'v) \<Rightarrow> 'x heap \<Rightarrow> 'x container_mem \<Rightarrow> 'v container_val" where
  "container_value v h c =
     \<lparr>cr_Image = cr_Image c, cr_ImagePullPolicy = cr_ImagePullPolicy c,
      cr_SecurityContext = ptr_val v h (cr_SecurityContext c), cr_EnvFrom = slice_val ext_elems v h (cr_EnvFrom c),
      cr_Env = slice_val ext_elems v h (cr_Env c), cr_Resources = v h (cr_Resources c),
      cr_VolumeMounts = slice_val ext_elems v h (cr_VolumeMounts c)\<rparr>"

definition container_foot :: "('x heap \<Rightarrow> 'x \<Rightarrow> addr set) \<Rightarrow> 'x heap \<Rightarrow> 'x container_mem \<Rightarrow> addr set" where
  "container_foot f h c =
     ptr_foot f h (cr_SecurityContext c) \<union> (slice_foot ext_elems f h (cr_EnvFrom c) \<union>
     (slice_foot ext_elems f h (cr_Env c) \<union> (f h (cr_Resources c) \<union> slice_foot ext_elems f h (cr_VolumeMounts c))))"

definition template_value :: "('x heap \<Rightarrow> 'x \<Rightarrow> 'v) \<Rightarrow> 'x heap \<Rightarrow> 'x template_mem \<Rightarrow> 'v template_val" where
  "template_value v h t =
     \<lparr>tr_ObjectMeta = meta_value h (tr_ObjectMeta t), tr_RunnerContainer = container_value v h (tr_RunnerContainer t),
      tr_ImagePullSecrets = strs_val h (tr_ImagePullSecrets t), tr_Volumes = slice_val ext_elems v h (tr_Volumes t),
      tr_NodeSelector = map_val h (tr_NodeSelector t), tr_ServiceAccountName = tr_ServiceAccountName t,
      tr_AutomountServiceAccountToken = bool_val h (tr_AutomountServiceAccountToken t),
      tr_Tolerations = slice_val ext_elems v h (tr_Tolerations t)\<rparr>"

definition template_foot :: "('x heap \<Rightarrow> 'x \<Rightarrow> addr set) \<Rightarrow> 'x heap \<Rightarrow> 'x template_mem \<Rightarrow> addr set" where
  "template_foot f h t =
     meta_foot h (tr_ObjectMeta t) \<union> (container_foot f h (tr_RunnerContainer t) \<union> (slice_at h (tr_ImagePullSecrets t) \<union>
     (slice_foot ext_elems f h (tr_Volumes t) \<union> (ptr_at h (tr_NodeSelector t) \<union>
     (ptr_at h (tr_AutomountServiceAccountToken t) \<union> slice_foot ext_elems f h (tr_Tolerations t))))))"

definition spec_value :: "('x heap \<Rightarrow> 'x \<Rightarrow> 'v) \<Rightarrow> 'x heap \<Rightarrow> 'x spec_mem \<Rightarrow> 'v spec_val" where
  "spec_value v h s =
     \<lparr>sr_Repository = sr_Repository s, sr_Organization = sr_Organization s,
      sr_CredentialSecretName = sr_CredentialSecretName s, sr_Replicas = sr_Replicas s,
      sr_MaxRunnerPods = sr_MaxRunnerPods s, sr_WorkVolume = ptr_val v h (sr_WorkVolume s),
      sr_SetupCommand = strs_val h (sr_SetupCommand s), sr_RecreateDeadline = sr_RecreateDeadline s,
      sr_Notification = sr_Notification s, sr_Template = template_value v h (sr_Template s),
      sr_DenyDisruption = sr_DenyDisruption s\<rparr>"

definition spec_foot :: "('x heap \<Rightarrow> 'x \<Rightarrow> addr set) \<Rightarrow> 'x heap \<Rightarrow> 'x spec_mem \<Rightarrow> addr set" where
  "spec_foot f h s =
     ptr_foot f h (sr_WorkVolume s) \<union> (slice_at h (sr_SetupCommand s) \<union> template_foot f h (sr_Template s))"

definition pool_value :: "('x heap \<Rightarrow> 'x \<Rightarrow> 'v) \<Rightarrow> 'x heap \<Rightarrow> 'x pool_mem \<Rightarrow> 'v pool_val" where
  "pool_value v h p =
     \<lparr>pr_TypeMeta = pr_TypeMeta p, pr_ObjectMeta = v h (pr_ObjectMeta p), pr_Spec = spec_value v h (pr_Spec p),
      pr_Status = pr_Status p\<rparr>"

definition pool_foot :: "('x heap \<Rightarrow> 'x \<Rightarrow> addr set) \<Rightarrow> 'x heap \<Rightarrow> 'x pool_mem \<Rightarrow> addr set" where
  "pool_foot f h p = f h (pr_ObjectMeta p) \<union> spec_foot f h (pr_Spec p)"

definition list_value :: "('x heap \<Rightarrow> 'x \<Rightarrow> 'v) \<Rightarrow> 'x heap \<Rightarrow> 'x list_mem \<Rightarrow> 'v list_val" where
  "list_value v h l =
     \<lparr>lr_TypeMeta = lr_TypeMeta l, lr_ListMeta = v h (lr_ListMeta l),
      lr_Items = slice_val pool_elems (pool_value v) h (lr_Items l)\<rparr>"

definition list_foot :: "('x heap \<Rightarrow> 'x \<Rightarrow> addr set) \<Rightarrow> 'x heap \<Rightarrow> 'x list_mem \<Rightarrow> addr set" where
  "list_foot f h l = f h (lr_ListMeta l) \<union> slice_foot pool_elems (pool_foot f) h (lr_Items l)"

interpretation metas: deep_copier meta_value meta_foot ObjectMeta_DeepCopyInto
  by (rule deep_copier_struct [OF deep_copier_pair [OF maps.deep_copier_axioms maps.deep_copier_axioms],
        where parts = "\<lambda>m. (m_Labels m, m_Annotations m)"
          and put = "\<lambda>(ls, as) m. m\<lparr>m_Labels := ls, m_Annotations := as\<rparr>"
          and mk = "\<lambda>m (ls, as). \<lparr>m_Labels = ls, m_Annotations = as\<rparr>"])
    (auto simp: ObjectMeta_DeepCopyInto_def copy_pair_def meta_value_def meta_foot_def Let_def fun_eq_iff split: prod.splits)

text \<open>The copies of the structs of the API are deep copies: what the package relies on.\<close>

locale external_copies = deep_copier x_val x_foot ext
  for x_val :: "'x heap \<Rightarrow> 'x \<Rightarrow> 'v" and x_foot :: "'x heap \<Rightarrow> 'x \<Rightarrow> addr set" and ext :: "('x, 'x) copier"
begin

lemmas ext_copier = deep_copier_axioms

lemmas slice_copier = deep_copier_slice [OF ext_copier, of ext_elems ExtArr, simplified]

end

sublocale external_copies \<subseteq> containers: deep_copier "container_value x_val" "container_foot x_foot" "RunnerContainerSpec_DeepCopyInto ext"
  by (rule deep_copier_struct [OF deep_copier_pair [OF deep_copier_ptr [OF ext_copier]
          deep_copier_pair [OF slice_copier deep_copier_pair [OF slice_copier deep_copier_pair [OF ext_copier slice_copier]]]],
        where parts = "\<lambda>c. (cr_SecurityContext c, cr_EnvFrom c, cr_Env c, cr_Resources c, cr_VolumeMounts c)"
          and put = "\<lambda>(sc, ef, ev, rs, vm) c. c\<lparr>cr_SecurityContext := sc, cr_EnvFrom := ef, cr_Env := ev,
                       cr_Resources := rs, cr_VolumeMounts := vm\<rparr>"
          and mk = "\<lambda>c (sc, ef, ev, rs, vm). \<lparr>cr_Image = cr_Image c, cr_ImagePullPolicy = cr_ImagePullPolicy c,
                      cr_SecurityContext = sc, cr_EnvFrom = ef, cr_Env = ev, cr_Resources = rs, cr_VolumeMounts = vm\<rparr>"])
    (auto simp: RunnerContainerSpec_DeepCopyInto_def copy_pair_def container_value_def container_foot_def Let_def fun_eq_iff
       split: prod.splits)

sublocale external_copies \<subseteq> templates: deep_copier "template_value x_val" "template_foot x_foot" "RunnerPodTemplateSpec_DeepCopyInto ext"
  by (rule deep_copier_struct [OF deep_copier_pair [OF metas.deep_copier_axioms
          deep_copier_pair [OF containers.deep_copier_axioms deep_copier_pair [OF strs.deep_copier_axioms
          deep_copier_pair [OF slice_copier deep_copier_pair [OF maps.deep_copier_axioms
          deep_copier_pair [OF bools.deep_copier_axioms slice_copier]]]]]],
        where parts = "\<lambda>t. (tr_ObjectMeta t, tr_RunnerContainer t, tr_ImagePullSecrets t, tr_Volumes t, tr_NodeSelector t,
                         tr_AutomountServiceAccountToken t, tr_Tolerations t)"
          and put = "\<lambda>(om, rc, ip, vs, ns, am, tl) t. t\<lparr>tr_ObjectMeta := om, tr_RunnerContainer := rc,
                       tr_ImagePullSecrets := ip, tr_Volumes := vs, tr_NodeSelector := ns,
                       tr_AutomountServiceAccountToken := am, tr_Tolerations := tl\<rparr>"
          and mk = "\<lambda>t (om, rc, ip, vs, ns, am, tl). \<lparr>tr_ObjectMeta = om, tr_RunnerContainer = rc,
                      tr_ImagePullSecrets = ip, tr_Volumes = vs, tr_NodeSelector = ns,
                      tr_ServiceAccountName = tr_ServiceAccountName t, tr_AutomountServiceAccountToken = am, tr_Tolerations = tl\<rparr>"])
    (auto simp: RunnerPodTemplateSpec_DeepCopyInto_def copy_pair_def template_value_def template_foot_def Let_def fun_eq_iff
       split: prod.splits)

sublocale external_copies \<subseteq> specs: deep_copier "spec_value x_val" "spec_foot x_foot" "RunnerPoolSpec_DeepCopyInto ext"
  by (rule deep_copier_struct [OF deep_copier_pair [OF deep_copier_ptr [OF ext_copier]
          deep_copier_pair [OF strs.deep_copier_axioms templates.deep_copier_axioms]],
        where parts = "\<lambda>s. (sr_WorkVolume s, sr_SetupCommand s, sr_Template s)"
          and put = "\<lambda>(wv, cmd, tmpl) s. s\<lparr>sr_WorkVolume := wv, sr_SetupCommand := cmd, sr_Template := tmpl\<rparr>"
          and mk = "\<lambda>s (wv, cmd, tmpl). \<lparr>sr_Repository = sr_Repository s, sr_Organization = sr_Organization s,
                      sr_CredentialSecretName = sr_CredentialSecretName s, sr_Replicas = sr_Replicas s,
                      sr_MaxRunnerPods = sr_MaxRunnerPods s, sr_WorkVolume = wv, sr_SetupCommand = cmd,
                      sr_RecreateDeadline = sr_RecreateDeadline s, sr_Notification = sr_Notification s,
                      sr_Template = tmpl, sr_DenyDisruption = sr_DenyDisruption s\<rparr>"])
    (auto simp: RunnerPoolSpec_DeepCopyInto_def copy_pair_def spec_value_def spec_foot_def Let_def fun_eq_iff split: prod.splits)

sublocale external_copies \<subseteq> pools: deep_copier "pool_value x_val" "pool_foot x_foot" "RunnerPool_DeepCopyInto ext"
  by (rule deep_copier_struct [OF deep_copier_pair [OF ext_copier specs.deep_copier_axioms],
        where parts = "\<lambda>p. (pr_ObjectMeta p, pr_Spec p)" and put = "\<lambda>(om, sp) p. p\<lparr>pr_ObjectMeta := om, pr_Spec := sp\<rparr>"
          and mk = "\<lambda>p (om, sp). \<lparr>pr_TypeMeta = pr_TypeMeta p, pr_ObjectMeta = om, pr_Spec = sp, pr_Status = pr_Status p\<rparr>"])
    (auto simp: RunnerPool_DeepCopyInto_def copy_pair_def pool_value_def pool_foot_def Let_def fun_eq_iff split: prod.splits)

sublocale external_copies \<subseteq> pool_lists: deep_copier "list_value x_val" "list_foot x_foot" "RunnerPoolList_DeepCopyInto ext"
  by (rule deep_copier_struct [OF deep_copier_pair [OF ext_copier
          deep_copier_slice [OF pools.deep_copier_axioms, of pool_elems PoolArr, simplified]],
        where parts = "\<lambda>l. (lr_ListMeta l, lr_Items l)" and put = "\<lambda>(lm, is) l. l\<lparr>lr_ListMeta := lm, lr_Items := is\<rparr>"
          and mk = "\<lambda>l (lm, is). \<lparr>lr_TypeMeta = lr_TypeMeta l, lr_ListMeta = lm, lr_Items = is\<rparr>"])
    (auto simp: RunnerPoolList_DeepCopyInto_def copy_pair_def list_value_def list_foot_def Let_def fun_eq_iff split: prod.splits)

subsection \<open>Pointers to structs of the package\<close>

definition new_val :: "('x cell option \<Rightarrow> 'e option) \<Rightarrow> ('x heap \<Rightarrow> 'e \<Rightarrow> 'v) \<Rightarrow> 'x heap \<Rightarrow> addr option \<Rightarrow> 'v option" where
  "new_val get v h p = Option.bind p (\<lambda>a. map_option (v h) (get (cells h a)))"

definition new_foot :: "('x cell option \<Rightarrow> 'e option) \<Rightarrow> ('x heap \<Rightarrow> 'e \<Rightarrow> addr set) \<Rightarrow> 'x heap \<Rightarrow> addr option \<Rightarrow> addr set" where
  "new_foot get f h p = (case p of None \<Rightarrow> {} | Some a \<Rightarrow> insert a (\<Union>(f h ` set_option (get (cells h a)))))"

lemma deep_copier_new:
  assumes dc: "deep_copier v f c" and get: "\<And>e. get (Some (mk e)) = Some e"
  shows "deep_copier (new_val get v) (new_foot get f) (deep_copy_new mk get c)"
proof (rule deep_copier.intro)
  fix h h' :: "'a heap" and p p'
  assume foot: "new_foot get f h p \<subseteq> {..<lim h}" and run: "deep_copy_new mk get c p h = (p', h')"
  show "grows h h' \<and> new_val get v h' p' = new_val get v h p \<and> new_foot get f h' p' \<subseteq> {lim h..<lim h'}"
  proof (cases "Option.bind p (\<lambda>a. get (cells h a))")
    case None
    then show ?thesis using run
      by (auto simp: deep_copy_new_def new_val_def new_foot_def bind_eq_None_conv split: option.splits)
  next
    case (Some e)
    then obtain a where a: "p = Some a" "get (cells h a) = Some e" by (auto simp: bind_eq_Some_conv)
    with run obtain b h1 e' h2 where s: "alloc (mk e) h = (b, h1)" "c e h1 = (e', h2)"
      and p': "p' = Some b" and h': "h' = store b (mk e') h2"
      by (auto simp: deep_copy_new_def Let_def split: prod.splits)
    have "copy_each c [e] h1 = ([e'], h2)" "\<Union>(f h ` set [e]) \<subseteq> {..<lim h}" using s(2) foot a by (simp_all add: new_foot_def)
    note c = copied_array [OF dc s(1) this h']
    show ?thesis using c(1-4) a by (simp add: new_val_def new_foot_def p' h' get)
  qed
next
  fix h h1 :: "'a heap" and p
  assume same: "\<And>a. a \<in> new_foot get f h p \<Longrightarrow> cells h1 a = cells h a"
  show "new_val get v h1 p = new_val get v h p \<and> new_foot get f h1 p = new_foot get f h p"
  proof (cases p)
    case (Some a)
    then have "cells h1 a = cells h a" using same by (simp add: new_foot_def)
    then show ?thesis using Some same deep_copier.local [OF dc, of h "the (get (cells h a))" h1]
      by (cases "get (cells h a)") (simp_all add: new_val_def new_foot_def)
  qed (simp add: new_val_def new_foot_def)
qed

context external_copies
begin

lemmas new_pool = deep_copier_new [OF pools.deep_copier_axioms, of the_pool "\<lambda>p. PoolArr [p]", simplified, folded RunnerPool_DeepCopy_def]

lemmas new_list = deep_copier_new [OF pool_lists.deep_copier_axioms, of the_list ListCell, simplified, folded RunnerPoolList_DeepCopy_def]

end

text \<open>The remaining types hold no addresses, or addresses of maps only.\<close>

interpretation slack_configs: deep_copier "\<lambda>h x. x" "\<lambda>h x. {}" SlackConfig_DeepCopyInto
  using deep_copier_plain by (simp add: SlackConfig_DeepCopyInto_def [abs_def])

interpretation notification_configs: deep_copier "\<lambda>h x. x" "\<lambda>h x. {}" NotificationConfig_DeepCopyInto
  using deep_copier_plain by (simp add: NotificationConfig_DeepCopyInto_def [abs_def])

interpretation statuses: deep_copier "\<lambda>h x. x" "\<lambda>h x. {}" RunnerPoolStatus_DeepCopyInto
  using deep_copier_plain by (simp add: RunnerPoolStatus_DeepCopyInto_def [abs_def])

text \<open>The laws can hold: structs of the API that hold a slice of strings, copied like \<open>SetupCommand\<close>.\<close>

interpretation string_structs: external_copies strs_val slice_at copy_strs
  by (rule external_copies.intro) (rule strs.deep_copier_axioms)

subsection \<open>The group\<close>

text \<open>\<open>groupversion\_info.go\<close>, and the kinds that \<open>init\<close> registers.\<close>

definition GroupVersion :: "string \<times> string" where
  "GroupVersion = (''meows.cybozu.com'', ''v1alpha1'')"

definition registered_kinds :: "((string \<times> string) \<times> string) list" where
  "registered_kinds = [(GroupVersion, ''RunnerPool''), (GroupVersion, ''RunnerPoolList'')]"

text \<open>The finalizer and the annotations and labels of the controller's own are names in the group.\<close>

lemma names_in_group:
  "hasPrefix RunnerPoolFinalizer (fst GroupVersion @ ''/'')" "hasPrefix RunnerPodName (fst GroupVersion @ ''/'')"
  "hasPrefix RunnerSecretExpiresAtAnnotationKey (fst GroupVersion @ ''/'')"
  by (simp_all add: GroupVersion_def RunnerPoolFinalizer_def RunnerPodName_def RunnerSecretExpiresAtAnnotationKey_def hasPrefix_def)

subsection \<open>A copied pool shares nothing with the original\<close>

lemma DeepCopyObject_simps:
  "RunnerPool_DeepCopyObject ext p h = RunnerPool_DeepCopy ext p h"
  "RunnerPoolList_DeepCopyObject ext p h = RunnerPoolList_DeepCopy ext p h"
  by (auto simp: RunnerPool_DeepCopyObject_def RunnerPoolList_DeepCopyObject_def split: prod.splits option.splits)

text \<open>
  C31. \<open>DeepCopy\<close> of a pool, with the structs of the Kubernetes API copied deeply by their own package: the copy
  is a new pool worth what the original is worth, no address reachable from the one is reachable from the
  other, and no memory that was there before is changed. Hence whoever then writes to the original or anything
  else but the copy leaves the copy as it is, and whoever writes to the copy or to later memory leaves the
  original as it is.
\<close>

theorem pool_copy_independent:
  assumes "external_copies v f ext" and "cells h a = Some (PoolArr [p])" and "insert a (pool_foot f h p) \<subseteq> {..<lim h}"
    and "RunnerPool_DeepCopyObject ext (Some a) h = (c, h')"
  shows "\<exists>b q. c = Some b \<and> cells h' b = Some (PoolArr [q]) \<and> pool_value v h' q = pool_value v h p \<and>
     insert b (pool_foot f h' q) \<subseteq> {lim h..<lim h'} \<and> insert b (pool_foot f h' q) \<inter> insert a (pool_foot f h' p) = {} \<and>
     (\<forall>x<lim h. cells h' x = cells h x) \<and>
     (\<forall>h1. (\<forall>x\<ge>lim h. cells h1 x = cells h' x) \<longrightarrow> cells h1 b = Some (PoolArr [q]) \<and> pool_value v h1 q = pool_value v h p) \<and>
     (\<forall>h1. (\<forall>x<lim h. cells h1 x = cells h' x) \<longrightarrow> cells h1 a = Some (PoolArr [p]) \<and> pool_value v h1 p = pool_value v h p)"
proof -
  note pool = external_copies.new_pool [OF assms(1)]
  have foot: "new_foot the_pool (pool_foot f) h (Some a) \<subseteq> {..<lim h}" using assms(2,3) by (simp add: new_foot_def)
  have run: "RunnerPool_DeepCopy ext (Some a) h = (c, h')" using assms(4) by (simp add: DeepCopyObject_simps)
  note cp = deep_copier.copied [OF pool foot run] and ind = deep_copier.independent [OF pool foot run]
  obtain b q where b: "c = Some b" "cells h' b = Some (PoolArr [q])"
    using run assms(2) by (auto simp: RunnerPool_DeepCopy_def deep_copy_new_def Let_def split: prod.splits)
  have new: "lim h \<le> b" "insert b (pool_foot f h' q) \<subseteq> {lim h..<lim h'}" "pool_value v h' q = pool_value v h p"
    using cp b assms(2) by (auto simp: new_foot_def new_val_def)
  have same: "\<forall>x<lim h. cells h' x = cells h x" using cp by (simp add: grows_def)
  have old: "a < lim h" "cells h' a = Some (PoolArr [p])" using assms(2,3) same by simp_all
  have disjoint: "insert b (pool_foot f h' q) \<inter> insert a (pool_foot f h' p) = {}"
    using ind(1) b old(2) by (simp add: new_foot_def)
  have copy: "cells h1 b = Some (PoolArr [q]) \<and> pool_value v h1 q = pool_value v h p" if "\<forall>x\<ge>lim h. cells h1 x = cells h' x" for h1
    using ind(3) [of h1] that b assms(2) new(1) by (simp add: new_val_def)
  have orig: "cells h1 a = Some (PoolArr [p]) \<and> pool_value v h1 p = pool_value v h p" if "\<forall>x<lim h. cells h1 x = cells h' x" for h1
    using ind(2) [of h1] that assms(2) old by (simp add: new_val_def)
  show ?thesis using b new disjoint same copy orig by blast
qed

text \<open>An instance: a pool with labels for its pods, a setup command, a volume and two environment variables.\<close>

definition some_pool :: "slice option pool_mem" where
  "some_pool =
     \<lparr>pr_TypeMeta = (''RunnerPool'', ''v1''), pr_ObjectMeta = Some \<lparr>sl_addr = 4, sl_off = 0, sl_len = 1\<rparr>,
      pr_Spec = \<lparr>sr_Repository = ''o/r'', sr_Organization = [], sr_CredentialSecretName = [], sr_Replicas = 1,
        sr_MaxRunnerPods = 2, sr_WorkVolume = Some 3,
        sr_SetupCommand = Some \<lparr>sl_addr = 2, sl_off = 0, sl_len = 1\<rparr>, sr_RecreateDeadline = ''24h'',
        sr_Notification = \<lparr>Slack = \<lparr>Enable = False, Channel = [], AgentServiceName = []\<rparr>, ExtendDuration = []\<rparr>,
        sr_Template = \<lparr>tr_ObjectMeta = \<lparr>m_Labels = Some 1, m_Annotations = None\<rparr>,
          tr_RunnerContainer = \<lparr>cr_Image = ''i'', cr_ImagePullPolicy = [], cr_SecurityContext = None, cr_EnvFrom = None,
            cr_Env = Some \<lparr>sl_addr = 5, sl_off = 1, sl_len = 2\<rparr>, cr_Resources = None, cr_VolumeMounts = None\<rparr>,
          tr_ImagePullSecrets = None, tr_Volumes = None, tr_NodeSelector = Some 1, tr_ServiceAccountName = [],
          tr_AutomountServiceAccountToken = Some 6, tr_Tolerations = None\<rparr>,
        sr_DenyDisruption = False\<rparr>,
      pr_Status = \<lparr>st_Bound = True\<rparr>\<rparr>"

definition some_heap :: "slice option heap" where
  "some_heap =
     \<lparr>lim = 7, cells = [0 \<mapsto> PoolArr [some_pool], 1 \<mapsto> MapCell (DAList.update ''team'' ''x'' DAList.empty), 2 \<mapsto> StrArr [''ls''],
        3 \<mapsto> ExtArr [None], 4 \<mapsto> StrArr [''name''],
        5 \<mapsto> ExtArr [None, Some \<lparr>sl_addr = 4, sl_off = 0, sl_len = 1\<rparr>, None], 6 \<mapsto> BoolCell True]\<rparr>"

theorem pool_copy_independent_witness:
  "\<exists>b q h'. RunnerPool_DeepCopyObject copy_strs (Some 0) some_heap = (Some b, h') \<and> cells h' b = Some (PoolArr [q]) \<and>
     pool_value strs_val h' q = pool_value strs_val some_heap some_pool \<and>
     insert b (pool_foot slice_at h' q) \<subseteq> {7..<lim h'}"
proof -
  obtain c h' where run: "RunnerPool_DeepCopyObject copy_strs (Some 0) some_heap = (c, h')" by fastforce
  have at: "cells some_heap 0 = Some (PoolArr [some_pool])" by (simp add: some_heap_def)
  have foot: "insert 0 (pool_foot slice_at some_heap some_pool) \<subseteq> {..<lim some_heap}"
    by (simp add: pool_foot_def spec_foot_def template_foot_def container_foot_def meta_foot_def slice_at_def ptr_at_def
      ptr_foot_def slice_foot_def elems_def some_pool_def some_heap_def)
  have "lim some_heap = 7" by (simp add: some_heap_def)
  with pool_copy_independent [OF string_structs.external_copies_axioms at foot run] run show ?thesis
    by (elim exE conjE) (intro exI conjI; simp only:)
qed

end
