(* ===== verification/Manage_Notify.thy ===== *)
theory Manage_Notify
  imports Manage_Safety
begin

section \<open>How often a finished job is notified\<close>

text \<open>
  A round notifies Slack of a job that finished after the previous round: it compares the finish time that
  the pod reports with the time at which the previous round began. Here the rounds of a process are
  observed from outside: \<open>noticed io\<close> is the world \<open>io\<close> with a log of the beginnings of the rounds, the answers
  of the pods and the requests to the Slack agent. The theorems count the requests about one pod over any
  number of rounds.
\<close>

subsection \<open>The log\<close>

datatype nevent =
    NRound time
  | NStatus string "client_error + status"
  | NPost http_request

definition noticed_client :: "'w client \<Rightarrow> ('w \<times> nevent list) client" where
  "noticed_client c =
     \<lparr>cl_PutDeletionTime = (\<lambda>ip t (w, l). case cl_PutDeletionTime c ip t w of (r, w') \<Rightarrow> (r, w', l)),
      cl_GetStatus = (\<lambda>ip (w, l). case cl_GetStatus c ip w of (r, w') \<Rightarrow> (r, w', l @ [NStatus ip r]))\<rparr>"

definition noticed :: "'w manager_io \<Rightarrow> ('w \<times> nevent list) manager_io" where
  "noticed io =
     \<lparr>m_ListPods = (\<lambda>ns sel (w, l). case m_ListPods io ns sel w of (r, w') \<Rightarrow> (r, w', l)),
      m_DeletePod = (\<lambda>po (w, l). case m_DeletePod io po w of (r, w') \<Rightarrow> (r, w', l)),
      m_UpdatePod = (\<lambda>po (w, l). case m_UpdatePod io po w of (r, w') \<Rightarrow> (r, w', l)),
      m_ApplyPDB = (\<lambda>d f (w, l). case m_ApplyPDB io d f w of (r, w') \<Rightarrow> (r, w', l)),
      m_lib = m_lib io, m_urls = m_urls io,
      m_net = (\<lambda>req (w, l). case m_net io req w of (r, w') \<Rightarrow> (r, w', l @ [NPost req])),
      m_runner = noticed_client (m_runner io),
      m_now = (\<lambda>(w, l). case m_now io w of (t, w') \<Rightarrow> (t, w', l @ [NRound t]))\<rparr>"

definition noticed_github :: "'w gh_client \<Rightarrow> ('w \<times> nevent list) gh_client" where
  "noticed_github gh =
     \<lparr>ghc_CreateRegistrationToken = (\<lambda>ow r (w, l). case ghc_CreateRegistrationToken gh ow r w of (x, w') \<Rightarrow> (x, w', l)),
      ghc_ListRunners = (\<lambda>ow r ls (w, l). map_option (\<lambda>(x, w'). (x, w', l)) (ghc_ListRunners gh ow r ls w)),
      ghc_RemoveRunner = (\<lambda>ow r i (w, l). case ghc_RemoveRunner gh ow r i w of (x, w') \<Rightarrow> (x, w', l))\<rparr>"

lemma noticed_simps:
  "m_lib (noticed io) = m_lib io" "m_urls (noticed io) = m_urls io"
  "m_ListPods (noticed io) ns sel (w, l) = (fst (m_ListPods io ns sel w), snd (m_ListPods io ns sel w), l)"
  "m_DeletePod (noticed io) po (w, l) = (fst (m_DeletePod io po w), snd (m_DeletePod io po w), l)"
  "m_UpdatePod (noticed io) po (w, l) = (fst (m_UpdatePod io po w), snd (m_UpdatePod io po w), l)"
  "m_ApplyPDB (noticed io) d f (w, l) = (fst (m_ApplyPDB io d f w), snd (m_ApplyPDB io d f w), l)"
  "m_net (noticed io) req (w, l) = (fst (m_net io req w), snd (m_net io req w), l @ [NPost req])"
  "cl_GetStatus (m_runner (noticed io)) ip (w, l) =
     (fst (cl_GetStatus (m_runner io) ip w), snd (cl_GetStatus (m_runner io) ip w),
      l @ [NStatus ip (fst (cl_GetStatus (m_runner io) ip w))])"
  "cl_PutDeletionTime (m_runner (noticed io)) ip t (w, l) =
     (fst (cl_PutDeletionTime (m_runner io) ip t w), snd (cl_PutDeletionTime (m_runner io) ip t w), l)"
  "m_now (noticed io) (w, l) = (fst (m_now io w), snd (m_now io w), l @ [NRound (fst (m_now io w))])"
  by (simp_all add: noticed_def noticed_client_def case_prod_beta)

subsection \<open>Counting\<close>

definition pod_id :: "kpod \<Rightarrow> string" where
  "pod_id po = Namespace (po_meta po) @ ''/'' @ Name (po_meta po)"

text \<open>The requests about the pod \<open>x\<close>: what the agent would read in the body.\<close>

definition about :: "string \<Rightarrow> http_request \<Rightarrow> bool" where
  "about x req = (case decode_payload (req_body req) of Some (Some pl) \<Rightarrow> Pod pl = x | _ \<Rightarrow> False)"

fun posts :: "string \<Rightarrow> nevent list \<Rightarrow> nat" where
  "posts x [] = 0"
| "posts x (NPost req # l) = (if about x req then Suc (posts x l) else posts x l)"
| "posts x (_ # l) = posts x l"

text \<open>A status after the previous check, and the answers of the pod at \<open>ip\<close> in the current round.\<close>

definition finished_after :: "time \<Rightarrow> status \<Rightarrow> bool" where
  "finished_after t st \<longleftrightarrow>
     State st = RunnerPodStateDebugging \<and> (case FinishedAt st of None \<Rightarrow> False | Some f \<Rightarrow> t < f)"

fun answers :: "string \<Rightarrow> nevent list \<Rightarrow> status list" where
  "answers ip [] = []"
| "answers ip (NRound t # l) = []"
| "answers ip (NStatus i (Inr st) # l) = (if i = ip then st # answers ip l else answers ip l)"
| "answers ip (_ # l) = answers ip l"

text \<open>The rounds of a log: the time of the previous check, that of this one, and the answers of the pod.\<close>

fun rounds :: "string \<Rightarrow> time \<Rightarrow> nevent list \<Rightarrow> (time \<times> time \<times> status list) list" where
  "rounds ip lct [] = []"
| "rounds ip lct (NRound t # l) = (lct, t, answers ip l) # rounds ip t l"
| "rounds ip lct (_ # l) = rounds ip lct l"

definition due_in :: "time \<times> time \<times> status list \<Rightarrow> nat" where
  "due_in = (\<lambda>(lct, now, as). length (filter (finished_after lct) as))"

lemma posts_append [simp]: "posts x (l @ k) = posts x l + posts x k"
  by (induction x l rule: posts.induct) simp_all

text \<open>What a round adds to the log after its beginning.\<close>

definition unrounded :: "nevent list \<Rightarrow> bool" where
  "unrounded l \<longleftrightarrow> (\<forall>t. NRound t \<notin> set l)"

lemma unrounded_simps [simp]:
  "unrounded []" "unrounded (NStatus ip r # l) = unrounded l" "unrounded (NPost q # l) = unrounded l"
  "unrounded (l @ k) \<longleftrightarrow> unrounded l \<and> unrounded k" "\<not> unrounded (NRound t # l)"
  by (auto simp: unrounded_def)

lemma answers_append: "unrounded l \<Longrightarrow> answers ip (l @ k) = answers ip l @ answers ip k"
  by (induction ip l rule: answers.induct) simp_all

lemma rounds_append: "unrounded l \<Longrightarrow> rounds ip t (l @ k) = rounds ip t k"
  by (induction ip t l rule: rounds.induct) simp_all

subsection \<open>One round\<close>

lemma PostResult_noticed:
  assumes "up_Resolve (m_urls io) url resultAPIPath = Inr u" and "ul = m_urls io"
  shows "\<exists>req. snd (snd (PostResult ul (m_net (noticed io)) url ch res ext ns pod info (w, l))) = l @ [NPost req] \<and>
    (about x req \<longleftrightarrow> x = ns @ ''/'' @ pod)"
proof -
  let ?req = "\<lparr>req_method = MethodPost, req_url = u, req_content_type = appjson,
    req_body = print_json (payload_json ((makePayload res ns pod info)\<lparr>pl_Channel := ch, pl_Extend := ext\<rparr>))\<rparr>"
  have "Pod (makePayload res ns pod info) = ns @ ''/'' @ pod" by (simp add: makePayload_def Let_def split: option.splits)
  then have "about x ?req \<longleftrightarrow> x = ns @ ''/'' @ pod" by (auto simp: about_def decode_payload_print)
  moreover have "snd (snd (PostResult ul (m_net (noticed io)) url ch res ext ns pod info (w, l))) = l @ [NPost ?req]"
    using assms by (auto simp: PostResult_def noticed_simps Let_def split: sum.splits if_splits prod.splits)
  ultimately show ?thesis by blast
qed

lemma notify_noticed:
  assumes "notify (noticed io) p lct po st (w, l) = Returns (w', l')" and "State st = RunnerPodStateDebugging"
    and "p_needSlackNotification p" and "up_Resolve (m_urls io) (p_serverURL p) resultAPIPath = Inr u"
  shows "\<exists>k. l' = l @ k \<and> unrounded k \<and> answers ip k = [] \<and>
    posts x k = (if finished_after lct st \<and> pod_id po = x then 1 else 0)"
proof (cases "finished_after lct st")
  case True
  then obtain f where f: "FinishedAt st = Some f" "time_after f lct"
    by (auto simp: finished_after_def time_after_def split: option.splits)
  let ?ch = "if SlackChannel st \<noteq> [] then SlackChannel st else p_slackChannel p"
  let ?r = "PostResult (m_urls io) (m_net (noticed io)) (p_serverURL p) ?ch (Result st) (needExtend p st)
    (Namespace (po_meta po)) (Name (po_meta po)) (JobInfo st) (w, l)"
  have "snd ?r = (w', l')" using assms(1,3) f by (simp add: notify_def Let_def noticed_simps)
  then have l': "l' = snd (snd ?r)" by simp
  obtain req where "snd (snd ?r) = l @ [NPost req]" "about x req \<longleftrightarrow> x = pod_id po"
    unfolding pod_id_def using PostResult_noticed [OF assms(4) refl] by blast
  then show ?thesis using True l' by (auto intro!: exI [of _ "[NPost req]"])
next
  case False
  with assms have "l' = l"
    by (auto simp: notify_def finished_after_def time_after_def split: option.splits if_splits)
  then show ?thesis using False by (auto intro!: exI [of _ "[]"])
qed

lemma maintain_debugging_noticed:
  assumes "maintain_debugging (noticed io) p now lct po st (w, l) = Returns (d, w', l')"
    and "State st = RunnerPodStateDebugging"
    and "p_needSlackNotification p" and "up_Resolve (m_urls io) (p_serverURL p) resultAPIPath = Inr u"
  shows "\<exists>k. l' = l @ k \<and> unrounded k \<and> answers ip k = [] \<and>
    posts x k = (if finished_after lct st \<and> pod_id po = x then 1 else 0)"
proof -
  obtain w1 l1 where n: "notify (noticed io) p lct po st (w, l) = Returns (w1, l1)"
    using assms(1) by (auto simp: maintain_debugging_def split: outcome.splits)
  have "l' = l1" using assms(1) n
    by (auto simp: maintain_debugging_def noticed_simps split: outcome.splits bool.splits option.splits if_splits)
  with notify_noticed [OF n assms(2-4)] show ?thesis by simp
qed

lemma protect_noticed: "protect (noticed io) p po (w, l) = Returns (c, po', w', l') \<Longrightarrow> l' = l"
  by (auto simp: protect_def noticed_simps split: if_splits option.splits prod.splits sum.splits)

lemma unlink_noticed: "unlink (noticed io) po n (w, l) = (po', n', w', l') \<Longrightarrow> l' = l"
  by (auto simp: unlink_def noticed_simps Let_def split: if_splits prod.splits sum.splits)

text \<open>Every answer of the pod that finished after the last check comes with a request, and no other does.\<close>

definition notices :: "string \<Rightarrow> string \<Rightarrow> time \<Rightarrow> nevent list \<Rightarrow> bool" where
  "notices ip x lct k \<longleftrightarrow> unrounded k \<and> posts x k = length (filter (finished_after lct) (answers ip k))"

lemma notices_append: "notices ip x lct k \<Longrightarrow> notices ip x lct k' \<Longrightarrow> notices ip x lct (k @ k')"
  by (simp add: notices_def answers_append)

lemma maintain_pod_noticed:
  assumes run: "maintain_pod (noticed io) p now lct rl po n (w, l) = Returns (po', n', w', l')"
    and slack: "p_needSlackNotification p" "up_Resolve (m_urls io) (p_serverURL p) resultAPIPath = Inr u"
    and ip: "po_Phase po = PodRunning \<Longrightarrow> po_PodIP po = ip \<longleftrightarrow> pod_id po = x"
  shows "\<exists>k. l' = l @ k \<and> notices ip x lct k"
proof (cases "po_Phase po = PodRunning")
  case False
  with run show ?thesis by (auto simp: maintain_pod_def notices_def intro!: exI [of _ "[]"])
next
  case ph: True
  let ?r = "cl_GetStatus (m_runner io) (po_PodIP po) w" and ?e = "NStatus (po_PodIP po)"
  show ?thesis
  proof (cases "fst ?r")
    case (Inl e)
    with run ph show ?thesis
      by (auto simp: maintain_pod_def noticed_simps notices_def intro!: exI [of _ "[NStatus (po_PodIP po) (Inl e)]"])
  next
    case (Inr st)
    let ?l = "l @ [NStatus (po_PodIP po) (Inr st)]"
    have other: ?thesis if "l' = ?l" "State st \<noteq> RunnerPodStateDebugging"
      using that by (auto simp: notices_def finished_after_def intro!: exI [of _ "[NStatus (po_PodIP po) (Inr st)]"])
    consider (stale) "State st = RunnerPodStateStale" | (debug) "State st = RunnerPodStateDebugging"
      | (live) "State st \<noteq> RunnerPodStateStale" "State st \<noteq> RunnerPodStateDebugging" by blast
    then show ?thesis
    proof cases
      case stale
      with run ph Inr have "l' = ?l" by (auto simp: maintain_pod_def noticed_simps)
      with stale show ?thesis by (intro other) (simp_all add: RunnerPodStateStale_def RunnerPodStateDebugging_def)
    next
      case live
      with run ph Inr have "l' = ?l"
        by (auto simp: maintain_pod_def noticed_simps Let_def dest!: protect_noticed unlink_noticed
            split: if_splits outcome.splits bool.splits prod.splits)
      with live show ?thesis by (intro other)
    next
      case debug
      with run ph Inr obtain d w2 l2 where
        d: "maintain_debugging (noticed io) p now lct po st (snd ?r, ?l) = Returns (d, w2, l2)"
        by (auto simp: maintain_pod_def noticed_simps RunnerPodStateStale_def RunnerPodStateDebugging_def split: outcome.splits)
      have "l' = l2" using run ph Inr debug d
        by (auto simp: maintain_pod_def noticed_simps Let_def RunnerPodStateStale_def RunnerPodStateDebugging_def
            dest!: protect_noticed unlink_noticed split: outcome.splits bool.splits prod.splits)
      moreover obtain k where k: "l2 = ?l @ k" "unrounded k" "answers ip k = []"
        "posts x k = (if finished_after lct st \<and> pod_id po = x then 1 else 0)"
        using maintain_debugging_noticed [OF d debug slack] by blast
      ultimately show ?thesis using ip [OF ph]
        by (auto simp: notices_def intro!: exI [of _ "NStatus (po_PodIP po) (Inr st) # k"])
    qed
  qed
qed

lemma maintain_loop_noticed:
  assumes "maintain_loop (noticed io) p now lct rl pods n (w, l) = Returns (pods', w', l')"
    and "p_needSlackNotification p" "up_Resolve (m_urls io) (p_serverURL p) resultAPIPath = Inr u"
    and "\<forall>po\<in>set pods. po_Phase po = PodRunning \<longrightarrow> (po_PodIP po = ip \<longleftrightarrow> pod_id po = x)"
  shows "\<exists>k. l' = l @ k \<and> notices ip x lct k"
  using assms
proof (induction pods arbitrary: n w l pods' w' l')
  case Nil
  then show ?case by (auto simp: notices_def intro!: exI [of _ "[]"])
next
  case (Cons po pods)
  then obtain po1 n1 w1 l1 pods1 where
    step: "maintain_pod (noticed io) p now lct rl po n (w, l) = Returns (po1, n1, w1, l1)" and
    rest: "maintain_loop (noticed io) p now lct rl pods n1 (w1, l1) = Returns (pods1, w', l')"
    by (auto split: outcome.splits)
  obtain k where "l1 = l @ k" "notices ip x lct k"
    using maintain_pod_noticed [OF step Cons.prems(2,3)] Cons.prems(4) by auto
  moreover obtain k' where "l' = l1 @ k'" "notices ip x lct k'" using Cons.IH [OF rest] Cons.prems by auto
  ultimately show ?case by (auto intro!: exI [of _ "k @ k'"] notices_append)
qed

lemma maintain_noticed:
  assumes "maintainRunnerPods (noticed io) p rl pods (w, l) = Returns (pods', p', w', l')"
    and "p_needSlackNotification p" "up_Resolve (m_urls io) (p_serverURL p) resultAPIPath = Inr u"
    and "\<forall>po\<in>set pods. po_Phase po = PodRunning \<longrightarrow> (po_PodIP po = ip \<longleftrightarrow> pod_id po = x)"
  shows "\<exists>t k. l' = l @ NRound t # k \<and> notices ip x (p_lastCheckTime p) k \<and> p' = p\<lparr>p_lastCheckTime := t\<rparr>"
proof -
  let ?t = "fst (m_now io w)"
  have "maintain_loop (noticed io) (p\<lparr>p_lastCheckTime := ?t\<rparr>) ?t (p_lastCheckTime p) rl pods
      (numRemovable (p\<lparr>p_lastCheckTime := ?t\<rparr>) pods) (snd (m_now io w), l @ [NRound ?t]) = Returns (pods', w', l')"
    and p': "p' = p\<lparr>p_lastCheckTime := ?t\<rparr>"
    using assms(1) by (auto simp: maintainRunnerPods_def noticed_simps Let_def split: outcome.splits)
  from maintain_loop_noticed [OF this(1) _ _ assms(4)] assms(2,3)
  obtain k where "l' = (l @ [NRound ?t]) @ k" "notices ip x (p_lastCheckTime p) k" by auto
  with p' show ?thesis by auto
qed

subsection \<open>Many rounds\<close>

text \<open>In every listing the running pod with the address \<open>ip\<close> is the pod \<open>x\<close>.\<close>

definition lists_at :: "'w manager_io \<Rightarrow> 'v manage_process \<Rightarrow> string \<Rightarrow> string \<Rightarrow> bool" where
  "lists_at io p ip x \<longleftrightarrow>
     (\<forall>w pods w'. m_ListPods io (p_rpNamespace p) (runner_selector (p_rpName p)) w = (Inr pods, w') \<longrightarrow>
        (\<forall>po\<in>set pods. po_Phase po = PodRunning \<longrightarrow> (po_PodIP po = ip \<longleftrightarrow> pod_id po = x)))"

text \<open>What the rounds need of the process, and keep: Slack is enabled and the agent has a URL.\<close>

definition notifying :: "'w manager_io \<Rightarrow> 'w gh_client \<Rightarrow> ('w \<times> nevent list) manage_process \<Rightarrow> string \<Rightarrow> string \<Rightarrow> bool" where
  "notifying io gh p ip x \<longleftrightarrow>
     p_githubClient p = noticed_github gh \<and> p_needSlackNotification p \<and>
     (\<exists>u. up_Resolve (m_urls io) (p_serverURL p) resultAPIPath = Inr u) \<and> lists_at io p ip x"

lemma notifying_cong:
  "notifying io gh (p\<lparr>p_lastCheckTime := t\<rparr>) ip x = notifying io gh p ip x"
  "notifying io gh (p\<lparr>p_prevRunnerNames := ns\<rparr>) ip x = notifying io gh p ip x"
  by (simp_all add: notifying_def lists_at_def)

lemma deleteOfflineRunners_noticed:
  "p_githubClient p = noticed_github gh \<Longrightarrow> snd (snd (deleteOfflineRunners p rs pods (w, l))) = l"
proof (induction rs arbitrary: w)
  case (Cons r rs)
  then show ?case by (auto simp: noticed_github_def split: prod.splits option.splits)
qed simp

lemma runOnce_noticed:
  assumes run: "runOnce (noticed io) p m (w, l) = Some (Returns (e, p', m', w', l'))" and n: "notifying io gh p ip x"
  shows "notifying io gh p' ip x \<and>
    (l' = l \<and> p_lastCheckTime p' = p_lastCheckTime p \<or>
     (\<exists>t k. l' = l @ NRound t # k \<and> notices ip x (p_lastCheckTime p) k \<and> p_lastCheckTime p' = t))"
proof -
  have gh: "p_githubClient p = noticed_github gh" using n by (simp add: notifying_def)
  consider (early) "p' = p" "l' = l" | (round) pods rs w2 w3 where
    "fetchRunnerPods (noticed io) p (w, l) = (Inr pods, w2, l)" "fetchRunners p (w2, l) = Some (Inr rs, w3, l)"
    using run gh
    by (auto simp: runOnce_def fetchRunnerPods_def fetchRunners_def noticed_simps noticed_github_def
        split: sum.splits prod.splits option.splits)
  then show ?thesis
  proof cases
    case early
    then show ?thesis using n by simp
  next
    case round
    obtain p1 m1 where up: "updateMetrics p rs m = (p1, m1)" by fastforce
    then have p1: "p1 = p\<lparr>p_prevRunnerNames := map r_Name rs\<rparr>" by (auto simp: updateMetrics_def Let_def)
    from run round up obtain pods' p2 w4 l4 where
      mt: "maintainRunnerPods (noticed io) p1 rs pods (w3, l) = Returns (pods', p2, w4, l4)"
      by (auto simp: runOnce_def split: outcome.splits)
    have n1: "notifying io gh p1 ip x" using n by (simp add: p1 notifying_cong)
    have ls: "\<forall>po\<in>set pods. po_Phase po = PodRunning \<longrightarrow> (po_PodIP po = ip \<longleftrightarrow> pod_id po = x)"
      using n round(1) by (auto simp: notifying_def lists_at_def fetchRunnerPods_def noticed_simps) (metis prod.collapse)+
    obtain t k where tk: "l4 = l @ NRound t # k" "notices ip x (p_lastCheckTime p) k" "p2 = p1\<lparr>p_lastCheckTime := t\<rparr>"
      using maintain_noticed [OF mt _ _ ls] n1 by (auto simp: notifying_def p1)
    have "p' = p2" "l' = l4"
      using run round up mt deleteOfflineRunners_noticed [of p2 gh rs pods' w4 l4] gh
      by (auto simp: runOnce_def tk(3) p1 split: prod.splits)
    then show ?thesis using tk n1 by (auto simp: notifying_cong)
  qed
qed

lemma run_ticks_noticed:
  assumes "run_ticks (noticed io) n p m (w, l) = Some (Returns (p', m', w', l'))" and "notifying io gh p ip x"
  shows "\<exists>k. l' = l @ k \<and> answers ip k = [] \<and> posts x k = (\<Sum>r\<leftarrow>rounds ip (p_lastCheckTime p) k. due_in r)"
  using assms
proof (induction n arbitrary: p m w l)
  case 0
  then show ?case by auto
next
  case (Suc n)
  then obtain e p1 m1 w1 l1 where
    one: "runOnce (noticed io) p m (w, l) = Some (Returns (e, p1, m1, w1, l1))" and
    rest: "run_ticks (noticed io) n p1 m1 (w1, l1) = Some (Returns (p', m', w', l'))"
    by (auto split: option.splits outcome.splits)
  note r1 = runOnce_noticed [OF one Suc.prems(2)]
  obtain k where k: "l' = l1 @ k" "answers ip k = []" "posts x k = (\<Sum>r\<leftarrow>rounds ip (p_lastCheckTime p1) k. due_in r)"
    using Suc.IH [OF rest] r1 by blast
  from r1 consider "l1 = l" "p_lastCheckTime p1 = p_lastCheckTime p"
    | t j where "l1 = l @ NRound t # j" "notices ip x (p_lastCheckTime p) j" "p_lastCheckTime p1 = t" by blast
  then show ?case
  proof cases
    case 1
    with k show ?thesis by auto
  next
    case (2 t j)
    with k show ?thesis
      by (auto simp: notices_def answers_append rounds_append due_in_def intro!: exI [of _ "NRound t # j @ k"])
  qed
qed

subsection \<open>By the time of the first answer\<close>

lemma rounds_from: "\<forall>r\<in>set (rounds ip t l). fst r \<le> fst (snd r) \<Longrightarrow> \<forall>r\<in>set (rounds ip t l). t \<le> fst r"
  by (induction ip t l rule: rounds.induct) fastforce+

lemma rounds_after:
  "rounds ip t l = pre @ (a, b, c) # post \<Longrightarrow> \<exists>l'. post = rounds ip b l'"
proof (induction ip t l arbitrary: pre rule: rounds.induct)
  case (2 ip lct t l)
  then show ?case by (cases pre) auto
qed auto

lemma due_sum_none:
  "\<forall>r\<in>set rs. \<forall>st\<in>set (snd (snd r)). \<not> finished_after (fst r) st \<Longrightarrow> (\<Sum>r\<leftarrow>rs. due_in r) = 0"
proof (induction rs)
  case (Cons r rs)
  then have "filter (finished_after (fst r)) (snd (snd r)) = []" by (simp add: filter_empty_conv)
  with Cons show ?case by (simp add: due_in_def case_prod_beta)
qed simp

text \<open>
  A world with one pod, whose job ends in the second minute and which is then kept for its extension; the
  finish time it reports is \<open>f\<close>. A round begins in every minute.
\<close>

definition finished_status :: "time \<Rightarrow> status" where
  "finished_status f = empty_status\<lparr>State := RunnerPodStateDebugging, FinishedAt := Some f, Extend := Some True,
     Result := JobResultFailure\<rparr>"

definition finishing_io :: "time \<Rightarrow> nat manager_io" where
  "finishing_io f =
     \<lparr>m_ListPods = (\<lambda>ns sel w. (Inr [labelled_po ''pod-1''], w)), m_DeletePod = (\<lambda>po w. (None, w)),
      m_UpdatePod = (\<lambda>po w. (Inr po, w)), m_ApplyPDB = (\<lambda>d f w. (None, w)), m_lib = plain_lib,
      m_urls = sample_urls, m_net = (\<lambda>req w. (Inr (plain_response StatusOK []), w)),
      m_runner = \<lparr>cl_PutDeletionTime = (\<lambda>ip t w. (None, w)),
        cl_GetStatus = (\<lambda>ip w. (Inr (if w < 2 then running_status else finished_status f), w))\<rparr>,
      m_now = (\<lambda>w. (int (Suc w) * Minute, Suc w))\<rparr>"

definition notifying_process :: "(nat \<times> nevent list) manage_process" where
  "notifying_process = sample_process\<lparr>p_githubClient := noticed_github no_github, p_denyDisruption := False,
     p_maxRunnerPods := 1, p_lastCheckTime := 0\<rparr>"

abbreviation "process_at t ns \<equiv> notifying_process\<lparr>p_prevRunnerNames := ns, p_lastCheckTime := t\<rparr>"

lemma finishing_notify:
  "\<exists>k. notify (noticed (finishing_io f)) (process_at t ns) lct po (finished_status f) (w, l) = Returns (w, l @ k) \<and>
     unrounded k \<and> answers ip k = []"
proof (cases "lct < f")
  case True
  then show ?thesis
    by (auto simp: notify_def notifying_process_def sample_process_def finished_status_def time_after_def Let_def PostResult_def
        noticed_simps finishing_io_def sample_urls_def plain_response_def)
next
  case False
  then show ?thesis
    by (auto simp: notify_def finished_status_def time_after_def intro!: exI [of _ "[]"])
qed

lemma finishing_pod:
  assumes "0 < f" and "t \<le> 10 * Minute"
  shows "\<exists>k. maintain_pod (noticed (finishing_io f)) (process_at t ns) t lct [] (labelled_po ''pod-1'') 0 (w, l) =
      Returns (labelled_po ''pod-1'', 0, w, l @ k) \<and> unrounded k \<and>
      answers ''10.0.0.1'' k = [if w < 2 then running_status else finished_status f]"
proof -
  let ?io = "noticed (finishing_io f)" and ?p = "process_at t ns" and ?po = "labelled_po ''pod-1''"
    and ?st = "if w < 2 then running_status else finished_status f"
  have get: "cl_GetStatus (m_runner ?io) (po_PodIP ?po) (w, l) = (Inr ?st, w, l @ [NStatus ''10.0.0.1'' (Inr ?st)])"
    by (simp add: noticed_simps finishing_io_def labelled_po_def)
  have ph: "po_Phase ?po = PodRunning" by (simp add: labelled_po_def)
  show ?thesis
  proof (cases "w < 2")
    case True
    then have "maintain_pod ?io ?p t lct [] ?po 0 (w, l) = Returns (?po, 0, w, l @ [NStatus ''10.0.0.1'' (Inr ?st)])"
      using get ph assms(2)
      by (simp add: maintain_pod_def running_status_def empty_status_def Let_def pastDeadline_def time_before_def runnerBusy_def
          labelled_po_def empty_meta_def notifying_process_def sample_process_def RunnerPodStateRunning_def
          RunnerPodStateStale_def RunnerPodStateDebugging_def Hour_def Minute_def)
    then show ?thesis using True by auto
  next
    case False
    let ?l = "l @ [NStatus ''10.0.0.1'' (Inr (finished_status f))]"
    obtain k where k: "notify ?io ?p lct ?po (finished_status f) (w, ?l) = Returns (w, ?l @ k)" "unrounded k" "answers ''10.0.0.1'' k = []"
      using finishing_notify by blast
    have "needDelete ?p t (finished_status f) = Returns False"
      using assms by (simp add: needDelete_def finished_status_def empty_status_def needExtend_def notifying_process_def
          sample_process_def time_after_def Minute_def)
    with k(1) have "maintain_debugging ?io ?p t lct ?po (finished_status f) (w, ?l) = Returns (False, w, ?l @ k)"
      by (simp add: maintain_debugging_def finished_status_def noticed_simps finishing_io_def)
    moreover have "State (finished_status f) = RunnerPodStateDebugging" by (simp add: finished_status_def)
    ultimately have "maintain_pod ?io ?p t lct [] ?po 0 (w, l) = Returns (?po, 0, w, ?l @ k)"
      using get ph False
      by (simp add: maintain_pod_def Let_def protect_def unlink_def notifying_process_def sample_process_def
          RunnerPodStateStale_def RunnerPodStateDebugging_def)
    then show ?thesis using False k by auto
  qed
qed

lemma finishing_round:
  assumes "0 < f" and "w < 9"
  shows "\<exists>k m'. runOnce (noticed (finishing_io f)) (process_at lct []) m (w, l) =
      Some (Returns (None, process_at (int (Suc w) * Minute) [], m', Suc w, l @ NRound (int (Suc w) * Minute) # k)) \<and>
    unrounded k \<and> answers ''10.0.0.1'' k = [if Suc w < 2 then running_status else finished_status f]"
proof -
  let ?t = "int (Suc w) * Minute"
  have "?t \<le> 10 * Minute" using assms(2) by (simp add: Minute_def)
  from finishing_pod [OF assms(1) this, of "[]" lct "Suc w" "l @ [NRound ?t]"] obtain k where
    k: "maintain_pod (noticed (finishing_io f)) (process_at ?t []) ?t lct [] (labelled_po ''pod-1'') 0 (Suc w, l @ [NRound ?t]) =
      Returns (labelled_po ''pod-1'', 0, Suc w, (l @ [NRound ?t]) @ k)" "unrounded k"
      "answers ''10.0.0.1'' k = [if Suc w < 2 then running_status else finished_status f]" by blast
  have "maintainRunnerPods (noticed (finishing_io f)) (process_at lct []) [] [labelled_po ''pod-1''] (w, l) =
      Returns ([labelled_po ''pod-1''], process_at ?t [], Suc w, l @ NRound ?t # k)"
    using k(1)
    by (simp add: maintainRunnerPods_def noticed_simps finishing_io_def Let_def numRemovable_def numUnlabeledPods_def
        unlabeled_def labelled_po_def notifying_process_def sample_process_def gm_get_def)
  moreover obtain m' where "updateMetrics (process_at lct []) [] m = (process_at lct [], m')"
    by (simp add: updateMetrics_def Let_def)
  ultimately have "runOnce (noticed (finishing_io f)) (process_at lct []) m (w, l) =
      Some (Returns (None, process_at ?t [], m', Suc w, l @ NRound ?t # k))"
    by (simp add: runOnce_def fetchRunnerPods_def fetchRunners_def noticed_simps finishing_io_def notifying_process_def
        noticed_github_def no_github_def)
  with k(2,3) show ?thesis by blast
qed

lemma finishing_run:
  assumes "0 < f"
  shows "\<exists>p' m' w' log. run_ticks (noticed (finishing_io f)) 3 notifying_process m (0, []) = Some (Returns (p', m', w', log)) \<and>
    rounds ''10.0.0.1'' 0 log = [(0, Minute, [running_status]), (Minute, 2 * Minute, [finished_status f]),
      (2 * Minute, 3 * Minute, [finished_status f])]"
proof -
  let ?ip = "''10.0.0.1''" and ?io = "noticed (finishing_io f)"
  have start: "notifying_process = process_at 0 []" by (simp add: notifying_process_def sample_process_def)
  obtain k1 m1 where 1: "runOnce ?io (process_at 0 []) m (0, []) =
      Some (Returns (None, process_at Minute [], m1, 1, [NRound Minute] @ k1))" "unrounded k1" "answers ?ip k1 = [running_status]"
    using finishing_round [OF assms, of 0 0 m "[]"] by auto
  obtain k2 m2 where 2: "runOnce ?io (process_at Minute []) m1 (1, [NRound Minute] @ k1) =
      Some (Returns (None, process_at (2 * Minute) [], m2, 2, ([NRound Minute] @ k1) @ NRound (2 * Minute) # k2))" "unrounded k2"
      "answers ?ip k2 = [finished_status f]"
    using finishing_round [OF assms, of 1 Minute m1 "[NRound Minute] @ k1"] by (auto simp: numeral_2_eq_2)
  let ?l = "([NRound Minute] @ k1) @ NRound (2 * Minute) # k2"
  obtain k3 m3 where 3: "runOnce ?io (process_at (2 * Minute) []) m2 (2, ?l) =
      Some (Returns (None, process_at (3 * Minute) [], m3, 3, ?l @ NRound (3 * Minute) # k3))" "unrounded k3"
      "answers ?ip k3 = [finished_status f]"
    using finishing_round [OF assms, of 2 "2 * Minute" m2 ?l] by (auto simp: numeral_3_eq_3)
  have "run_ticks ?io 3 notifying_process m (0, []) =
      Some (Returns (process_at (3 * Minute) [], m3, 3, ?l @ NRound (3 * Minute) # k3))"
    using 1(1) 2(1) 3(1) by (subst start) (simp add: numeral_3_eq_3)
  moreover have "rounds ?ip 0 (?l @ NRound (3 * Minute) # k3) =
      [(0, Minute, [running_status]), (Minute, 2 * Minute, [finished_status f]), (2 * Minute, 3 * Minute, [finished_status f])]"
    using 1(2,3) 2(2,3) 3(2,3) rounds_append [of k3 ?ip "3 * Minute" "[]"]
    by (simp add: answers_append rounds_append)
  ultimately show ?thesis by blast
qed

lemma finishing_notifying: "notifying (finishing_io f) no_github notifying_process ''10.0.0.1'' ''ns/pod-1''"
  by (simp add: notifying_def lists_at_def notifying_process_def sample_process_def finishing_io_def sample_urls_def
      labelled_po_def pod_id_def)

subsection \<open>Properties\<close>

text \<open>
  C9. How often a finished job is notified, over any number of rounds in which the running pod at the address
  \<open>ip\<close> is the pod \<open>x\<close>, the clock does not go back, and the finish time that \<open>x\<close> reports stays the same, \<open>f\<close>. Let the
  first round in which \<open>x\<close> answered that its job is finished begin at \<open>now\<close>, and the round before it at \<open>lct\<close>. The
  job is not notified at all if it had finished when that earlier round began (the pod could not be reached
  in between); exactly once if it finished between the beginnings of the two; and once more for
  every answer in the next round if it finished after the round had begun, before the pod was asked.
\<close>

theorem notifications_by_first_answer:
  assumes "run_ticks (noticed io) n p m (w, []) = Some (Returns (p', m', w', log))"
    and "p_githubClient p = noticed_github gh" and "p_needSlackNotification p"
    and "up_Resolve (m_urls io) (p_serverURL p) resultAPIPath = Inr u" and "lists_at io p ip x"
    and "rounds ip (p_lastCheckTime p) log = pre @ (lct, now, [st]) # post"
    and "State st = RunnerPodStateDebugging"
    and "\<forall>r\<in>set pre. \<forall>s\<in>set (snd (snd r)). State s \<noteq> RunnerPodStateDebugging"
    and "\<forall>r\<in>set (rounds ip (p_lastCheckTime p) log). fst r \<le> fst (snd r) \<and>
           (\<forall>s\<in>set (snd (snd r)). State s = RunnerPodStateDebugging \<longrightarrow> FinishedAt s = Some f)"
  shows "(f \<le> lct \<longrightarrow> posts x log = 0) \<and>
    (lct < f \<and> f \<le> now \<longrightarrow> posts x log = 1) \<and>
    (now < f \<longrightarrow> posts x log = Suc (\<Sum>r\<leftarrow>post. due_in r) \<and>
       (\<forall>now' as post'. post = (now, now', as) # post' \<longrightarrow>
          posts x log \<ge> Suc (length (filter (\<lambda>s. State s = RunnerPodStateDebugging) as))))"
proof -
  have f: "FinishedAt st = Some f" using assms(6,7,9) by simp
  have ord: "lct \<le> now" using assms(6,9) by simp
  have count: "posts x log = (\<Sum>r\<leftarrow>pre @ (lct, now, [st]) # post. due_in r)"
    using run_ticks_noticed [OF assms(1), of gh ip x] assms(2-6) by (auto simp: notifying_def)
  have pre: "(\<Sum>r\<leftarrow>pre. due_in r) = 0"
    using assms(8) by (intro due_sum_none) (auto simp: finished_after_def)
  have first: "due_in (lct, now, [st]) = (if lct < f then 1 else 0)"
    using f assms(7) by (simp add: due_in_def finished_after_def)
  have later: "now \<le> fst r" if "r \<in> set post" for r
  proof -
    obtain l' where "post = rounds ip now l'" using rounds_after [OF assms(6)] by blast
    then show ?thesis using rounds_from [of ip now l'] assms(6,9) that by auto
  qed
  have fin: "FinishedAt s = Some f" if "r \<in> set post" "s \<in> set (snd (snd r))" "State s = RunnerPodStateDebugging" for r s
    using assms(6,9) that by auto
  have none: "(\<Sum>r\<leftarrow>post. due_in r) = 0" if "f \<le> now"
  proof (rule due_sum_none, intro ballI notI)
    fix r s assume "r \<in> set post" "s \<in> set (snd (snd r))" "finished_after (fst r) s"
    with later [of r] fin [of r s] that show False by (auto simp: finished_after_def)
  qed
  have next_round: "length (filter (\<lambda>s. State s = RunnerPodStateDebugging) as) \<le> (\<Sum>r\<leftarrow>post. due_in r)"
    if "now < f" "post = (now, now', as) # post'" for now' as post'
  proof -
    have "filter (finished_after now) as = filter (\<lambda>s. State s = RunnerPodStateDebugging) as"
      using that fin [of "(now, now', as)"] by (intro filter_cong) (auto simp: finished_after_def)
    then show ?thesis using that by (simp add: due_in_def)
  qed
  show ?thesis using count pre first none next_round ord by auto
qed

theorem notifications_by_first_answer_witness:
  "\<exists>p' m' w' log. run_ticks (noticed (finishing_io (90 * Second))) 3 notifying_process InitControllerMetrics (0, []) =
       Some (Returns (p', m', w', log)) \<and> posts ''ns/pod-1'' log = 1"
proof -
  let ?f = "90 * Second"
  obtain p' m' w' log where run: "run_ticks (noticed (finishing_io ?f)) 3 notifying_process InitControllerMetrics (0, []) =
      Some (Returns (p', m', w', log))"
    and rs: "rounds ''10.0.0.1'' 0 log = [(0, Minute, [running_status]), (Minute, 2 * Minute, [finished_status ?f]),
      (2 * Minute, 3 * Minute, [finished_status ?f])]"
    using finishing_run [of ?f InitControllerMetrics] by (auto simp: Second_def)
  have t0: "p_lastCheckTime notifying_process = 0" by (simp add: notifying_process_def)
  have fin: "State (finished_status ?f) = RunnerPodStateDebugging" "FinishedAt (finished_status ?f) = Some ?f"
    by (simp_all add: finished_status_def)
  have live: "State running_status \<noteq> RunnerPodStateDebugging"
    by (simp add: running_status_def RunnerPodStateRunning_def RunnerPodStateDebugging_def)
  note n = finishing_notifying [of ?f, unfolded notifying_def]
  obtain u where u: "up_Resolve (m_urls (finishing_io ?f)) (p_serverURL notifying_process) resultAPIPath = Inr u"
    using n by blast
  have "posts ''ns/pod-1'' log = 1"
    using notifications_by_first_answer [OF run _ _ u, of no_github "''10.0.0.1''" "''ns/pod-1''" "[(0, Minute, [running_status])]"
        Minute "2 * Minute" "finished_status ?f" "[(2 * Minute, 3 * Minute, [finished_status ?f])]" ?f] n t0 rs fin live
    by (simp add: Minute_def Second_def)
  with run show ?thesis by blast
qed

text \<open>
  The same job, finished in the second after the round began in which the pod was first asked about it: the
  next round notifies it again.
\<close>

lemma job_notified_twice:
  "\<exists>p' m' w' log. run_ticks (noticed (finishing_io (121 * Second))) 3 notifying_process InitControllerMetrics (0, []) =
       Some (Returns (p', m', w', log)) \<and> posts ''ns/pod-1'' log = 2"
proof -
  let ?f = "121 * Second"
  obtain p' m' w' log where run: "run_ticks (noticed (finishing_io ?f)) 3 notifying_process InitControllerMetrics (0, []) =
      Some (Returns (p', m', w', log))"
    and rs: "rounds ''10.0.0.1'' 0 log = [(0, Minute, [running_status]), (Minute, 2 * Minute, [finished_status ?f]),
      (2 * Minute, 3 * Minute, [finished_status ?f])]"
    using finishing_run [of ?f InitControllerMetrics] by (auto simp: Second_def)
  have "p_lastCheckTime notifying_process = 0" by (simp add: notifying_process_def)
  then have "posts ''ns/pod-1'' log = (\<Sum>r\<leftarrow>rounds ''10.0.0.1'' 0 log. due_in r)"
    using run_ticks_noticed [OF run finishing_notifying] by auto
  moreover have "State running_status \<noteq> RunnerPodStateDebugging"
    by (simp add: running_status_def RunnerPodStateRunning_def RunnerPodStateDebugging_def)
  ultimately have "posts ''ns/pod-1'' log = 2"
    by (simp add: rs due_in_def finished_after_def finished_status_def Minute_def Second_def)
  with run show ?thesis by blast
qed

end
