(* ===== verification/Token_Validity.thy ===== *)
theory Token_Validity
  imports Secret_Updater
begin

section \<open>The token of a pool does not expire\<close>

text \<open>
  The secret updater is there so that a runner pod that starts at any time finds a registration token that is
  still valid. Here its loop runs in a world with a clock, in which every call and every wait takes time, and
  in which reading the secret, asking GitHub and patching the secret may fail. As long as only a few
  turns in a row fail, the token that lies in the secret is valid at every moment.
\<close>

subsection \<open>The world\<close>

text \<open>
  \<open>valid_until\<close> says until when GitHub accepts a token. The secret of a pool is honest when the expiry in
  its annotation, where it has one, is not later than that of the token in its \<open>Data\<close>; a secret without the
  annotation, as the controller creates it, is.
\<close>

definition honest :: "(string \<Rightarrow> time) \<Rightarrow> secret \<Rightarrow> bool" where
  "honest valid_until s \<longleftrightarrow>
     (\<forall>e. expiry s = Some e \<longrightarrow>
        (\<exists>tok. gm_get (sec_Data s) RunnerTokenFileName = Some tok \<and> e \<le> valid_until tok))"

text \<open>
  \<open>clock\<close> is the time and \<open>stored\<close> the secret in the API server. No call turns the clock back; reading the
  secret returns what is stored, if it succeeds; a patch that reports success is stored, in the way the API server
  stores a secret (\<open>stored_as\<close>), and one that reports an error may be stored or not; a new token is valid until
  the expiry that GitHub states with it, for the time \<open>life\<close> or longer from the moment it is asked for. A turn
  of the loop takes at most \<open>d\<close>, and a wait at most \<open>d\<close> longer than it should.
\<close>

definition timed_world ::
    "(string \<Rightarrow> time) \<Rightarrow> 'w secret_io \<Rightarrow> (duration \<Rightarrow> 'w \<Rightarrow> 'w) \<Rightarrow> 'w updater \<Rightarrow> ('w \<Rightarrow> time) \<Rightarrow> ('w \<Rightarrow> secret) \<Rightarrow> duration \<Rightarrow> duration \<Rightarrow> bool" where
  "timed_world valid_until io sleep u clock stored life d \<longleftrightarrow>
     (\<forall>w. secret_wf (stored w)) \<and>
     (\<forall>w r w1. getSecret io u w = (r, w1) \<longrightarrow>
        stored w1 = stored w \<and> clock w \<le> clock w1 \<and> (\<forall>s. r = Inr s \<longrightarrow> s = stored w)) \<and>
     (\<forall>w t w1. s_now io w = (t, w1) \<longrightarrow> stored w1 = stored w \<and> clock w \<le> clock w1 \<and> t = clock w) \<and>
     (\<forall>w r w1. ghc_CreateRegistrationToken (u_githubClient u) (u_owner u) (u_repo u) w = (r, w1) \<longrightarrow>
        stored w1 = stored w \<and> clock w \<le> clock w1 \<and>
        (\<forall>tok. r = Inr tok \<longrightarrow> clock w + life \<le> ExpiresAt tok \<and> rfc3339_range (ExpiresAt tok) \<and>
          ExpiresAt tok \<le> valid_until (Token tok))) \<and>
     (\<forall>w s' r w1. secret_wf s' \<and> s_PatchSecret io (stored w) s' w = (r, w1) \<longrightarrow>
        clock w \<le> clock w1 \<and> (stored w1 = stored w \<and> r \<noteq> None \<or> stored_as s' (stored w1))) \<and>
     (\<forall>w m. clock (snd (snd (updater_step io u m w))) \<le> clock w + d) \<and>
     (\<forall>w t. clock (sleep t w) \<le> clock w + max 0 t + d \<and> stored (sleep t w) = stored w)"

text \<open>A turn succeeds when it can read the secret and, where the token is due, replace it.\<close>

definition turn_ok :: "'w secret_io \<Rightarrow> 'w updater \<Rightarrow> 'w \<Rightarrow> bool" where
  "turn_ok io u w =
     (case getSecret io u w of
        (Inl e, w1) \<Rightarrow> False
      | (Inr s, w1) \<Rightarrow>
          (case s_now io w1 of
             (now, w2) \<Rightarrow> fst (needUpdate s now) \<longrightarrow> (case updateSecret io u s w2 of (Inl e, w3) \<Rightarrow> False | (Inr t, w3) \<Rightarrow> True)))"

text \<open>In the next \<open>n\<close> turns no more than \<open>N\<close> in a row fail, where \<open>c\<close> have failed just before.\<close>

primrec few_failures ::
    "'w secret_io \<Rightarrow> (duration \<Rightarrow> 'w \<Rightarrow> 'w) \<Rightarrow> 'w updater \<Rightarrow> nat \<Rightarrow> nat \<Rightarrow> nat \<Rightarrow> duration \<Rightarrow> controller_metrics \<Rightarrow> 'w \<Rightarrow> bool" where
  "few_failures io sleep u N 0 c waitTime m w = True"
| "few_failures io sleep u N (Suc n) c waitTime m w =
     (let w0 = sleep waitTime w; (waitTime', m', w') = updater_step io u m w0
      in if turn_ok io u w0 then few_failures io sleep u N n 0 waitTime' m' w'
         else c < N \<and> few_failures io sleep u N n (Suc c) waitTime' m' w')"

subsection \<open>One turn\<close>

text \<open>After \<open>c\<close> failures in a row the loop is at most so late.\<close>

definition on_time :: "('w \<Rightarrow> time) \<Rightarrow> ('w \<Rightarrow> secret) \<Rightarrow> duration \<Rightarrow> nat \<Rightarrow> duration \<Rightarrow> 'w \<Rightarrow> bool" where
  "on_time clock stored d c waitTime w \<longleftrightarrow>
     (\<exists>e. expiry (stored w) = Some e \<and>
        clock w + max 0 waitTime \<le> e - 5 * Minute + int c * Minute + (2 * int c + 1) * d)"

lemma timed_worldD:
  assumes "timed_world valid_until io sleep u clock stored life d"
  shows "secret_wf (stored w)"
    and "getSecret io u w = (r, w1) \<Longrightarrow> stored w1 = stored w \<and> clock w \<le> clock w1 \<and> (\<forall>s. r = Inr s \<longrightarrow> s = stored w)"
    and "s_now io w = (t, w1) \<Longrightarrow> stored w1 = stored w \<and> clock w \<le> clock w1 \<and> t = clock w"
    and "ghc_CreateRegistrationToken (u_githubClient u) (u_owner u) (u_repo u) w = (q, w1) \<Longrightarrow>
      stored w1 = stored w \<and> clock w \<le> clock w1 \<and>
      (\<forall>tok. q = Inr tok \<longrightarrow> clock w + life \<le> ExpiresAt tok \<and> rfc3339_range (ExpiresAt tok) \<and>
          ExpiresAt tok \<le> valid_until (Token tok))"
    and "secret_wf s' \<Longrightarrow> s_PatchSecret io (stored w) s' w = (x, w1) \<Longrightarrow>
      clock w \<le> clock w1 \<and> (stored w1 = stored w \<and> x \<noteq> None \<or> stored_as s' (stored w1))"
    and "updater_step io u m w = (t, m', w1) \<Longrightarrow> clock w1 \<le> clock w + d"
    and "clock (sleep t w) \<le> clock w + max 0 t + d \<and> stored (sleep t w) = stored w"
proof -
  note c = assms [unfolded timed_world_def, THEN conjunct2]
  note c3 = c [THEN conjunct2] note c4 = c3 [THEN conjunct2] note c5 = c4 [THEN conjunct2] note c6 = c5 [THEN conjunct2]
  show "secret_wf (stored w)" using assms by (simp add: timed_world_def)
  show "getSecret io u w = (r, w1) \<Longrightarrow> stored w1 = stored w \<and> clock w \<le> clock w1 \<and> (\<forall>s. r = Inr s \<longrightarrow> s = stored w)"
    by (rule c [THEN conjunct1, THEN spec, THEN spec, THEN spec, THEN mp])
  show "s_now io w = (t, w1) \<Longrightarrow> stored w1 = stored w \<and> clock w \<le> clock w1 \<and> t = clock w"
    by (rule c3 [THEN conjunct1, THEN spec, THEN spec, THEN spec, THEN mp])
  show "ghc_CreateRegistrationToken (u_githubClient u) (u_owner u) (u_repo u) w = (q, w1) \<Longrightarrow>
      stored w1 = stored w \<and> clock w \<le> clock w1 \<and>
      (\<forall>tok. q = Inr tok \<longrightarrow> clock w + life \<le> ExpiresAt tok \<and> rfc3339_range (ExpiresAt tok) \<and>
          ExpiresAt tok \<le> valid_until (Token tok))"
    by (rule c4 [THEN conjunct1, THEN spec, THEN spec, THEN spec, THEN mp])
  show "secret_wf s' \<Longrightarrow> s_PatchSecret io (stored w) s' w = (x, w1) \<Longrightarrow>
      clock w \<le> clock w1 \<and> (stored w1 = stored w \<and> x \<noteq> None \<or> stored_as s' (stored w1))"
    using c5 [THEN conjunct1, THEN spec, THEN spec, THEN spec, THEN spec, THEN mp] by blast
  show "updater_step io u m w = (t, m', w1) \<Longrightarrow> clock w1 \<le> clock w + d"
    using c6 [THEN conjunct1, rule_format, of m w] by simp
  show "clock (sleep t w) \<le> clock w + max 0 t + d \<and> stored (sleep t w) = stored w"
    by (rule c6 [THEN conjunct2, THEN spec, THEN spec])
qed

lemma needUpdate_expiry:
  "\<not> fst (needUpdate s now) \<Longrightarrow> \<exists>e. expiry s = Some e \<and> now \<le> e - 5 * Minute \<and> snd (needUpdate s now) = e - 5 * Minute"
  by (auto simp: needUpdate_def expiry_def time_after_def Let_def split: option.splits if_splits)

text \<open>What refreshing the secret leaves behind.\<close>

lemma updateSecret_outcome:
  assumes world: "timed_world valid_until io sleep u clock stored life d" and up: "updateSecret io u (stored w) w = (r, w')"
  shows "(\<forall>x. r = Inr x \<longrightarrow> (\<exists>e. expiry (stored w') = Some e \<and> clock w + life - Second \<le> e)) \<and>
    (stored w' = stored w \<or> (\<exists>e. expiry (stored w') = Some e \<and> clock w + life - Second \<le> e)) \<and>
    (honest valid_until (stored w) \<longrightarrow> honest valid_until (stored w'))"
proof -
  obtain q w1 where q: "ghc_CreateRegistrationToken (u_githubClient u) (u_owner u) (u_repo u) w = (q, w1)" by fastforce
  note g = timed_worldD(4) [OF world q]
  show ?thesis
  proof (cases q)
    case (Inl e)
    then show ?thesis using up q g by (auto simp: updateSecret_def)
  next
    case (Inr tok)
    obtain x w2 where x: "s_PatchSecret io (stored w1) (token_secret (stored w1) tok) w1 = (x, w2)" by fastforce
    have wf: "secret_wf (stored w1)" by (rule timed_worldD(1) [OF world])
    note p = timed_worldD(5) [OF world secret_wf_token_secret [OF wf] x]
    have new: "expiry t = Some (ExpiresAt tok - ExpiresAt tok mod Second) \<and> honest valid_until t"
      if "stored_as (token_secret (stored w1) tok) t" for t
    proof -
      have "expiry t = Some (ExpiresAt tok - ExpiresAt tok mod Second)"
        using expiry_stored_as [OF that] expiry_token_secret [OF wf] g Inr by simp
      moreover have "0 \<le> ExpiresAt tok mod Second" by (simp add: Second_def)
      ultimately show ?thesis
        using stored_token(1) [OF wf that] g Inr by (auto simp: honest_def)
    qed
    have "ExpiresAt tok mod Second < Second" by (simp add: Second_def)
    then have late: "clock w + life - Second \<le> ExpiresAt tok - ExpiresAt tok mod Second" using g Inr by auto
    have "w' = w2" "(\<exists>y. r = Inr y) \<longleftrightarrow> x = None" using up q x Inr g by (auto simp: updateSecret_def split: option.splits)
    then show ?thesis using p g new late by auto
  qed
qed

lemma turn_outcome:
  assumes world: "timed_world valid_until io sleep u clock stored life d" and step: "updater_step io u m w = (t, m', w')"
  shows "if turn_ok io u w
    then \<exists>e. expiry (stored w') = Some e \<and>
      (clock w \<le> e - 5 * Minute \<and> t \<le> e - 5 * Minute - clock w \<or> t = Second \<and> clock w + life - Second \<le> e)
    else t \<in> {Second, Minute} \<and>
      (stored w' = stored w \<or> (\<exists>e. expiry (stored w') = Some e \<and> clock w + life - Second \<le> e))"
proof -
  obtain r w1 where r: "getSecret io u w = (r, w1)" by fastforce
  note get = timed_worldD(2) [OF world r]
  show ?thesis
  proof (cases r)
    case (Inl e)
    then show ?thesis using step r get by (cases e) (auto simp: updater_step_def turn_ok_def)
  next
    case (Inr s)
    then have s: "s = stored w" using get by simp
    obtain now w2 where now: "s_now io w1 = (now, w2)" by fastforce
    note n = timed_worldD(3) [OF world now]
    show ?thesis
    proof (cases "fst (needUpdate s now)")
      case False
      obtain t' w3 where now': "s_now io w2 = (t', w3)" by fastforce
      note n' = timed_worldD(3) [OF world now']
      obtain e where e: "expiry s = Some e" "now \<le> e - 5 * Minute" "snd (needUpdate s now) = e - 5 * Minute"
        using needUpdate_expiry [OF False] by blast
      have "t = e - 5 * Minute - t'" "w' = w3"
        using step r Inr now now' False e(3) by (auto simp: updater_step_def case_prod_beta)
      moreover have "turn_ok io u w" using r Inr now False by (simp add: turn_ok_def)
      ultimately show ?thesis using e s get n n' by auto
    next
      case True
      obtain x w3 where up: "updateSecret io u s w2 = (x, w3)" by fastforce
      have s2: "s = stored w2" using s get n by simp
      note o = updateSecret_outcome [OF world up [unfolded s2]]
      have le: "clock w \<le> clock w2" using get n by simp
      have "w' = w3" "t = (if \<exists>y. x = Inr y then Second else Minute)"
        using step r Inr now True up by (auto simp: updater_step_def case_prod_beta split: sum.splits)
      moreover have "turn_ok io u w \<longleftrightarrow> (\<exists>y. x = Inr y)"
        using r Inr now True up by (auto simp: turn_ok_def split: sum.splits)
      ultimately show ?thesis using o le s2 s by fastforce
    qed
  qed
qed

lemma turn_honest:
  assumes world: "timed_world valid_until io sleep u clock stored life d" and step: "updater_step io u m w = (t, m', w')"
    and honest: "honest valid_until (stored w)"
  shows "honest valid_until (stored w')"
proof -
  obtain r w1 where r: "getSecret io u w = (r, w1)" by fastforce
  note get = timed_worldD(2) [OF world r]
  show ?thesis
  proof (cases r)
    case (Inl e)
    then show ?thesis using step r get honest by (cases e) (auto simp: updater_step_def)
  next
    case (Inr s)
    obtain now w2 where now: "s_now io w1 = (now, w2)" by fastforce
    note n = timed_worldD(3) [OF world now]
    show ?thesis
    proof (cases "fst (needUpdate s now)")
      case False
      obtain t' w3 where now': "s_now io w2 = (t', w3)" by fastforce
      with timed_worldD(3) [OF world now'] step r Inr now False n get honest show ?thesis
        by (auto simp: updater_step_def case_prod_beta)
    next
      case True
      obtain x w3 where up: "updateSecret io u (stored w2) w2 = (x, w3)" by fastforce
      moreover have "s = stored w2" using get n Inr by simp
      moreover have "w' = w3" using step r Inr now True up calculation(2)
        by (auto simp: updater_step_def case_prod_beta split: sum.splits)
      ultimately show ?thesis using updateSecret_outcome [OF world up] n get honest by simp
    qed
  qed
qed

lemma on_time_step:
  assumes world: "timed_world valid_until io sleep u clock stored life d" and step: "updater_step io u m w = (t, m', w')"
    and life: "6 * Minute + 2 * Second \<le> life" and d: "0 \<le> d"
  shows "turn_ok io u w \<Longrightarrow> on_time clock stored d 0 t w'"
    and "\<not> turn_ok io u w \<Longrightarrow> expiry (stored w) = Some e \<Longrightarrow>
      clock w \<le> e - 5 * Minute + int c * Minute + (2 * int c + 2) * d \<Longrightarrow> on_time clock stored d (Suc c) t w'"
proof -
  note o = turn_outcome [OF world step] and le = timed_worldD(6) [OF world step]
  have pos: "0 < Second" "Second < Minute" by (simp_all add: Second_def Minute_def)
  show "on_time clock stored d 0 t w'" if "turn_ok io u w"
  proof -
    from o have "\<exists>e. expiry (stored w') = Some e \<and>
        (clock w \<le> e - 5 * Minute \<and> t \<le> e - 5 * Minute - clock w \<or> t = Second \<and> clock w + life - Second \<le> e)"
      by (simp only: that if_True)
    then obtain e where "expiry (stored w') = Some e"
      "clock w \<le> e - 5 * Minute \<and> t \<le> e - 5 * Minute - clock w \<or> t = Second \<and> clock w + life - Second \<le> e"
      by blast
    then show ?thesis using le life pos by (auto simp: on_time_def)
  qed
  show "on_time clock stored d (Suc c) t w'" if "\<not> turn_ok io u w" "expiry (stored w) = Some e"
    "clock w \<le> e - 5 * Minute + int c * Minute + (2 * int c + 2) * d"
  proof -
    have t: "max 0 t \<le> Minute" using o that(1) pos by auto
    have grow: "0 \<le> int c * Minute + (2 * int c + 2) * d" using d pos by simp
    have "stored w' = stored w \<or> (\<exists>e. expiry (stored w') = Some e \<and> clock w + life - Second \<le> e)" using o that(1) by simp
    then show ?thesis
    proof
      assume "stored w' = stored w"
      then show ?thesis using that le t by (auto simp: on_time_def algebra_simps)
    next
      assume "\<exists>e. expiry (stored w') = Some e \<and> clock w + life - Second \<le> e"
      then obtain e' where "expiry (stored w') = Some e'" "clock w + life - Second \<le> e'" by blast
      then show ?thesis using le t life grow pos by (auto simp: on_time_def algebra_simps)
    qed
  qed
qed

subsection \<open>The loop\<close>

lemma on_time_valid:
  assumes "timed_world valid_until io sleep u clock stored life d" and "on_time clock stored d c t w" and "c \<le> N" and "0 \<le> d"
    and "int N * Minute + (2 * int N + 3) * d < 5 * Minute"
  shows "\<exists>e. expiry (stored w) = Some e \<and> clock w < e \<and> clock (sleep t w) + d < e"
proof -
  obtain e where e: "expiry (stored w) = Some e" "clock w + max 0 t \<le> e - 5 * Minute + int c * Minute + (2 * int c + 1) * d"
    using assms(2) by (auto simp: on_time_def)
  have "int c * Minute \<le> int N * Minute" using assms(3) by (simp add: Minute_def)
  moreover have "(2 * int c + 3) * d \<le> (2 * int N + 3) * d" using assms(3,4) by (intro mult_right_mono) simp_all
  ultimately show ?thesis
    using e timed_worldD(7) [OF assms(1), of t w] assms(4,5) by (auto simp: algebra_simps)
qed

lemma updater_run_on_time:
  assumes world: "timed_world valid_until io sleep u clock stored life d" and life: "6 * Minute + 2 * Second \<le> life" and d: "0 \<le> d"
    and "on_time clock stored d c t w" and "c \<le> N" and "few_failures io sleep u N n c t m w"
    and "updater_run io sleep u n t m w = (t', m', w')"
  shows "\<exists>c'\<le>N. on_time clock stored d c' t' w'"
  using assms(4-7)
proof (induction n arbitrary: c t m w)
  case 0
  then show ?case by auto
next
  case (Suc n)
  obtain t1 m1 w1 where step: "updater_step io u m (sleep t w) = (t1, m1, w1)" by (metis prod_cases3)
  obtain e where e: "expiry (stored w) = Some e" "clock w + max 0 t \<le> e - 5 * Minute + int c * Minute + (2 * int c + 1) * d"
    using Suc.prems(1) by (auto simp: on_time_def)
  have late: "expiry (stored (sleep t w)) = Some e"
    "clock (sleep t w) \<le> e - 5 * Minute + int c * Minute + (2 * int c + 2) * d"
    using e timed_worldD(7) [OF world, of t w] by (auto simp: algebra_simps)
  have run: "updater_run io sleep u n t1 m1 w1 = (t', m', w')" using Suc.prems(4) step by simp
  note next_turn = on_time_step [OF world step life d]
  show ?case
  proof (cases "turn_ok io u (sleep t w)")
    case True
    with Suc.prems(3) step have "few_failures io sleep u N n 0 t1 m1 w1" by simp
    from Suc.IH [OF next_turn(1) [OF True] _ this run] show ?thesis by simp
  next
    case False
    with Suc.prems(3) step have "c < N" "few_failures io sleep u N n (Suc c) t1 m1 w1" by simp_all
    with Suc.IH [OF next_turn(2) [OF False late] _ _ run] show ?thesis by simp
  qed
qed

lemma updater_run_honest:
  assumes "timed_world valid_until io sleep u clock stored life d"
  shows "honest valid_until (stored w) \<Longrightarrow> updater_run io sleep u n t m w = (t', m', w') \<Longrightarrow> honest valid_until (stored w')"
proof (induction n arbitrary: t m w)
  case (Suc n)
  obtain t1 m1 w1 where step: "updater_step io u m (sleep t w) = (t1, m1, w1)" by (metis prod_cases3)
  have "honest valid_until (stored (sleep t w))" using Suc.prems(1) timed_worldD(7) [OF assms, of t w] by simp
  from Suc.IH [OF turn_honest [OF assms step this]] Suc.prems(2) step show ?case by simp
qed simp

subsection \<open>Properties\<close>

text \<open>
  C8. The token of a pool does not expire in the cluster. Let a turn of the secret updater take at most \<open>d\<close> and a
  wait at most \<open>d\<close> longer than it should, let the tokens of GitHub be valid for more than six minutes, and let no
  more than \<open>N\<close> turns in a row fail, where \<open>N\<close> minutes and the delays of the turns fit into five minutes. Let the
  secret in the beginning not claim more than its token gives. Then from the first turn that succeeds, after
  every turn, through the wait and until the end of the next turn, the secret in the API server has in its data, under
  the name that the runner reads, a token that GitHub still accepts.
\<close>

theorem token_never_expires:
  assumes "timed_world valid_until io sleep u clock stored life d" and "6 * Minute + 2 * Second \<le> life" and "0 \<le> d"
    and "int N * Minute + (2 * int N + 3) * d < 5 * Minute"
    and "turn_ok io u (sleep waitTime w)" and "few_failures io sleep u N (Suc n) 0 waitTime m w"
    and "updater_run io sleep u (Suc n) waitTime m w = (waitTime', m', w')"
    and "honest valid_until (stored w)"
  shows "\<exists>tok. gm_get (sec_Data (stored w')) RunnerTokenFileName = Some tok \<and> clock w' < valid_until tok \<and>
    clock (sleep waitTime' w') < valid_until tok \<and>
    clock (snd (snd (updater_step io u m' (sleep waitTime' w')))) < valid_until tok"
proof -
  obtain t1 m1 w1 where step: "updater_step io u m (sleep waitTime w) = (t1, m1, w1)" by (metis prod_cases3)
  have first: "on_time clock stored d 0 t1 w1" by (rule on_time_step(1) [OF assms(1) step assms(2,3,5)])
  have "few_failures io sleep u N n 0 t1 m1 w1" using assms(5,6) step by simp
  moreover have "updater_run io sleep u n t1 m1 w1 = (waitTime', m', w')" using assms(7) step by simp
  ultimately obtain c where c: "c \<le> N" "on_time clock stored d c waitTime' w'"
    using updater_run_on_time [OF assms(1-3) first] by blast
  obtain e where e: "expiry (stored w') = Some e" "clock w' < e" "clock (sleep waitTime' w') + d < e"
    using on_time_valid [OF assms(1) c(2,1) assms(3,4)] by blast
  obtain t2 m2 w2 where "updater_step io u m' (sleep waitTime' w') = (t2, m2, w2)" by (metis prod_cases3)
  then have "clock (snd (snd (updater_step io u m' (sleep waitTime' w')))) < e"
    using e timed_worldD(6) [OF assms(1), of m' "sleep waitTime' w'"] by auto
  with e assms(3) updater_run_honest [OF assms(1,8,7)] show ?thesis by (fastforce simp: honest_def)
qed

text \<open>The clocked world of \<open>Secret_Updater\<close>, in which the text of a token states until when it is accepted.\<close>

definition clocked_sleep :: "duration \<Rightarrow> secret \<times> time \<Rightarrow> secret \<times> time" where
  "clocked_sleep t w = (fst w, snd w + max 0 t)"

definition stated_expiry :: "string \<Rightarrow> time" where
  "stated_expiry tok = int (digits_val 0 tok)"

lemma clocked_clock: "snd (snd (snd (updater_step clocked_io clocked_updater m w))) = snd w"
  by (auto simp: updater_step_def clocked_simps updateSecret_def case_prod_beta split: sum.splits option.splits)

lemma clocked_stored_pair: "clocked_stored (fst w, t) = clocked_stored w"
  by (simp add: clocked_stored_def)

lemma clocked_world: "timed_world stated_expiry clocked_io clocked_sleep clocked_updater snd clocked_stored Hour 0"
proof -
  have "0 \<le> t \<Longrightarrow> t + Hour \<le> stated_expiry (utoa (nat (t + Hour)))" for t
    using utoa_spec [of "nat (t + Hour)"] by (simp add: stated_expiry_def)
  then show ?thesis
    unfolding timed_world_def clocked_simps clocked_clock
    by (auto simp: clocked_stored_wf clocked_admits clocked_sleep_def clocked_stored_pair split: if_splits)
qed

lemma clocked_turn_ok:
  assumes "0 \<le> snd w" "rfc3339_range (snd w + Hour)"
  shows "turn_ok clocked_io clocked_updater w"
  using assms by (simp add: turn_ok_def clocked_simps updateSecret_def secret_wf_token_secret clocked_stored_wf)

theorem token_never_expires_witness:
  "\<exists>t m' w' tok. updater_run clocked_io clocked_sleep clocked_updater 2 Second InitControllerMetrics (empty_secret, 1000 * Hour) = (t, m', w') \<and>
     gm_get (sec_Data (clocked_stored w')) RunnerTokenFileName = Some tok \<and> snd w' < stated_expiry tok"
proof -
  let ?w = "(empty_secret, 1000 * Hour)" and ?m = InitControllerMetrics
  obtain t m' w' where run: "updater_run clocked_io clocked_sleep clocked_updater (Suc 1) Second ?m ?w = (t, m', w')"
    by (metis prod_cases3)
  have ok: "turn_ok clocked_io clocked_updater w" if "1000 * Hour \<le> snd w" "snd w \<le> 2000 * Hour" for w
    using that by (intro clocked_turn_ok rfc3339_rangeI) (simp_all add: duration_defs)
  let ?v = "clocked_sleep Second ?w"
  have v: "snd ?v = 1000 * Hour + Second" "clocked_stored ?v = empty_secret"
    by (simp_all add: clocked_sleep_def clocked_stored_def empty_secret_def Second_def)
  then have okv: "turn_ok clocked_io clocked_updater ?v" by (intro ok) (simp_all add: duration_defs)
  obtain t1 m1 w1 where step: "updater_step clocked_io clocked_updater ?m ?v = (t1, m1, w1)" by (metis prod_cases3)
  have "fst (needUpdate empty_secret c)" for c by (simp add: needUpdate_def empty_secret_def empty_meta_def)
  then have "t1 = Second"
    using step okv v by (auto simp: updater_step_def turn_ok_def clocked_simps case_prod_beta split: sum.splits)
  moreover have "snd w1 = snd ?v" using clocked_clock [of ?m ?v] step by simp
  ultimately have "turn_ok clocked_io clocked_updater (clocked_sleep t1 w1)"
    using v by (intro ok) (simp_all add: clocked_sleep_def duration_defs)
  then have "few_failures clocked_io clocked_sleep clocked_updater 4 (Suc 1) 0 Second ?m ?w"
    using okv step by (simp add: case_prod_beta)
  moreover have "honest stated_expiry (clocked_stored ?w)"
    by (simp add: honest_def clocked_stored_def expiry_def empty_secret_def empty_meta_def)
  ultimately show ?thesis
    using token_never_expires [OF clocked_world, of 4 Second ?w 1 ?m t m' w'] run okv
    by (auto simp: duration_defs numeral_2_eq_2)
qed

end
