(* ===== verification/Manager_Goroutines.thy ===== *)
theory Manager_Goroutines
  imports Controller_System
begin

section \<open>The runner manager with its goroutines\<close>

text \<open>
  \<open>Controller_System\<close> takes a round of a process as one step. In the program a round is a sequence of calls to
  Kubernetes, to GitHub and to the pods, and anything may happen between two of them: other processes go on,
  the reconciler changes the configuration of this very process, or stops it and waits. Here the goroutine
  of a process is a machine with a program counter (\<open>phase\<close>), and \<open>StartOrUpdate\<close>, \<open>Stop\<close> and \<open>StopAll\<close> hold the
  mutex of the manager while they wait for goroutines to end. Every call of the metrics package is a step of its
  own, so that the states in the middle of \<open>updateMetrics\<close> and of \<open>deleteMetrics\<close> are states of the machine. What
  \<open>runOnce\<close> does is a run of the machine (\<open>runOnce_steps\<close>), and the books of the metrics are right in every
  reachable state.
\<close>

subsection \<open>The goroutine of a process\<close>

text \<open>
  \<open>Maintaining\<close> holds the copy of the configuration that \<open>maintainRunnerPods\<close> makes under the mutex of the process,
  the pods that are done and the pods that are left. \<open>Updating\<close> is inside \<open>updateMetrics\<close>, after the gauge of the pool
  has been set: it holds the runners whose series have been set and those that are left. \<open>RunnersGone\<close> is inside
  \<open>deleteMetrics\<close>, between its two calls.
\<close>

datatype 'w phase =
    Idle
  | HasPods "kpod list"
  | HasRunners "kpod list" "gh_runner list"
  | Updating "kpod list" "gh_runner list" "gh_runner list"
  | Measured "kpod list" "gh_runner list"
  | Maintaining time time "'w manage_process" "gh_runner list" int32 "kpod list" "kpod list"
  | Cleaning "gh_runner list" "kpod list"
  | Exited
  | RunnersGone
  | MetricsGone
  | Finished

text \<open>
  The loop over the pods reads \<open>denyDisruption\<close> and the URL of the Slack agent from the process itself, the rest
  of the configuration from the copy.
\<close>

definition live :: "'w manage_process \<Rightarrow> 'w manage_process \<Rightarrow> 'w manage_process" where
  "live snapshot p = snapshot\<lparr>p_denyDisruption := p_denyDisruption p, p_serverURL := p_serverURL p\<rparr>"

type_synonym 'w gstate = "'w phase \<times> 'w manage_process \<times> controller_metrics \<times> 'w"

inductive goroutine :: "'w manager_io \<Rightarrow> bool \<Rightarrow> 'w gstate \<Rightarrow> 'w gstate \<Rightarrow> bool" for io cancelled where
  g_tick_failed: "fetchRunnerPods io p w = (Inl e, w') \<Longrightarrow> goroutine io cancelled (Idle, p, m, w) (Idle, p, m, w')"
| g_tick: "fetchRunnerPods io p w = (Inr pods, w') \<Longrightarrow> goroutine io cancelled (Idle, p, m, w) (HasPods pods, p, m, w')"
| g_exit: "cancelled \<Longrightarrow> goroutine io cancelled (Idle, p, m, w) (Exited, p, m, w)"
| g_runners_failed: "fetchRunners p w = Some (Inl e, w') \<Longrightarrow>
     goroutine io cancelled (HasPods pods, p, m, w) (Idle, p, m, w')"
| g_runners: "fetchRunners p w = Some (Inr rs, w') \<Longrightarrow>
     goroutine io cancelled (HasPods pods, p, m, w) (HasRunners pods rs, p, m, w')"
| g_replicas: "goroutine io cancelled (HasRunners pods rs, p, m, w)
     (Updating pods [] rs, p, UpdateRunnerPoolMetrics (rpNamespacedName p) (sint (p_replicas p)) m, w)"
| g_runner: "goroutine io cancelled (Updating pods ms (r # todo), p, m, w)
     (Updating pods (ms @ [r]) todo, p, UpdateRunnerMetrics (rpNamespacedName p) (r_Name r) (r_Online r) (r_Busy r) m, w)"
| g_measured: "goroutine io cancelled (Updating pods rs [], p, m, w)
     (Measured pods rs, p\<lparr>p_prevRunnerNames := map r_Name rs\<rparr>,
      DeleteRunnerMetrics (rpNamespacedName p) (difference (p_prevRunnerNames p) (map r_Name rs)) m, w)"
| g_maintain: "m_now io w = (now, w') \<Longrightarrow>
     goroutine io cancelled (Measured pods rs, p, m, w)
       (Maintaining now (p_lastCheckTime p) (p\<lparr>p_lastCheckTime := now\<rparr>) rs (numRemovable p pods) [] pods,
        p\<lparr>p_lastCheckTime := now\<rparr>, m, w')"
| g_pod: "maintain_pod io (live snapshot p) now lct rs po n w = Returns (po', n', w') \<Longrightarrow>
     goroutine io cancelled (Maintaining now lct snapshot rs n ready (po # todo), p, m, w)
       (Maintaining now lct snapshot rs n' (ready @ [po']) todo, p, m, w')"
| g_maintained: "goroutine io cancelled (Maintaining now lct snapshot rs n ready [], p, m, w) (Cleaning rs ready, p, m, w)"
| g_keep: "r_Online r \<or> podExists (r_Name r) pods \<Longrightarrow>
     goroutine io cancelled (Cleaning (r # rs) pods, p, m, w) (Cleaning rs pods, p, m, w)"
| g_remove: "\<not> (r_Online r \<or> podExists (r_Name r) pods) \<Longrightarrow>
     ghc_RemoveRunner (p_githubClient p) (p_owner p) (p_repo p) (r_ID r) w = (None, w') \<Longrightarrow>
     goroutine io cancelled (Cleaning (r # rs) pods, p, m, w) (Cleaning rs pods, p, m, w')"
| g_remove_failed: "\<not> (r_Online r \<or> podExists (r_Name r) pods) \<Longrightarrow>
     ghc_RemoveRunner (p_githubClient p) (p_owner p) (p_repo p) (r_ID r) w = (Some e, w') \<Longrightarrow>
     goroutine io cancelled (Cleaning (r # rs) pods, p, m, w) (Idle, p, m, w')"
| g_cleaned: "goroutine io cancelled (Cleaning [] pods, p, m, w) (Idle, p, m, w)"
| g_delete_runners: "goroutine io cancelled (Exited, p, m, w)
     (RunnersGone, p, DeleteAllRunnerMetrics (rpNamespacedName p) m, w)"
| g_delete_pool: "goroutine io cancelled (RunnersGone, p, m, w)
     (MetricsGone, p, DeleteRunnerPoolMetrics (rpNamespacedName p) m, w)"
| g_finish: "deleteAllRunners p w = Some (e, w') \<Longrightarrow>
     goroutine io cancelled (MetricsGone, p, m, w) (Finished, p, m, w')"

inductive_cases goroutine_cases: "goroutine io cancelled (ph, p, m, w) s'"

inductive goroutine_run :: "'w manager_io \<Rightarrow> bool \<Rightarrow> 'w gstate \<Rightarrow> 'w gstate \<Rightarrow> bool" for io cancelled where
  run_refl: "goroutine_run io cancelled s s"
| run_step: "goroutine io cancelled s s' \<Longrightarrow> goroutine_run io cancelled s' s'' \<Longrightarrow> goroutine_run io cancelled s s''"

lemma live_self [simp]: "live p p = p"
  by (simp add: live_def)

lemma live_process [simp]: "live (p\<lparr>p_lastCheckTime := now\<rparr>) (p\<lparr>p_lastCheckTime := now\<rparr>) = p\<lparr>p_lastCheckTime := now\<rparr>"
  by simp

lemma numRemovable_lastCheck [simp]: "numRemovable (p\<lparr>p_lastCheckTime := t\<rparr>) pods = numRemovable p pods"
  by (simp add: numRemovable_def)

lemma goroutine_run_trans:
  "goroutine_run io cancelled s s' \<Longrightarrow> goroutine_run io cancelled s' s'' \<Longrightarrow> goroutine_run io cancelled s s''"
  by (induction rule: goroutine_run.induct) (auto intro: run_step)

lemma Updating_steps:
  "goroutine_run io cancelled (Updating pods ms rs, p, m, w)
     (Updating pods (ms @ rs) [], p,
      fold (\<lambda>r. UpdateRunnerMetrics (rpNamespacedName p) (r_Name r) (r_Online r) (r_Busy r)) rs m, w)"
proof (induction rs arbitrary: ms m)
  case (Cons r rs)
  from run_step [OF g_runner Cons.IH [of "ms @ [r]"]] show ?case by simp
qed (simp add: run_refl)

lemma updateMetrics_steps:
  assumes "updateMetrics p rs m = (p', m')"
  shows "goroutine_run io cancelled (HasRunners pods rs, p, m, w) (Measured pods rs, p', m', w)"
  using assms
  by (auto simp: updateMetrics_def Let_def
      intro!: run_step [OF g_replicas goroutine_run_trans [OF Updating_steps [where ms = "[]", simplified] run_step [OF g_measured run_refl]]])

text \<open>The end of a process: the two calls of \<open>deleteMetrics\<close>, then the runners are removed.\<close>

lemma finish_process_steps:
  assumes "finish_process p m w = Some (m', w')"
  shows "goroutine_run io cancelled (Exited, p, m, w) (Finished, p, m', w')"
  using assms
  by (auto simp: finish_process_def deleteMetrics_def split: option.splits
      intro!: run_step [OF g_delete_runners run_step [OF g_delete_pool run_step [OF g_finish run_refl]]])

lemma maintain_loop_steps:
  "maintain_loop io p now lct rs todo n w = Returns (pods', w') \<Longrightarrow>
     goroutine_run io cancelled (Maintaining now lct p rs n ready todo, p, m, w) (Cleaning rs (ready @ pods'), p, m, w')"
proof (induction todo arbitrary: n w ready pods')
  case Nil
  then show ?case by (auto intro: run_step [OF g_maintained run_refl])
next
  case (Cons po todo)
  then obtain po' n' w1 pods1 where po: "maintain_pod io p now lct rs po n w = Returns (po', n', w1)"
    and rest: "maintain_loop io p now lct rs todo n' w1 = Returns (pods1, w')" "pods' = po' # pods1"
    by (auto split: outcome.splits)
  have "goroutine io cancelled (Maintaining now lct p rs n ready (po # todo), p, m, w)
      (Maintaining now lct p rs n' (ready @ [po']) todo, p, m, w1)"
    by (rule g_pod) (simp add: po)
  from run_step [OF this Cons.IH [OF rest(1)]] show ?case by (simp add: rest(2))
qed

lemma deleteOfflineRunners_steps:
  "deleteOfflineRunners p rs pods w = (e, w') \<Longrightarrow>
     goroutine_run io cancelled (Cleaning rs pods, p, m, w) (Idle, p, m, w')"
proof (induction rs arbitrary: w)
  case Nil
  then show ?case by (auto intro: run_step [OF g_cleaned run_refl])
next
  case (Cons r rs)
  show ?case
  proof (cases "r_Online r \<or> podExists (r_Name r) pods")
    case True
    with Cons.prems have "deleteOfflineRunners p rs pods w = (e, w')" by auto
    then show ?thesis by (rule run_step [OF g_keep [OF True] Cons.IH])
  next
    case False
    obtain q w1 where q: "ghc_RemoveRunner (p_githubClient p) (p_owner p) (p_repo p) (r_ID r) w = (q, w1)" by fastforce
    show ?thesis
    proof (cases q)
      case None
      with Cons.prems False q have "deleteOfflineRunners p rs pods w1 = (e, w')" by simp
      then show ?thesis using False q None by (auto intro: run_step [OF g_remove Cons.IH])
    next
      case (Some x)
      with Cons.prems False q show ?thesis by (auto intro: run_step [OF g_remove_failed run_refl])
    qed
  qed
qed

text \<open>If a round returns, the machine takes its goroutine there, whether or not it has been cancelled meanwhile.\<close>

lemma runOnce_steps:
  assumes "runOnce io p m w = Some (Returns (e, p', m', w'))"
  shows "goroutine_run io cancelled (Idle, p, m, w) (Idle, p', m', w')"
proof -
  obtain r w1 where r: "fetchRunnerPods io p w = (r, w1)" by fastforce
  show ?thesis
  proof (cases r)
    case (Inl x)
    with assms r show ?thesis by (auto simp: runOnce_def intro: run_step [OF g_tick_failed run_refl])
  next
    case (Inr pods)
    obtain q w2 where q: "fetchRunners p w1 = Some (q, w2)"
      using assms r Inr by (auto simp: runOnce_def split: option.splits)
    note to_pods = g_tick [OF r [unfolded Inr], of cancelled m]
    show ?thesis
    proof (cases q)
      case (Inl x)
      then have "p' = p" "m' = m" "w' = w2" using assms r \<open>r = Inr pods\<close> q by (auto simp: runOnce_def)
      then show ?thesis using run_step [OF to_pods run_step [OF g_runners_failed [OF q [unfolded Inl]] run_refl]] by simp
    next
      case (Inr rs)
      obtain p1 m1 where u: "updateMetrics p rs m = (p1, m1)" by fastforce
      let ?t = "fst (m_now io w2)" and ?w = "snd (m_now io w2)"
      let ?p = "p1\<lparr>p_lastCheckTime := ?t\<rparr>"
      obtain pods' p2 w3 where mt: "maintainRunnerPods io p1 rs pods w2 = Returns (pods', p2, w3)"
        using assms r \<open>r = Inr pods\<close> q Inr u by (auto simp: runOnce_def split: outcome.splits)
      then have loop: "maintain_loop io ?p ?t (p_lastCheckTime p1) rs pods (numRemovable ?p pods) ?w = Returns (pods', w3)"
        and p2: "p2 = ?p"
        by (auto simp: maintainRunnerPods_def Let_def case_prod_beta split: outcome.splits)
      obtain x where off: "deleteOfflineRunners p2 rs pods' w3 = (x, w')" "p' = p2" "m' = m1"
        using assms r \<open>r = Inr pods\<close> q Inr u mt by (auto simp: runOnce_def split: prod.splits)
      have last: "goroutine_run io cancelled (Maintaining ?t (p_lastCheckTime p1) ?p rs (numRemovable p1 pods) [] pods, ?p, m1, ?w)
          (Idle, p', m', w')"
        using goroutine_run_trans [OF maintain_loop_steps [OF loop] deleteOfflineRunners_steps] off p2 by simp
      have start: "goroutine io cancelled (Measured pods rs, p1, m1, w2)
          (Maintaining ?t (p_lastCheckTime p1) ?p rs (numRemovable p1 pods) [] pods, ?p, m1, ?w)"
        by (rule g_maintain) simp
      show ?thesis
        by (rule run_step [OF to_pods run_step [OF g_runners [OF q [unfolded Inr]]
              goroutine_run_trans [OF updateMetrics_steps [OF u] run_step [OF start last]]]])
    qed
  qed
qed

subsection \<open>The manager\<close>

record 'w process_state =
  g_phase :: "'w phase"
  g_proc :: "'w manage_process"
  g_cancelled :: bool

text \<open>Who holds the mutex of the manager across a step: nobody, or a caller that waits for a goroutine to end.\<close>

datatype holder = Free | Stopping string | StoppingAll "string list"

record 'w rm_sys =
  y_stopped :: bool
  y_holder :: holder
  y_procs :: "(string \<times> 'w process_state) list"
  y_metrics :: controller_metrics
  y_world :: 'w

definition manager_view :: "'w rm_sys \<Rightarrow> 'w rm_state" where
  "manager_view y = \<lparr>rm_stopped = y_stopped y, rm_processes = map (\<lambda>(k, g). (k, g_proc g)) (y_procs y),
     rm_metrics = y_metrics y, rm_world = y_world y\<rparr>"

text \<open>After \<open>StartOrUpdate\<close>: a new process begins idle, an old one goes on where it is.\<close>

definition with_procs :: "'w rm_sys \<Rightarrow> (string \<times> 'w manage_process) list \<Rightarrow> (string \<times> 'w process_state) list" where
  "with_procs y ps =
     map (\<lambda>(k, p). (k, case map_of (y_procs y) k of
            None \<Rightarrow> \<lparr>g_phase = Idle, g_proc = p, g_cancelled = False\<rparr>
          | Some g \<Rightarrow> g\<lparr>g_proc := p\<rparr>)) ps"

definition cancel :: "'w process_state \<Rightarrow> 'w process_state" where
  "cancel g = g\<lparr>g_cancelled := True, g_proc := (g_proc g)\<lparr>p_running := False\<rparr>\<rparr>"

text \<open>\<open>p_running\<close> says that \<open>cancel\<close> of the process is not nil, as in the other theories.\<close>

inductive rm_sys_step ::
    "'w factory \<Rightarrow> 'w manager_io \<Rightarrow> (string \<Rightarrow> string option) \<Rightarrow> 'w rm_sys \<Rightarrow> 'w rm_sys \<Rightarrow> bool" for fac io wait where
  y_start: "y_holder y = Free \<Longrightarrow> rm_StartOrUpdate fac io a (manager_view y) = Some (e, s') \<Longrightarrow>
     rm_sys_step fac io wait y (y\<lparr>y_procs := with_procs y (rm_processes s'), y_world := rm_world s'\<rparr>)"
| y_stop: "y_holder y = Free \<Longrightarrow> map_of (y_procs y) k = Some g \<Longrightarrow> p_running (g_proc g) \<Longrightarrow>
     rm_sys_step fac io wait y (y\<lparr>y_procs := AList.update k (cancel g) (y_procs y), y_holder := Stopping k\<rparr>)"
| y_stop_again: "y_holder y = Free \<Longrightarrow> map_of (y_procs y) k = Some g \<Longrightarrow> \<not> p_running (g_proc g) \<Longrightarrow>
     rm_sys_step fac io wait y (y\<lparr>y_procs := AList.delete k (y_procs y)\<rparr>)"
| y_stopped: "y_holder y = Stopping k \<Longrightarrow> map_of (y_procs y) k = Some g \<Longrightarrow> g_phase g = Finished \<Longrightarrow> wait k = None \<Longrightarrow>
     rm_sys_step fac io wait y (y\<lparr>y_procs := AList.delete k (y_procs y), y_holder := Free\<rparr>)"
| y_stop_failed: "y_holder y = Stopping k \<Longrightarrow> map_of (y_procs y) k = Some g \<Longrightarrow> g_phase g = Finished \<Longrightarrow> wait k = Some e \<Longrightarrow>
     rm_sys_step fac io wait y (y\<lparr>y_holder := Free\<rparr>)"
| y_stopAll: "y_holder y = Free \<Longrightarrow> rm_sys_step fac io wait y (y\<lparr>y_holder := StoppingAll (map fst (y_procs y))\<rparr>)"
| y_stop_next: "y_holder y = StoppingAll (k # ks) \<Longrightarrow> map_of (y_procs y) k = Some g \<Longrightarrow> p_running (g_proc g) \<Longrightarrow>
     rm_sys_step fac io wait y (y\<lparr>y_procs := AList.update k (cancel g) (y_procs y)\<rparr>)"
| y_next_stopped: "y_holder y = StoppingAll (k # ks) \<Longrightarrow> map_of (y_procs y) k = Some g \<Longrightarrow> g_phase g = Finished \<Longrightarrow>
     rm_sys_step fac io wait y (y\<lparr>y_holder := StoppingAll ks\<rparr>)"
| y_all_stopped: "y_holder y = StoppingAll [] \<Longrightarrow>
     rm_sys_step fac io wait y (y\<lparr>y_procs := [], y_stopped := True, y_holder := Free\<rparr>)"
| y_goroutine: "map_of (y_procs y) k = Some g \<Longrightarrow>
     goroutine io (g_cancelled g) (g_phase g, g_proc g, y_metrics y, y_world y) (ph', p', m', w') \<Longrightarrow>
     rm_sys_step fac io wait y
       (y\<lparr>y_procs := AList.update k (g\<lparr>g_phase := ph', g_proc := p'\<rparr>) (y_procs y), y_metrics := m', y_world := w'\<rparr>)"
| y_world: "rm_sys_step fac io wait y (y\<lparr>y_world := w'\<rparr>)"

inductive rm_sys_steps ::
    "'w factory \<Rightarrow> 'w manager_io \<Rightarrow> (string \<Rightarrow> string option) \<Rightarrow> 'w rm_sys \<Rightarrow> 'w rm_sys \<Rightarrow> bool" for fac io wait y0 where
  sys_refl: "rm_sys_steps fac io wait y0 y0"
| sys_next: "rm_sys_steps fac io wait y0 y \<Longrightarrow> rm_sys_step fac io wait y y' \<Longrightarrow> rm_sys_steps fac io wait y0 y'"

definition new_rm_sys :: "controller_metrics \<Rightarrow> 'w \<Rightarrow> 'w rm_sys" where
  "new_rm_sys m w = \<lparr>y_stopped = False, y_holder = Free, y_procs = [], y_metrics = m, y_world = w\<rparr>"

subsection \<open>The books\<close>

text \<open>
  The runners whose series are exported: those of the last listing; inside \<open>updateMetrics\<close> also those of the new
  listing that it has come to; none once the goroutine has deleted them. The gauge of the pool must be there when
  a runner is shown and inside \<open>updateMetrics\<close>.
\<close>

fun shown :: "'w phase \<Rightarrow> 'w manage_process \<Rightarrow> string set" where
  "shown (Updating pods ms todo) p = set (p_prevRunnerNames p) \<union> set (map r_Name ms)"
| "shown RunnersGone p = {}"
| "shown MetricsGone p = {}"
| "shown Finished p = {}"
| "shown _ p = set (p_prevRunnerNames p)"

fun gauge_due :: "'w phase \<Rightarrow> 'w manage_process \<Rightarrow> bool" where
  "gauge_due (Updating pods ms todo) p = True"
| "gauge_due ph p = (shown ph p \<noteq> {})"

lemma shown_cong: "p_prevRunnerNames p = p_prevRunnerNames q \<Longrightarrow> shown ph p = shown ph q"
  by (cases ph) simp_all

lemma gauge_due_cong: "p_prevRunnerNames p = p_prevRunnerNames q \<Longrightarrow> gauge_due ph p = gauge_due ph q"
  by (cases ph) simp_all

lemma shown_running [simp]:
  "shown ph (p\<lparr>p_running := b\<rparr>) = shown ph p" "gauge_due ph (p\<lparr>p_running := b\<rparr>) = gauge_due ph p"
  by (rule shown_cong, simp) (rule gauge_due_cong, simp)

lemma gauge_due_shown: "shown ph p \<noteq> {} \<Longrightarrow> gauge_due ph p"
  by (cases ph) simp_all

lemma gauge_due_not_gone: "gauge_due ph p \<Longrightarrow> ph \<notin> {RunnersGone, MetricsGone, Finished}"
  by (cases ph) simp_all

fun metrics_gone :: "'w phase \<Rightarrow> bool" where
  "metrics_gone MetricsGone = True"
| "metrics_gone Finished = True"
| "metrics_gone _ = False"

definition sys_book :: "'w rm_sys \<Rightarrow> bool" where
  "sys_book y \<longleftrightarrow>
     distinct (map fst (y_procs y)) \<and> metrics_wf (y_metrics y) \<and>
     (\<forall>k g. map_of (y_procs y) k = Some g \<longrightarrow>
        rpNamespacedName (g_proc g) = k \<and> (g_cancelled g \<longleftrightarrow> \<not> p_running (g_proc g)) \<and>
        (g_phase g \<in> {Exited, RunnersGone, MetricsGone, Finished} \<longrightarrow> g_cancelled g)) \<and>
     (\<forall>k. labelled (y_metrics y) k = (case map_of (y_procs y) k of
        Some g \<Rightarrow> shown (g_phase g) (g_proc g) | None \<Rightarrow> {})) \<and>
     (\<forall>k. runnerPoolReplicas (y_metrics y) k \<noteq> None \<longrightarrow>
        (\<exists>g. map_of (y_procs y) k = Some g \<and> \<not> metrics_gone (g_phase g))) \<and>
     (\<forall>k g. map_of (y_procs y) k = Some g \<and> gauge_due (g_phase g) (g_proc g) \<longrightarrow>
        runnerPoolReplicas (y_metrics y) k \<noteq> None)"

lemma sys_bookD:
  assumes "sys_book y"
  shows "distinct (map fst (y_procs y))" "metrics_wf (y_metrics y)"
    and "map_of (y_procs y) k = Some g \<Longrightarrow> rpNamespacedName (g_proc g) = k"
    and "map_of (y_procs y) k = Some g \<Longrightarrow> g_cancelled g \<longleftrightarrow> \<not> p_running (g_proc g)"
    and "map_of (y_procs y) k = Some g \<Longrightarrow> g_phase g \<in> {Exited, RunnersGone, MetricsGone, Finished} \<Longrightarrow> g_cancelled g"
    and "labelled (y_metrics y) k = (case map_of (y_procs y) k of
        Some g \<Rightarrow> shown (g_phase g) (g_proc g) | None \<Rightarrow> {})"
    and "runnerPoolReplicas (y_metrics y) k \<noteq> None \<Longrightarrow> \<exists>g. map_of (y_procs y) k = Some g \<and> \<not> metrics_gone (g_phase g)"
    and "map_of (y_procs y) k = Some g \<Longrightarrow> gauge_due (g_phase g) (g_proc g) \<Longrightarrow> runnerPoolReplicas (y_metrics y) k \<noteq> None"
  using assms unfolding sys_book_def by blast+

text \<open>What a step of a goroutine does to the metrics: it measures, it deletes, or it leaves them alone.\<close>

lemma goroutine_effect:
  assumes "goroutine io cancelled (ph, p, m, w) (ph', p', m', w')" and "metrics_wf m"
    and "labelled m (rpNamespacedName p) = shown ph p"
    and "metrics_gone ph \<Longrightarrow> runnerPoolReplicas m (rpNamespacedName p) = None"
    and "gauge_due ph p \<Longrightarrow> runnerPoolReplicas m (rpNamespacedName p) \<noteq> None"
  shows "metrics_wf m' \<and> rpNamespacedName p' = rpNamespacedName p \<and> p_running p' = p_running p \<and>
    labelled m' = (labelled m)(rpNamespacedName p := shown ph' p') \<and>
    (\<forall>k. k \<noteq> rpNamespacedName p \<longrightarrow> runnerPoolReplicas m' k = runnerPoolReplicas m k) \<and>
    (metrics_gone ph' \<longrightarrow> runnerPoolReplicas m' (rpNamespacedName p) = None) \<and>
    (gauge_due ph' p' \<longrightarrow> runnerPoolReplicas m' (rpNamespacedName p) \<noteq> None) \<and>
    (ph' \<in> {Exited, RunnersGone, MetricsGone, Finished} \<longrightarrow> cancelled \<or> ph \<in> {Exited, RunnersGone, MetricsGone, Finished})"
  using assms
proof (cases rule: goroutine.cases)
  case (g_measured pods rs)
  have "set prev \<union> r_Name ` set rs - (set prev - r_Name ` set rs) = r_Name ` set rs" for prev by auto
  with g_measured assms(2,3,5) show ?thesis
    by (simp add: labelled_DeleteRunnerMetrics metrics_wf_DeleteRunnerMetrics set_difference frame_simps)
      (simp add: rpNamespacedName_def)
qed (use assms in \<open>auto simp: fun_upd_idem rpNamespacedName_def metrics_wf_ops labelled_UpdateRunnerMetrics
    labelled_DeleteAllRunnerMetrics frame_simps\<close>)

subsection \<open>The books stay right\<close>

text \<open>
  Beside the books: only the goroutine that the holder of the mutex waits for is cancelled and not yet
  finished, and those that \<open>StopAll\<close> has passed are finished.
\<close>

definition sys_inv :: "'w rm_sys \<Rightarrow> bool" where
  "sys_inv y \<longleftrightarrow> sys_book y \<and>
     (\<forall>k g. map_of (y_procs y) k = Some g \<and> g_cancelled g \<and> g_phase g \<noteq> Finished \<longrightarrow>
        y_holder y = Stopping k \<or> (\<exists>ks. y_holder y = StoppingAll (k # ks))) \<and>
     (\<forall>ks. y_holder y = StoppingAll ks \<longrightarrow>
        (\<forall>k g. map_of (y_procs y) k = Some g \<and> k \<notin> set ks \<longrightarrow> g_phase g = Finished))"

lemma sys_invD:
  assumes "sys_inv y"
  shows "sys_book y"
    and "map_of (y_procs y) k = Some g \<Longrightarrow> g_cancelled g \<Longrightarrow> g_phase g \<noteq> Finished \<Longrightarrow>
      y_holder y = Stopping k \<or> (\<exists>ks. y_holder y = StoppingAll (k # ks))"
    and "y_holder y = StoppingAll ks \<Longrightarrow> map_of (y_procs y) k = Some g \<Longrightarrow> k \<notin> set ks \<Longrightarrow> g_phase g = Finished"
  using assms unfolding sys_inv_def by blast+

text \<open>The books when the state of one process changes, and the metrics of its pool with it.\<close>

lemma sys_book_update:
  assumes book: "sys_book y" and k: "map_of (y_procs y) k = Some g"
    and g': "rpNamespacedName (g_proc g') = k" "g_cancelled g' \<longleftrightarrow> \<not> p_running (g_proc g')"
      "g_phase g' \<in> {Exited, RunnersGone, MetricsGone, Finished} \<Longrightarrow> g_cancelled g'"
    and m': "metrics_wf m'"
      "labelled m' = (labelled (y_metrics y))(k := shown (g_phase g') (g_proc g'))"
      "\<And>j. j \<noteq> k \<Longrightarrow> runnerPoolReplicas m' j = runnerPoolReplicas (y_metrics y) j"
      "metrics_gone (g_phase g') \<Longrightarrow> runnerPoolReplicas m' k = None"
      "gauge_due (g_phase g') (g_proc g') \<Longrightarrow> runnerPoolReplicas m' k \<noteq> None"
    and y': "y_procs y' = AList.update k g' (y_procs y)" "y_metrics y' = m'"
  shows "sys_book y'"
  unfolding sys_book_def y'
proof (intro conjI allI impI)
  note b = sys_bookD [OF book]
  show "distinct (map fst (AList.update k g' (y_procs y)))" using b(1) by (rule AList.distinct_update)
  show "metrics_wf m'" by fact
  fix j h
  show "labelled m' j = (case map_of (AList.update k g' (y_procs y)) j of
      Some g \<Rightarrow> shown (g_phase g) (g_proc g) | None \<Rightarrow> {})"
    using b(6) [of j] m'(2) by (simp add: AList.update_conv)
  { assume "map_of (AList.update k g' (y_procs y)) j = Some h"
    then have "j = k \<and> h = g' \<or> map_of (y_procs y) j = Some h" by (auto simp: AList.update_conv split: if_splits)
    then show "rpNamespacedName (g_proc h) = j" "g_cancelled h \<longleftrightarrow> \<not> p_running (g_proc h)"
      "g_phase h \<in> {Exited, RunnersGone, MetricsGone, Finished} \<Longrightarrow> g_cancelled h"
      using b(3-5) g' by blast+ }
  { assume "map_of (AList.update k g' (y_procs y)) j = Some h \<and> gauge_due (g_phase h) (g_proc h)"
    then show "runnerPoolReplicas m' j \<noteq> None"
      using b(8) [of j h] m'(3) [of j] m'(5) by (cases "j = k") (auto simp: AList.update_conv) }
  assume "runnerPoolReplicas m' j \<noteq> None"
  then show "\<exists>g. map_of (AList.update k g' (y_procs y)) j = Some g \<and> \<not> metrics_gone (g_phase g)"
    using b(7) [of j] m'(3,4) by (cases "j = k") (auto simp: AList.update_conv)
qed

lemma sys_book_delete:
  assumes book: "sys_book y" and k: "map_of (y_procs y) k = Some g" "g_phase g = Finished"
    and y': "y_procs y' = AList.delete k (y_procs y)" "y_metrics y' = y_metrics y"
  shows "sys_book y'"
proof -
  note b = sys_bookD [OF book]
  have gone: "labelled (y_metrics y) k = {}" "runnerPoolReplicas (y_metrics y) k = None"
    using b(6) [of k] k b(7) [of k] by (simp, metis metrics_gone.simps(2) option.inject)
  show ?thesis
    unfolding sys_book_def y'
  proof (intro conjI allI impI)
    show "distinct (map fst (AList.delete k (y_procs y)))" using b(1) by (rule AList.distinct_delete)
    show "metrics_wf (y_metrics y)" by (rule b(2))
    fix j h
    show "labelled (y_metrics y) j = (case map_of (AList.delete k (y_procs y)) j of
        Some g \<Rightarrow> shown (g_phase g) (g_proc g) | None \<Rightarrow> {})"
      using b(6) [of j] gone(1) by (cases "j = k") (simp_all add: AList.delete_conv)
    { assume "map_of (AList.delete k (y_procs y)) j = Some h"
      then have "map_of (y_procs y) j = Some h" by (auto simp: AList.delete_conv split: if_splits)
      then show "rpNamespacedName (g_proc h) = j" "g_cancelled h \<longleftrightarrow> \<not> p_running (g_proc h)"
        "g_phase h \<in> {Exited, RunnersGone, MetricsGone, Finished} \<Longrightarrow> g_cancelled h"
        using b(3-5) by blast+ }
    { assume "map_of (AList.delete k (y_procs y)) j = Some h \<and> gauge_due (g_phase h) (g_proc h)"
      then show "runnerPoolReplicas (y_metrics y) j \<noteq> None"
        using b(8) [of j h] by (auto simp: AList.delete_conv split: if_splits) }
    assume "runnerPoolReplicas (y_metrics y) j \<noteq> None"
    then show "\<exists>g. map_of (AList.delete k (y_procs y)) j = Some g \<and> \<not> metrics_gone (g_phase g)"
      using b(7) [of j] gone(2) by (cases "j = k") (auto simp: AList.delete_conv)
  qed
qed

lemma sys_book_cong: "y_procs y' = y_procs y \<Longrightarrow> y_metrics y' = y_metrics y \<Longrightarrow> sys_book y' = sys_book y"
  unfolding sys_book_def by (simp only:)

text \<open>\<open>StartOrUpdate\<close> adds an idle process or changes the configuration of one.\<close>

lemma with_procs_map_of:
  "map_of (with_procs y ps) k = map_option (\<lambda>p. case map_of (y_procs y) k of
     None \<Rightarrow> \<lparr>g_phase = Idle, g_proc = p, g_cancelled = False\<rparr> | Some g \<Rightarrow> g\<lparr>g_proc := p\<rparr>) (map_of ps k)"
proof (induction ps)
  case (Cons kp ps)
  then show ?case by (cases kp) (simp add: with_procs_def)
qed (simp add: with_procs_def)

lemma with_procs_fst: "map fst (with_procs y ps) = map fst ps"
  by (simp add: with_procs_def comp_def case_prod_beta)

lemma view_map_of: "map_of (rm_processes (manager_view y)) k = map_option g_proc (map_of (y_procs y) k)"
  by (simp add: manager_view_def map_of_map comp_def)

lemma start_outcome:
  assumes "rm_StartOrUpdate fac io a (manager_view y) = Some (e, s')" and "sys_book y"
  shows "\<exists>ps. rm_processes s' = ps \<and> distinct (map fst ps) \<and>
    (\<forall>k p. map_of ps k = Some p \<longrightarrow> rpNamespacedName p = k \<and>
       (case map_of (y_procs y) k of
          None \<Rightarrow> p_running p \<and> p_prevRunnerNames p = []
        | Some g \<Rightarrow> p_running p = p_running (g_proc g) \<and> p_prevRunnerNames p = p_prevRunnerNames (g_proc g))) \<and>
    (\<forall>k. map_of (y_procs y) k \<noteq> None \<longrightarrow> map_of ps k \<noteq> None)"
proof -
  note b = sys_bookD [OF assms(2)]
  obtain rp cred where a: "a = (rp, cred)" by fastforce
  let ?s = "manager_view y" and ?k = "pool_key rp"
  have d: "distinct (map fst (rm_processes ?s))" using b(1) by (simp add: manager_view_def comp_def case_prod_beta)
  have same: ?thesis if "rm_processes s' = rm_processes ?s"
    using that d b(3) by (auto simp: view_map_of)
  show ?thesis
  proof (cases "rm_processes s' = rm_processes ?s")
    case False
    then consider (new) gh now p where "map_of (y_procs y) ?k = None"
        "newManageProcess (m_urls io) gh rp now = Returns (Inr p)"
        "rm_processes s' = AList.update ?k (start_process p) (rm_processes ?s)"
      | (old) g x p where "map_of (y_procs y) ?k = Some g" "update_process (m_urls io) rp (g_proc g) = (x, p)"
        "rm_processes s' = AList.update ?k p (rm_processes ?s)"
      using assms(1) unfolding a
      by (auto simp: rm_StartOrUpdate_def Let_def view_map_of split: if_splits option.splits sum.splits prod.splits outcome.splits)
    then show ?thesis
    proof cases
      case new
      have "rpNamespacedName (start_process p) = ?k" "p_prevRunnerNames (start_process p) = []" "p_running (start_process p)"
        using new_process_name [OF new(2)] by (simp_all add: start_process_def rpNamespacedName_def)
      then show ?thesis using new(1,3) d b(3) by (auto simp: AList.update_conv AList.distinct_update view_map_of)
    next
      case old
      note f = update_process_frame [OF old(2)]
      show ?thesis using old(1,3) f d b(3) by (auto simp: AList.update_conv AList.distinct_update view_map_of)
    qed
  qed (rule same)
qed

lemma sys_inv_start:
  assumes "sys_inv y" "y_holder y = Free" "rm_StartOrUpdate fac io a (manager_view y) = Some (e, s')"
  shows "sys_inv (y\<lparr>y_procs := with_procs y (rm_processes s'), y_world := rm_world s'\<rparr>)"
proof -
  note b = sys_bookD [OF sys_invD(1) [OF assms(1)]]
  obtain ps where ps: "rm_processes s' = ps" "distinct (map fst ps)"
    and upd: "\<And>k p. map_of ps k = Some p \<Longrightarrow> rpNamespacedName p = k \<and>
       (case map_of (y_procs y) k of
          None \<Rightarrow> p_running p \<and> p_prevRunnerNames p = []
        | Some g \<Rightarrow> p_running p = p_running (g_proc g) \<and> p_prevRunnerNames p = p_prevRunnerNames (g_proc g))"
    and keep: "\<And>k. map_of (y_procs y) k \<noteq> None \<Longrightarrow> map_of ps k \<noteq> None"
    using start_outcome [OF assms(3) sys_invD(1) [OF assms(1)]] by blast
  let ?qs = "with_procs y ps"
  have new: "map_of (y_procs y) k = None \<and> g = \<lparr>g_phase = Idle, g_proc = p, g_cancelled = False\<rparr> \<or>
      (\<exists>h. map_of (y_procs y) k = Some h \<and> g = h\<lparr>g_proc := p\<rparr>)" if "map_of ?qs k = Some g" "map_of ps k = Some p" for k g p
    using that by (auto simp: with_procs_map_of split: option.splits)
  have src: "\<exists>p. map_of ps k = Some p" if "map_of ?qs k = Some g" for k g
    using that by (auto simp: with_procs_map_of)
  have "sys_book z" if z: "y_procs z = ?qs" "y_metrics z = y_metrics y" for z
    unfolding sys_book_def z
  proof (intro conjI allI impI)
    show "distinct (map fst ?qs)" using ps(2) by (simp add: with_procs_fst)
    show "metrics_wf (y_metrics y)" by (rule b(2))
    fix k g
    { assume g: "map_of ?qs k = Some g"
      then obtain p where p: "map_of ps k = Some p" using src by blast
      note n = new [OF g p] and u = upd [OF p]
      show "rpNamespacedName (g_proc g) = k" using n u by auto
      show "g_cancelled g = (\<not> p_running (g_proc g))" using n u b(4) [of k] by auto
      show "g_phase g \<in> {Exited, RunnersGone, MetricsGone, Finished} \<Longrightarrow> g_cancelled g" using n b(5) [of k] by auto }
    { assume "map_of ?qs k = Some g \<and> gauge_due (g_phase g) (g_proc g)"
      then have g: "map_of ?qs k = Some g" "gauge_due (g_phase g) (g_proc g)" by blast+
      then obtain p where p: "map_of ps k = Some p" using src by blast
      with new [OF g(1) p] upd [OF p] g(2) obtain h where h: "map_of (y_procs y) k = Some h" "g = h\<lparr>g_proc := p\<rparr>"
        "p_prevRunnerNames p = p_prevRunnerNames (g_proc h)" by auto
      have "gauge_due (g_phase h) (g_proc h)" using g(2) gauge_due_cong [OF h(3)] by (simp add: h(2))
      then show "runnerPoolReplicas (y_metrics y) k \<noteq> None" by (rule b(8) [OF h(1)]) }
    show "labelled (y_metrics y) k = (case map_of ?qs k of
        Some g \<Rightarrow> shown (g_phase g) (g_proc g) | None \<Rightarrow> {})"
    proof (cases "map_of ps k")
      case None
      then show ?thesis using b(6) [of k] keep [of k] by (cases "map_of (y_procs y) k") (simp_all add: with_procs_map_of)
    next
      case (Some p)
      show ?thesis
      proof (cases "map_of (y_procs y) k")
        case None
        with Some b(6) [of k] upd [OF Some] show ?thesis by (simp add: with_procs_map_of)
      next
        case (Some h)
        with \<open>map_of ps k = Some p\<close> upd have "p_prevRunnerNames p = p_prevRunnerNames (g_proc h)" by fastforce
        from shown_cong [OF this] Some \<open>map_of ps k = Some p\<close> b(6) [of k] show ?thesis by (simp add: with_procs_map_of)
      qed
    qed
    assume "runnerPoolReplicas (y_metrics y) k \<noteq> None"
    then obtain h where h: "map_of (y_procs y) k = Some h" "\<not> metrics_gone (g_phase h)" using b(7) by blast
    then obtain p where "map_of ps k = Some p" using keep by blast
    with h show "\<exists>g. map_of ?qs k = Some g \<and> \<not> metrics_gone (g_phase g)" by (simp add: with_procs_map_of)
  qed
  moreover have "g_phase g = Finished" if g: "map_of ?qs k = Some g" "g_cancelled g" for k g
  proof -
    obtain p where "map_of ps k = Some p" using src [OF g(1)] by blast
    from new [OF g(1) this] show ?thesis using g(2) sys_invD(2) [OF assms(1), of k] assms(2) by fastforce
  qed
  ultimately show ?thesis using assms(2) by (auto simp: sys_inv_def ps(1))
qed

lemma goroutine_not_finished: "goroutine io cancelled (ph, p, m, w) s' \<Longrightarrow> ph \<noteq> Finished"
  by (auto elim: goroutine.cases)

lemma sys_inv_goroutine:
  assumes inv: "sys_inv y" and k: "map_of (y_procs y) k = Some g"
    and go: "goroutine io (g_cancelled g) (g_phase g, g_proc g, y_metrics y, y_world y) (ph', p', m', w')"
  shows "sys_inv (y\<lparr>y_procs := AList.update k (g\<lparr>g_phase := ph', g_proc := p'\<rparr>) (y_procs y), y_metrics := m', y_world := w'\<rparr>)"
proof -
  note book = sys_invD(1) [OF inv] and b = sys_bookD [OF sys_invD(1) [OF inv]]
  have name: "rpNamespacedName (g_proc g) = k" by (rule b(3) [OF k])
  have "runnerPoolReplicas (y_metrics y) k = None" if "metrics_gone (g_phase g)"
    using b(7) [of k] k that by (metis option.inject)
  then have e: "metrics_wf m' \<and> rpNamespacedName p' = k \<and> p_running p' = p_running (g_proc g) \<and>
    labelled m' = (labelled (y_metrics y))(k := shown ph' p') \<and>
    (\<forall>j. j \<noteq> k \<longrightarrow> runnerPoolReplicas m' j = runnerPoolReplicas (y_metrics y) j) \<and>
    (metrics_gone ph' \<longrightarrow> runnerPoolReplicas m' k = None) \<and>
    (gauge_due ph' p' \<longrightarrow> runnerPoolReplicas m' k \<noteq> None) \<and>
    (ph' \<in> {Exited, RunnersGone, MetricsGone, Finished} \<longrightarrow> g_cancelled g \<or> g_phase g \<in> {Exited, RunnersGone, MetricsGone, Finished})"
    using goroutine_effect [OF go b(2)] b(6) [of k] b(8) [OF k] k name by simp
  let ?g = "g\<lparr>g_phase := ph', g_proc := p'\<rparr>"
  let ?y = "y\<lparr>y_procs := AList.update k ?g (y_procs y), y_metrics := m', y_world := w'\<rparr>"
  have "sys_book ?y"
    by (rule sys_book_update [OF book k, where g' = ?g and m' = m'])
      (use e b(4) [OF k] b(5) [OF k] in auto)
  then show ?thesis
    using inv goroutine_not_finished [OF go] k unfolding sys_inv_def
    by (auto simp: AList.update_conv split: if_splits)
qed

lemma sys_inv_step: "rm_sys_step fac io wait y y' \<Longrightarrow> sys_inv y \<Longrightarrow> sys_inv y'"
proof (induction rule: rm_sys_step.induct)
  case (y_start y a e s')
  then show ?case by (intro sys_inv_start)
next
  case (y_stop y k g)
  note b = sys_bookD [OF sys_invD(1) [OF y_stop.prems]]
  let ?y = "y\<lparr>y_procs := AList.update k (cancel g) (y_procs y), y_holder := Stopping k\<rparr>"
  have gone: "runnerPoolReplicas (y_metrics y) k = None" if "metrics_gone (g_phase g)"
    using b(7) [of k] y_stop.hyps(2) that by (metis option.inject)
  have "sys_book ?y"
    by (rule sys_book_update [OF sys_invD(1) [OF y_stop.prems] y_stop.hyps(2), where g' = "cancel g" and m' = "y_metrics y"])
      (use b(2) b(3) [OF y_stop.hyps(2)] b(6) [of k] b(8) [OF y_stop.hyps(2)] y_stop.hyps(2) gone in \<open>auto simp: cancel_def rpNamespacedName_def fun_upd_idem\<close>)
  then show ?case using y_stop sys_invD(2) [OF y_stop.prems] by (auto simp: sys_inv_def AList.update_conv split: if_splits)
next
  case (y_stop_again y k g)
  note b = sys_bookD [OF sys_invD(1) [OF y_stop_again.prems]]
  have fin: "g_phase g = Finished"
    using sys_invD(2) [OF y_stop_again.prems y_stop_again.hyps(2)] y_stop_again.hyps b(4) [OF y_stop_again.hyps(2)] by auto
  have "sys_book (y\<lparr>y_procs := AList.delete k (y_procs y)\<rparr>)"
    by (rule sys_book_delete [OF sys_invD(1) [OF y_stop_again.prems] y_stop_again.hyps(2) fin]) simp_all
  then show ?case using y_stop_again.hyps(1) sys_invD(2) [OF y_stop_again.prems]
    by (auto simp: sys_inv_def AList.delete_conv split: if_splits)
next
  case (y_stopped y k g)
  have "sys_book (y\<lparr>y_procs := AList.delete k (y_procs y), y_holder := Free\<rparr>)"
    by (rule sys_book_delete [OF sys_invD(1) [OF y_stopped.prems] y_stopped.hyps(2,3)]) simp_all
  moreover have "g_phase h = Finished" if "map_of (AList.delete k (y_procs y)) j = Some h" "g_cancelled h" for j h
    using sys_invD(2) [OF y_stopped.prems, of j h] that y_stopped.hyps(1) by (auto simp: AList.delete_conv split: if_splits)
  ultimately show ?case by (auto simp: sys_inv_def)
next
  case (y_stop_failed y k g e)
  have "sys_book (y\<lparr>y_holder := Free\<rparr>)" by (rule sys_book_cong [THEN iffD2, OF _ _ sys_invD(1) [OF y_stop_failed.prems]]) simp_all
  moreover have "g_phase h = Finished" if "map_of (y_procs y) j = Some h" "g_cancelled h" for j h
    using sys_invD(2) [OF y_stop_failed.prems that] that y_stop_failed.hyps(1-3) by (cases "j = k") auto
  ultimately show ?case by (auto simp: sys_inv_def)
next
  case (y_stopAll y)
  have "sys_book (y\<lparr>y_holder := StoppingAll (map fst (y_procs y))\<rparr>)"
    by (rule sys_book_cong [THEN iffD2, OF _ _ sys_invD(1) [OF y_stopAll.prems]]) simp_all
  moreover have "k \<in> set (map fst (y_procs y))" if "map_of (y_procs y) k = Some g" for k g
    using map_of_SomeD [OF that] by force
  moreover have "g_phase h = Finished" if "map_of (y_procs y) j = Some h" "g_cancelled h" for j h
    using sys_invD(2) [OF y_stopAll.prems that] y_stopAll.hyps by auto
  ultimately show ?case by (auto simp: sys_inv_def)
next
  case (y_stop_next y k ks g)
  note b = sys_bookD [OF sys_invD(1) [OF y_stop_next.prems]]
  have gone: "runnerPoolReplicas (y_metrics y) k = None" if "metrics_gone (g_phase g)"
    using b(7) [of k] y_stop_next.hyps(2) that by (metis option.inject)
  have "sys_book (y\<lparr>y_procs := AList.update k (cancel g) (y_procs y)\<rparr>)"
    by (rule sys_book_update [OF sys_invD(1) [OF y_stop_next.prems] y_stop_next.hyps(2), where g' = "cancel g" and m' = "y_metrics y"])
      (use b(2) b(3) [OF y_stop_next.hyps(2)] b(6) [of k] b(8) [OF y_stop_next.hyps(2)] y_stop_next.hyps(2) gone in \<open>auto simp: cancel_def rpNamespacedName_def fun_upd_idem\<close>)
  moreover have "j = k" if "map_of (AList.update k (cancel g) (y_procs y)) j = Some h" "g_cancelled h" "g_phase h \<noteq> Finished" for j h
    using sys_invD(2) [OF y_stop_next.prems, of j h] that y_stop_next.hyps(1) by (auto simp: AList.update_conv split: if_splits)
  moreover have "g_phase h = Finished" if "map_of (AList.update k (cancel g) (y_procs y)) j = Some h" "j \<notin> set (k # ks)" for j h
    using sys_invD(3) [OF y_stop_next.prems y_stop_next.hyps(1), of j h] that by (simp add: AList.update_conv)
  ultimately show ?case using y_stop_next.hyps(1) by (auto simp: sys_inv_def)
next
  case (y_next_stopped y k ks g)
  have "sys_book (y\<lparr>y_holder := StoppingAll ks\<rparr>)" by (rule sys_book_cong [THEN iffD2, OF _ _ sys_invD(1) [OF y_next_stopped.prems]]) simp_all
  moreover have "g_phase h = Finished" if "map_of (y_procs y) j = Some h" "g_cancelled h" for j h
    using sys_invD(2) [OF y_next_stopped.prems that] that y_next_stopped.hyps(1-3) by (cases "j = k") auto
  moreover have "g_phase h = Finished" if "map_of (y_procs y) j = Some h" "j \<notin> set ks" for j h
    using sys_invD(3) [OF y_next_stopped.prems y_next_stopped.hyps(1) that(1)] that y_next_stopped.hyps(2,3) by (cases "j = k") auto
  ultimately show ?case by (auto simp: sys_inv_def)
next
  case (y_all_stopped y)
  note b = sys_bookD [OF sys_invD(1) [OF y_all_stopped.prems]]
  have fin: "g_phase g = Finished" if "map_of (y_procs y) k = Some g" for k g
    using sys_invD(3) [OF y_all_stopped.prems y_all_stopped.hyps that] by simp
  have "labelled (y_metrics y) k = {}" for k using b(6) [of k] fin [of k] by (auto split: option.splits)
  moreover have "runnerPoolReplicas (y_metrics y) k = None" for k
    using b(7) [of k] fin [of k] by (metis metrics_gone.simps(2))
  ultimately show ?case using b(2) by (simp add: sys_inv_def sys_book_def)
next
  case (y_goroutine y k g ph' p' m' w')
  then show ?case by (intro sys_inv_goroutine)
next
  case (y_world y w')
  then show ?case using sys_book_cong [of "y\<lparr>y_world := w'\<rparr>" y] by (simp add: sys_inv_def)
qed

lemma sys_inv_new: "sys_inv (new_rm_sys InitControllerMetrics w)"
  by (simp add: sys_inv_def sys_book_def new_rm_sys_def metrics_wf_init) (simp add: labelled_def InitControllerMetrics_def)

lemma sys_inv_steps: "rm_sys_steps fac io wait y0 y \<Longrightarrow> sys_inv y0 \<Longrightarrow> sys_inv y"
  by (induction rule: rm_sys_steps.induct) (auto intro: sys_inv_step)

subsection \<open>Properties\<close>

text \<open>
  C11. The books of the metrics are right at every moment between two calls of the metrics package: in the middle of a
  round, in the middle of \<open>updateMetrics\<close> and of \<open>deleteMetrics\<close>, while the configuration of the process changes,
  and while a caller of \<open>Stop\<close> or \<open>StopAll\<close> waits. In every state that the runner manager and its goroutines can
  reach together, the runners with an online series and the runners with a busy series are both exactly those that
  the goroutine of the pool listed last (with the new ones that it has come to, while it updates them), until the
  goroutine, cancelled, has deleted them; while there is such a runner the gauge of the pool is exported too. A pool
  without a process has no online, no busy and no replicas series; and when nobody waits for a goroutine any more,
  a process that was told to stop has ended and its pool has none of them either.
\<close>

theorem goroutines_keep_books:
  assumes "rm_sys_steps fac io wait (new_rm_sys InitControllerMetrics w) y"
  shows "exported (y_metrics y) k = (case map_of (y_procs y) k of
        None \<Rightarrow> ({}, {}) | Some g \<Rightarrow> (shown (g_phase g) (g_proc g), shown (g_phase g) (g_proc g))) \<and>
    (map_of (y_procs y) k = None \<longrightarrow> runnerPoolReplicas (y_metrics y) k = None) \<and>
    (exported (y_metrics y) k \<noteq> ({}, {}) \<longrightarrow> runnerPoolReplicas (y_metrics y) k \<noteq> None) \<and>
    (\<forall>g. map_of (y_procs y) k = Some g \<longrightarrow> rpNamespacedName (g_proc g) = k \<and>
       (metrics_gone (g_phase g) \<longrightarrow> g_cancelled g \<and> runnerPoolReplicas (y_metrics y) k = None) \<and>
       (g_cancelled g \<and> y_holder y = Free \<longrightarrow> g_phase g = Finished \<and>
          exported (y_metrics y) k = ({}, {}) \<and> runnerPoolReplicas (y_metrics y) k = None))"
proof -
  have inv: "sys_inv y" by (rule sys_inv_steps [OF assms sys_inv_new])
  note b = sys_bookD [OF sys_invD(1) [OF inv]]
  have ex: "exported (y_metrics y) k = (case map_of (y_procs y) k of
      None \<Rightarrow> ({}, {}) | Some g \<Rightarrow> (shown (g_phase g) (g_proc g), shown (g_phase g) (g_proc g)))"
    using b(6) [of k] exported_labelled [OF b(2)] by (simp split: option.split)
  have none: "map_of (y_procs y) k = None \<longrightarrow> runnerPoolReplicas (y_metrics y) k = None"
    using b(7) [of k] by (metis option.distinct(1))
  have gauge: "exported (y_metrics y) k \<noteq> ({}, {}) \<longrightarrow> runnerPoolReplicas (y_metrics y) k \<noteq> None"
    using ex b(8) [of k] gauge_due_shown by (auto split: option.splits)
  have some: "rpNamespacedName (g_proc g) = k \<and>
      (metrics_gone (g_phase g) \<longrightarrow> g_cancelled g \<and> runnerPoolReplicas (y_metrics y) k = None) \<and>
      (g_cancelled g \<and> y_holder y = Free \<longrightarrow> g_phase g = Finished \<and>
         exported (y_metrics y) k = ({}, {}) \<and> runnerPoolReplicas (y_metrics y) k = None)"
    if g: "map_of (y_procs y) k = Some g" for g
  proof -
    have "g_cancelled g" if "metrics_gone (g_phase g)" using b(5) [OF g] that by (cases "g_phase g") simp_all
    moreover have "runnerPoolReplicas (y_metrics y) k = None" if "metrics_gone (g_phase g)"
      using b(7) [of k] g that by (metis option.inject)
    moreover have "g_phase g = Finished" if "g_cancelled g" "y_holder y = Free"
      using sys_invD(2) [OF inv g that(1)] that(2) by auto
    ultimately show ?thesis using b(3) [OF g] ex g by auto
  qed
  from ex none gauge some show ?thesis by blast
qed

text \<open>A pool whose process has listed one runner when it is told to stop, in the middle of its round.\<close>

definition one_runner_github :: "'w gh_client" where
  "one_runner_github = \<lparr>ghc_CreateRegistrationToken = (\<lambda>ow r w. (Inl (ApiError []), w)),
     ghc_ListRunners = (\<lambda>ow r ls w. Some (Inr [busy_runner ''a''], w)), ghc_RemoveRunner = (\<lambda>ow r i w. (None, w))\<rparr>"

theorem goroutines_keep_books_witness:
  "\<exists>y. rm_sys_steps (\<lambda>cred. Inr one_runner_github) (static_io stale_status) (\<lambda>k. None) (new_rm_sys InitControllerMetrics ()) y \<and>
     y_holder y = Stopping ''ns/pool'' \<and> exported (y_metrics y) ''ns/pool'' = ({''a''}, {''a''})"
proof -
  let ?k = "''ns/pool''" and ?fac = "\<lambda>cred. Inr one_runner_github :: gh_error + unit gh_client" and ?io = "static_io stale_status"
  let ?step = "rm_sys_step ?fac ?io (\<lambda>k. None)"
  let ?init = "new_rm_sys InitControllerMetrics () :: unit rm_sys"
  obtain repo where repo: "GetRepository sample_pool = Some repo"
    using sample_spec_ok spec_ok_GetRepository [of sample_pool] by (auto simp: sample_pool_def)
  obtain url where url: "NewAgentClient (m_urls ?io) (agent_name sample_pool) = Inr url"
    by (cases "hasPrefix (agent_name sample_pool) ''http://''")
      (auto simp: NewAgentClient_def UpdateServerURL_def static_io_def sample_urls_def)
  obtain p where p: "newManageProcess (m_urls ?io) one_runner_github sample_pool (90000 * Hour) = Returns (Inr p)"
    "p_githubClient p = (one_runner_github :: unit gh_client)"
    using url repo by (simp add: newManageProcess_def)
  let ?p = "start_process p"
  let ?at = "\<lambda>ph p m. \<lparr>y_stopped = False, y_holder = Free, y_procs = [(?k, \<lparr>g_phase = ph, g_proc = p, g_cancelled = False\<rparr>)],
    y_metrics = m, y_world = ()\<rparr>"
  have "rm_StartOrUpdate ?fac ?io (sample_pool, no_credential) (manager_view ?init) =
      Some (None, (manager_view ?init)\<lparr>rm_processes := [(?k, ?p)]\<rparr>)"
    using p(1) by (simp add: rm_StartOrUpdate_def manager_view_def new_rm_sys_def sample_pool_key Let_def static_io_def)
  from y_start [OF _ this] have 1: "?step ?init (?at Idle ?p InitControllerMetrics)"
    by (simp add: new_rm_sys_def manager_view_def with_procs_def)
  have go: "?step (?at ph q m) (?at ph' q' m')" if "goroutine ?io False (ph, q, m, ()) (ph', q', m', ())" for ph q m ph' q' m'
    using y_goroutine [of "?at ph q m" ?k] that by fastforce
  have 2: "?step (?at Idle ?p InitControllerMetrics) (?at (HasPods []) ?p InitControllerMetrics)"
    by (rule go, rule g_tick) (simp add: fetchRunnerPods_def static_io_def)
  have 3: "?step (?at (HasPods []) ?p InitControllerMetrics) (?at (HasRunners [] [busy_runner ''a'']) ?p InitControllerMetrics)"
    by (rule go, rule g_runners) (simp add: fetchRunners_def p(2) start_process_def one_runner_github_def)
  let ?m0 = "UpdateRunnerPoolMetrics (rpNamespacedName ?p) (sint (p_replicas ?p)) InitControllerMetrics"
  have 4: "?step (?at (HasRunners [] [busy_runner ''a'']) ?p InitControllerMetrics) (?at (Updating [] [] [busy_runner ''a'']) ?p ?m0)"
    by (rule go, rule g_replicas)
  obtain m where 5: "?step (?at (Updating [] [] [busy_runner ''a'']) ?p ?m0) (?at (Updating [] [busy_runner ''a''] []) ?p m)"
    using go [OF g_runner [of _ False "[]" "[]" "busy_runner ''a''" "[]" ?p ?m0]] by fastforce
  have q: "p_prevRunnerNames ?p = []" "p_running ?p"
    using new_process_name [OF p(1)] by (simp_all add: start_process_def)
  let ?g = "\<lparr>g_phase = Updating [] [busy_runner ''a''] [], g_proc = ?p, g_cancelled = False\<rparr>"
  let ?y = "?at (Updating [] [busy_runner ''a''] []) ?p m"
  let ?z = "?y\<lparr>y_procs := AList.update ?k (cancel ?g) (y_procs ?y), y_holder := Stopping ?k\<rparr>"
  have 6: "?step ?y ?z" by (rule y_stop) (simp_all add: q)
  have steps: "rm_sys_steps ?fac ?io (\<lambda>k. None) ?init ?z"
    by (rule sys_next [OF sys_next [OF sys_next [OF sys_next [OF sys_next [OF sys_next [OF sys_refl 1] 2] 3] 4] 5] 6])
  have "exported (y_metrics ?z) ?k = ({''a''}, {''a''})"
    using goroutines_keep_books [OF steps, of ?k] by (simp add: cancel_def q busy_runner_def)
  then show ?thesis using steps by (intro exI [of _ ?z]) simp
qed

end
