(* ===== verification/Spec2Isabelle.thy ===== *)
theory Spec2Isabelle
  imports Cluster Controller_Main Metrics_Client Agent_Run Deep_Copy Manage_Notify Token_Validity Manager_Goroutines
begin

text \<open>
  A verification of meows, a Kubernetes controller that runs GitHub Actions jobs in pods.

  \<^bold>\<open>The program.\<close> A user declares a \<open>RunnerPool\<close>. The reconciler (\<open>controllers/runnerpool_controller.go\<close>) makes
  of it a secret with a registration token and a deployment of runner pods, and starts one process per pool
  in each of two managers: the secret updater (\<open>controllers/secret_updater.go\<close>) refreshes the token, the
  runner manager (\<open>controllers/runner_manager.go\<close>) looks at the pods and at the runners registered with
  GitHub once per interval, deletes pods that have done their job, takes busy pods out of the replica set,
  removes offline runners, notifies Slack and exports metrics. Inside a runner pod the entry point
  (\<open>runner/runner.go\<close>) registers the runner, runs one job and then reports its status over HTTP until it is
  deleted. The Slack agent (\<open>agent/\<close>) posts job results with two buttons, by which a user extends or ends
  the life of a pod.

  \<^bold>\<open>The theories\<close>, in the order of their imports.
  \<^item> \<open>Meows_Prelude\<close>, \<open>Go_Strings\<close>, \<open>Go_Time\<close>, \<open>Go_Json\<close>, \<open>Go_Json_Indent\<close>, \<open>Go_Http\<close>: what the code uses of Go and
    of its standard library: outcomes of code that may panic, maps that may be nil, \<open>strings\<close>, \<open>strconv\<close>,
    RFC 3339 times and durations, the encoder and decoder of JSON, requests and URLs. The reader of JSON has
    as fuel the length of its input, which is enough for every text the encoder produces (\<open>unmarshal_print\<close>,
    \<open>unmarshal_print_indent\<close>).
  \<^item> \<open>Constants\<close>: \<open>constants.go\<close>.
  \<^item> \<open>Job_Info\<close> (\<open>runner/jobinfo.go\<close>), \<open>Metrics\<close> (\<open>metrics/controller.go\<close>, \<open>metrics/runner.go\<close>), \<open>Metrics_Client\<close>
    (\<open>metrics/client.go\<close>), \<open>Runner_Listener\<close> (\<open>runner/enviroments.go\<close>, \<open>helper.go\<close>, \<open>listener.go\<close>), \<open>Runner_Pod\<close>
    (\<open>runner/runner.go\<close>), \<open>Runner_Client\<close> (\<open>runner/client.go\<close>). The goroutine of a pod is a machine with a
    program counter, \<open>listener_step\<close>, interleaved with requests and changes of the world in \<open>pod_step\<close>; the update of
    the state metric and the change of the state are two steps, as in the code, and \<open>announced\<close> names the state between. The
    relaunch loop of the listener is a partial function, since the listener may ask to be relaunched for
    ever. \<open>runner_client\<close> is the contract of the client, kept by \<open>clientImpl\<close> over HTTP and by \<open>FakeClient\<close>.
  \<^item> \<open>Kube_Objects\<close>, \<open>RunnerPool_Api\<close> (\<open>api/v1alpha1/\<close>): the objects of Kubernetes as far as the code reads and
    writes them, the rest of each carried along unread; the validation of pools. \<open>Deep_Copy\<close>
    (\<open>zz_generated.deepcopy.go\<close>): the same types in an explicit memory, with addresses for maps, slices and
    pointers, and their deep copies; \<open>deep_copier\<close> says what a deep copy is and is proved of every type from its
    parts, \<open>external_copies\<close> that the structs of the Kubernetes API have one.
  \<^item> \<open>GitHub_Client\<close> (\<open>github/\<close>): the client over the calls of the API package, whose pages may be without end,
    hence a partial function; \<open>github_client\<close> is the contract kept by it and by the fake.
  \<^item> \<open>Slack_Agent\<close>, \<open>Agent_Run\<close> (\<open>agent/\<close>): the client, the HTTP handler, the messages, the handlers of the buttons and
    the running agent as a sequence of requests and events.
  \<^item> \<open>Manage_Process\<close>, \<open>Manage_Safety\<close>: a process of the runner manager and what a round does to pods and runners,
    over a log of the calls it makes and of what the pods answer; \<open>manager_world\<close> is the contract of a round with its
    surroundings. Where a theorem says that no metric is left it means all series: \<open>exported\<close> is the pair of the runners
    with an online and those with a busy series, \<open>pool_series\<close> everything exported about a pool, with the values.
    \<open>Manage_Notify\<close>: the requests to the Slack agent over many rounds, counted in a log of the rounds.
  \<^item> \<open>Secret_Updater\<close>, \<open>Process_Managers\<close>: the loop that refreshes a token, and the two maps of processes;
    \<open>process_manager\<close> is the contract both keep and from which their common behaviour and the refinement of an
    abstract manager (\<open>spec_step\<close>) are proved once, with the success of each call; \<open>process_life\<close> is what can happen to a
    process between its start and an update. \<open>Token_Validity\<close>: the loop of the secret updater in a world with
    a clock and with failures (\<open>timed_world\<close>). The API server stores a secret by merging the write-only
    \<open>StringData\<close> into \<open>Data\<close> (\<open>stored_as\<close>); how long GitHub accepts a token is the parameter \<open>valid_until\<close>.
  \<^item> \<open>Reconciler\<close>: \<open>Reconcile\<close> with everything it calls. How the kubelet expands the value of an environment variable is
    the parameter \<open>expand\<close>, of which only that a value without a dollar sign stays as it is is assumed
    (\<open>plain_unchanged\<close>); \<open>setup_command_rewritten\<close> shows that a setup command with one need not.
  \<^item> \<open>Controller_System\<close>: reconciler, managers and metrics on one state, with their steps interleaved in any
    order; \<open>reconciler_calls\<close> carries an invariant of the callees over a round. \<open>Manager_Goroutines\<close>: the runner
    manager once more, its goroutines as machines with a program counter, interleaved call by call, the calls
    of the metrics package included, and the callers of \<open>Stop\<close> and \<open>StopAll\<close> waiting for them; that a round is a run of
    the machine is the lemma \<open>runOnce_steps\<close>.
  \<^item> \<open>Commands\<close> (\<open>cmd/\<close>), \<open>Controller_Main\<close> (\<open>cmd/controller/\<close>): the programs, the main function of the controller
    with its deferred calls.
  \<^item> \<open>Cluster\<close>: a round of the runner manager on a network of runner pods, what it deletes there by the answers of the
    pods in that round, and the Slack agent beside it.

  \<^bold>\<open>Conventions.\<close> A struct is a record, an error a value of a sum or option type, a panic \<open>Panics\<close>, not returning
  \<open>None\<close>. Strings are lists of bytes. The outside world is a type variable that every call passes on, so that
  the answers of Kubernetes, GitHub, Slack, the file system and the clock are arbitrary unless a theorem says
  otherwise. \<open>int32\<close> fields are 32-bit words; times are nanoseconds as integers. A goroutine of a process is
  taken in rounds: one tick of the runner manager, one turn of the secret updater is one step; the calls of
  the managers are atomic because of their mutexes. \<open>Manager_Goroutines\<close> breaks the rounds of the runner manager up
  into their calls and lets anything happen in between; one call and one pass over a pod remain steps. What a scrape of
  the metrics sees inside one call of the metrics package is not modelled. A call whose context is cancelled is one that may fail, as every call may.

  \<^bold>\<open>What is shown.\<close> Of a round of the runner manager: a busy pod is deleted only if it has answered in that round
  that it is stale or done, exactly the pods whose answer asks for it are deleted, the maximum of pods is respected, exactly the offline runners without a pod are removed, and on runner
  pods a round never panics. Of the reconciler: the finalizer goes last, a pool is bound only after all steps,
  the deployment is stable under reconciling and its pods are found by the manager's selector. Of the pod: its
  status is well-formed in every reachable state, moves only forward and is what the client shows and what
  the metric shows, up to the change that the metric announces; a restarted pod never runs a second job. Of the secret updater: as long as few turns in a row fail, the secret
  in the API server holds a token that GitHub still accepts. Of the notifications: how often a job is notified, by the time it finished, which is
  once unless it finishes during a round or its pod cannot be reached. Of deep copies: a copy shares no memory
  with the original. Of the controller as a whole: metrics and processes agree in every reachable state, a finalized
  pool is forgotten, a bound pool is managed by its spec (but a running process keeps its credential), and the program leaves
  nothing behind once serving returns. Across
  programs: job information travels from the hook in the job to the controller, environment variables from the
  controller to the pod, results to Slack, and the buttons decide when a pod is deleted.

  \<^bold>\<open>Parameters.\<close> Code outside the repository is an argument of the definitions that use it: the Kubernetes client
  (\<open>kube_calls\<close>, \<open>manager_io\<close>, \<open>secret_io\<close>), \<open>controllerutil\<close> (\<open>kube_lib\<close>), the package \<open>go-github\<close> (\<open>gh_transports\<close>
  and the calls on it), \<open>net/url\<close> where it resolves the agent's address (\<open>url_lib\<close>), the waiting of
  \<open>well.Environment\<close>, the manager of \<open>controller-runtime\<close> (\<open>manager_lib\<close>), YAML and regular expressions.

  \<^bold>\<open>Not modelled.\<close> The scheme builder, \<open>SetupWithManager\<close> and \<open>SetupWebhookWithManager\<close> only register with libraries;
  parsing of flags; logging. Outside \<open>Deep_Copy\<close> objects are values, so that the copies the code makes are invisible
  there. A round of the reconciler and a turn of the secret updater are single steps of the controller.
\<close>

end
